(* ===== verification/Podlock_Prelude.thy ===== *)
theory Podlock_Prelude
  imports Main "HOL-Library.Sublist" "HOL-Library.Char_ord" "HOL-Library.List_Lexorder"
begin

text \<open>
  Shared vocabulary of the development: Go errors and the way the code wraps them, calls that
  change a state and may fail, Go maps as the association lists a \<open>range\<close> loop walks, and the
  generic lemmas on lists the components use.

  A Go function \<open>f(args) (T, error)\<close> without effects is a HOL function into
  \<open>go_error + T\<close>; one with effects on a state \<open>'s\<close> takes the state and returns
  \<open>(go_error + T) \<times> 's\<close>, since Go keeps the effects made before an error return.
\<close>

named_theorems go_defs \<open>definitions of the Go standard library model\<close>
named_theorems path_norm \<open>normal forms of cleaned paths\<close>

section \<open>Errors\<close>

text \<open>
  \<open>Errno\<close> is an error of the operating system, \<open>Errorf\<close> an error made by
  \<open>errors.New\<close> or \<open>fmt.Errorf\<close> without \<open>%w\<close>, \<open>Wrap\<close> one made with \<open>%w\<close>
  (its message up to the wrapped error), \<open>Remote\<close> one that came from code outside
  the repository.
\<close>

datatype errno = ENOENT | ENOTDIR | EISDIR | EACCES | EIO | EINVAL | EBUSY | ENOSPC

datatype go_error =
    Errno errno
  | Errorf string
  | Wrap string go_error
  | Remote string

text \<open>\<open>errors.Is(err, os.ErrNotExist)\<close> follows the wrapped errors down to the errno.\<close>

fun is_not_exist :: "go_error \<Rightarrow> bool" where
  "is_not_exist (Errno e) = (e = ENOENT)"
| "is_not_exist (Errorf m) = False"
| "is_not_exist (Wrap m e) = is_not_exist e"
| "is_not_exist (Remote m) = False"

text \<open>The quoted argument of a message, \<open>'%s'\<close>.\<close>

definition squote :: "string \<Rightarrow> string" where
  "squote s = CHR 0x27 # s @ [CHR 0x27]"

section \<open>Calls that may fail\<close>

type_synonym 'a result = "go_error + 'a"
type_synonym ('a, 's) effect = "'s \<Rightarrow> 'a result \<times> 's"

text \<open>
  \<open>attempt m w k\<close> is \<open>x, err := m(); if err != nil { return w(err) }; k(x)\<close>.
\<close>

definition attempt ::
  "('a, 's) effect \<Rightarrow> (go_error \<Rightarrow> go_error) \<Rightarrow> ('a \<Rightarrow> ('b, 's) effect) \<Rightarrow> ('b, 's) effect" where
  "attempt m w k s =
     (case m s of
        (Inl e, s') \<Rightarrow> (Inl (w e), s')
      | (Inr x, s') \<Rightarrow> k x s')"

definition return_ok :: "'a \<Rightarrow> ('a, 's) effect" where
  "return_ok x s = (Inr x, s)"

lemma attempt_Inl [simp]: "m s = (Inl e, s') \<Longrightarrow> attempt m w k s = (Inl (w e), s')"
  by (simp add: attempt_def)

lemma attempt_Inr [simp]: "m s = (Inr x, s') \<Longrightarrow> attempt m w k s = k x s'"
  by (simp add: attempt_def)

lemma return_ok_eq [simp]: "return_ok x s = (Inr x, s)"
  by (simp add: return_ok_def)

lemma attempt_InrE:
  assumes "attempt m w k s = (Inr y, t)"
  obtains x s' where "m s = (Inr x, s')" "k x s' = (Inr y, t)"
  using assms by (auto simp: attempt_def split: prod.splits sum.splits)

lemma attempt_cases:
  assumes "attempt m w k s = (r, t)"
  obtains (failed) e where "m s = (Inl e, t)" "r = Inl (w e)"
    | (continued) x s' where "m s = (Inr x, s')" "k x s' = (r, t)"
  using assms by (auto simp: attempt_def split: prod.splits sum.splits)

text \<open>
  What every step of a sequence keeps, the sequence keeps: the rule by which frame conditions
  and invariants are carried through a call.
\<close>

lemma attempt_preserves:
  assumes "attempt m w k s = (r, t)"
    and "\<And>x s'. m s = (x, s') \<Longrightarrow> P s'"
    and "\<And>x s' r' t'. m s = (Inr x, s') \<Longrightarrow> k x s' = (r', t') \<Longrightarrow> P s' \<Longrightarrow> P t'"
  shows "P t"
  using assms by (metis attempt_cases)

section \<open>Go maps\<close>

text \<open>
  A Go map with string keys: \<open>None\<close> is the nil map, \<open>Some xs\<close> a map with the entries \<open>xs\<close>
  in the order a \<open>range\<close> loop visits them. Go leaves that order open, so a statement about
  every \<open>xs\<close> is one about every order; the keys of a map are distinct.
\<close>

type_synonym 'v go_map = "(string \<times> 'v) list option"

definition entries :: "'v go_map \<Rightarrow> (string \<times> 'v) list" where
  "entries m = (case m of None \<Rightarrow> [] | Some xs \<Rightarrow> xs)"

definition lookup :: "'v go_map \<Rightarrow> string \<Rightarrow> 'v option" where
  "lookup m k = map_of (entries m) k"

definition keys :: "'v go_map \<Rightarrow> string list" where
  "keys m = map fst (entries m)"

definition map_wf :: "'v go_map \<Rightarrow> bool" where
  "map_wf m \<longleftrightarrow> distinct (keys m)"

lemma entries_simps [simp]: "entries None = []" "entries (Some xs) = xs"
  by (simp_all add: entries_def)

lemma keys_simps [simp]: "keys None = []" "keys (Some xs) = map fst xs"
  by (simp_all add: keys_def)

lemma lookup_simps [simp]: "lookup None k = None" "lookup (Some xs) k = map_of xs k"
  by (simp_all add: lookup_def)

lemma lookup_None_iff: "lookup m k = None \<longleftrightarrow> k \<notin> set (keys m)"
  by (simp add: lookup_def keys_def map_of_eq_None_iff)

lemma lookup_not_nil: "lookup m k = Some v \<Longrightarrow> m \<noteq> None"
  by (cases m) simp_all

lemma lookup_Some_in: "lookup m k = Some v \<Longrightarrow> (k, v) \<in> set (entries m)"
  by (simp add: lookup_def map_of_SomeD)

lemma in_entries_lookup: "map_wf m \<Longrightarrow> (k, v) \<in> set (entries m) \<Longrightarrow> lookup m k = Some v"
  by (simp add: lookup_def map_wf_def keys_def)

section \<open>Lists\<close>

text \<open>A list of a set of strings, an instance of the parameters that list a \<open>sets.Set\<close>.\<close>

definition list_of_set :: "string set \<Rightarrow> string list" where
  "list_of_set S = sorted_list_of_set S"

lemma set_list_of_set: "finite S \<Longrightarrow> set (list_of_set S) = S"
  by (simp add: list_of_set_def)

lemma prefix_iff_take: "prefix xs ys \<longleftrightarrow> take (length xs) ys = xs"
  by (metis append_eq_conv_conj prefix_def take_is_prefix)

lemma strict_prefix_same_append [simp]: "strict_prefix (xs @ ys) (xs @ zs) \<longleftrightarrow> strict_prefix ys zs"
  by (simp add: strict_prefix_def)

lemma strict_prefix_append [simp]: "strict_prefix xs (xs @ ys) \<longleftrightarrow> ys \<noteq> []"
  by (simp add: strict_prefix_def)

lemma distinct_map_fst_inj: "distinct (map fst xs) \<Longrightarrow> (k, v) \<in> set xs \<Longrightarrow> (k, w) \<in> set xs \<Longrightarrow> v = w"
  by (metis Some_eq_map_of_iff option.inject)

lemma concat_eq_Nil_iff: "concat xss = [] \<longleftrightarrow> (\<forall>xs \<in> set xss. xs = [])"
  by (induction xss) auto

end
