(* ===== verification/Go_Strings.thy ===== *)
theory Go_Strings
  imports Podlock_Prelude
begin

text \<open>
  What the code uses of the Go packages \<open>strings\<close>, \<open>strconv\<close> and \<open>unicode\<close>. A Go string is its
  bytes, one \<open>char\<close> each. \<open>unicode.IsSpace\<close> is read off the UTF-8 encodings of the white space
  code points, since a scan of the bytes from the left meets an encoding exactly where
  \<open>DecodeRune\<close> would decode it.
\<close>

section \<open>Split and Join\<close>

text \<open>\<open>strings.Split(s, c)\<close> with a separator of one byte: never empty.\<close>

fun split_on :: "char \<Rightarrow> string \<Rightarrow> string list" where
  "split_on c [] = [[]]"
| "split_on c (x # xs) =
     (if x = c then [] # split_on c xs
      else case split_on c xs of [] \<Rightarrow> [[x]] | w # ws \<Rightarrow> (x # w) # ws)"

text \<open>\<open>strings.Join(ws, sep)\<close>\<close>

fun join_with :: "string \<Rightarrow> string list \<Rightarrow> string" where
  "join_with s [] = []"
| "join_with s [w] = w"
| "join_with s (w # v # ws) = w @ s @ join_with s (v # ws)"

lemma split_on_not_Nil [simp]: "split_on c s \<noteq> []"
  by (cases s) (auto split: list.splits)

lemma join_with_Cons: "ws \<noteq> [] \<Longrightarrow> join_with s (w # ws) = w @ s @ join_with s ws"
  by (cases ws) auto

lemma join_split [simp]: "join_with [c] (split_on c s) = s"
proof (induction s)
  case (Cons x xs)
  obtain w ws where split: "split_on c xs = w # ws" by (cases "split_on c xs") auto
  then have "join_with [c] (w # ws) = xs" using Cons.IH by simp
  then show ?case using split by (cases ws) auto
qed simp

lemma split_on_no_sep: "c \<notin> set w \<Longrightarrow> split_on c w = [w]"
  by (induction w) auto

lemma split_on_append:
  "c \<notin> set w \<Longrightarrow> split_on c (w @ c # s) = w # split_on c s"
  by (induction w) auto

lemma split_on_sep_append: "split_on c (s @ c # t) = split_on c s @ split_on c t"
proof (induction s)
  case (Cons x xs)
  obtain w ws where "split_on c xs = w # ws" by (cases "split_on c xs") auto
  then show ?case using Cons.IH by auto
qed simp

lemma split_join:
  "ws \<noteq> [] \<Longrightarrow> \<forall>w \<in> set ws. c \<notin> set w \<Longrightarrow> split_on c (join_with [c] ws) = ws"
proof (induction ws)
  case (Cons w ws)
  then show ?case
    by (cases ws) (auto simp: split_on_no_sep split_on_append)
qed simp

lemma split_on_no_sep_elems: "w \<in> set (split_on c s) \<Longrightarrow> c \<notin> set w"
proof (induction s arbitrary: w)
  case (Cons x xs)
  obtain v vs where split: "split_on c xs = v # vs" by (cases "split_on c xs") auto
  with Cons show ?case by (auto split: if_splits)
qed simp

lemma split_on_join_all:
  "ws \<noteq> [] \<Longrightarrow> split_on c (join_with [c] ws) = concat (map (split_on c) ws)"
proof (induction ws)
  case (Cons w ws)
  then show ?case
    by (cases ws) (auto simp: split_on_sep_append)
qed simp

lemma join_with_append:
  "xs \<noteq> [] \<Longrightarrow> ys \<noteq> [] \<Longrightarrow> join_with s (xs @ ys) = join_with s xs @ s @ join_with s ys"
proof (induction xs)
  case (Cons x xs)
  then show ?case by (cases "xs = []") (auto simp: join_with_Cons)
qed simp

section \<open>Prefixes and substrings\<close>

definition HasPrefix :: "string \<Rightarrow> string \<Rightarrow> bool" where
  "HasPrefix s p = prefix p s"

lemma HasPrefix_iff: "HasPrefix s p \<longleftrightarrow> (\<exists>r. s = p @ r)"
  by (auto simp: HasPrefix_def prefix_def)

text \<open>\<open>strings.Cut(s, sep)\<close>: around the first occurrence; \<open>None\<close> where Go returns \<open>ok = false\<close>.\<close>

fun cut :: "string \<Rightarrow> string \<Rightarrow> (string \<times> string) option" where
  "cut sep [] = (if sep = [] then Some ([], []) else None)"
| "cut sep (x # xs) =
     (if prefix sep (x # xs) then Some ([], drop (length sep) (x # xs))
      else map_option (\<lambda>(a, b). (x # a, b)) (cut sep xs))"

definition contains :: "string \<Rightarrow> string \<Rightarrow> bool" where
  "contains s sub = (cut sub s \<noteq> None)"

lemma cut_Some: "cut sep s = Some (a, b) \<Longrightarrow> s = a @ sep @ b"
proof (induction s arbitrary: a b)
  case (Cons x xs)
  show ?case
  proof (cases "prefix sep (x # xs)")
    case True
    with Cons.prems show ?thesis by (auto simp: prefix_def)
  next
    case False
    with Cons show ?thesis by auto
  qed
qed (auto split: if_splits)

lemma cut_char_append: "c \<notin> set a \<Longrightarrow> cut [c] (a @ c # b) = Some (a, b)"
  by (induction a) auto

lemma cut_char_None: "cut [c] s = None \<longleftrightarrow> c \<notin> set s"
  by (induction s) auto

lemma cut_char_Some_notin: "cut [c] s = Some (a, b) \<Longrightarrow> c \<notin> set a"
  by (induction s arbitrary: a b) (auto split: if_splits)

section \<open>White space\<close>

definition ascii_space :: "char \<Rightarrow> bool" where
  "ascii_space c = (c \<in> {CHR 0x09, CHR 0x0A, CHR 0x0B, CHR 0x0C, CHR 0x0D, CHR '' ''})"

text \<open>
  \<open>space_width s\<close>: the number of bytes of the white space code point at the head of \<open>s\<close>, 0 if
  there is none: the ASCII ones, U+0085, U+00A0, U+1680, U+2000 to U+200A, U+2028, U+2029,
  U+202F, U+205F and U+3000.
\<close>

definition space2 :: "char \<Rightarrow> char \<Rightarrow> bool" where
  "space2 a b = (a = CHR 0xC2 \<and> b \<in> {CHR 0x85, CHR 0xA0})"

definition space3 :: "char \<Rightarrow> char \<Rightarrow> char \<Rightarrow> bool" where
  "space3 a b c =
     (a = CHR 0xE1 \<and> b = CHR 0x9A \<and> c = CHR 0x80
    \<or> a = CHR 0xE2 \<and> b = CHR 0x80 \<and>
        c \<in> {CHR 0x80, CHR 0x81, CHR 0x82, CHR 0x83, CHR 0x84, CHR 0x85, CHR 0x86,
              CHR 0x87, CHR 0x88, CHR 0x89, CHR 0x8A, CHR 0xA8, CHR 0xA9, CHR 0xAF}
    \<or> a = CHR 0xE2 \<and> b = CHR 0x81 \<and> c = CHR 0x9F
    \<or> a = CHR 0xE3 \<and> b = CHR 0x80 \<and> c = CHR 0x80)"

fun space_width :: "string \<Rightarrow> nat" where
  "space_width [] = 0"
| "space_width (a # s) =
     (if ascii_space a then 1
      else case s of
             [] \<Rightarrow> 0
           | b # r \<Rightarrow>
               if space2 a b then 2
               else case r of [] \<Rightarrow> 0 | c # _ \<Rightarrow> if space3 a b c then 3 else 0)"

lemma space_width_le: "space_width s \<le> length s"
  by (cases s) (auto split: list.splits)

lemma space_width_ascii [simp]: "ascii_space c \<Longrightarrow> space_width (c # s) = 1"
  by simp

declare space_width.simps(2) [simp del]

text \<open>A byte that starts no white space wherever it stands.\<close>

definition plain_char :: "char \<Rightarrow> bool" where
  "plain_char c \<longleftrightarrow> \<not> ascii_space c \<and> c \<notin> {CHR 0xC2, CHR 0xE1, CHR 0xE2, CHR 0xE3}"

lemma space_width_plain [simp]: "plain_char c \<Longrightarrow> space_width (c # s) = 0"
  by (auto simp: plain_char_def space2_def space3_def space_width.simps split: list.splits)

text \<open>\<open>strings.TrimSpace\<close>: from the left, then from the right.\<close>

function trim_left :: "string \<Rightarrow> string" where
  "trim_left s = (if space_width s = 0 then s else trim_left (drop (space_width s) s))"
  by pat_completeness auto
termination
proof (relation "measure length")
  fix s :: string
  assume "space_width s \<noteq> 0"
  moreover have "space_width s \<le> length s" by (rule space_width_le)
  ultimately show "(drop (space_width s) s, s) \<in> measure length" by auto
qed simp

declare trim_left.simps [simp del]

text \<open>The width of the white space code point at the end: an encoding that reaches the end.\<close>

definition space_suffix :: "string \<Rightarrow> nat" where
  "space_suffix s =
     (if 1 \<le> length s \<and> space_width (drop (length s - 1) s) = 1 then 1
      else if 2 \<le> length s \<and> space_width (drop (length s - 2) s) = 2 then 2
      else if 3 \<le> length s \<and> space_width (drop (length s - 3) s) = 3 then 3
      else 0)"

lemma space_suffix_le: "space_suffix s \<le> length s"
  by (simp add: space_suffix_def)

function trim_right :: "string \<Rightarrow> string" where
  "trim_right s =
     (if space_suffix s = 0 then s else trim_right (take (length s - space_suffix s) s))"
  by pat_completeness auto
termination
proof (relation "measure length")
  fix s :: string
  assume "space_suffix s \<noteq> 0"
  moreover have "space_suffix s \<le> length s" by (rule space_suffix_le)
  ultimately show "(take (length s - space_suffix s) s, s) \<in> measure length" by auto
qed simp

declare trim_right.simps [simp del]

definition TrimSpace :: "string \<Rightarrow> string" where
  "TrimSpace s = trim_right (trim_left s)"

text \<open>
  \<open>strings.Fields\<close>: the maximal pieces without white space, in order. The first argument is the
  piece read so far.
\<close>

function fields_from :: "string \<Rightarrow> string \<Rightarrow> string list" where
  "fields_from acc [] = (if acc = [] then [] else [acc])"
| "fields_from acc (c # s) =
     (if space_width (c # s) = 0 then fields_from (acc @ [c]) s
      else (if acc = [] then [] else [acc]) @ fields_from [] (drop (space_width (c # s) - 1) s))"
  by pat_completeness auto
termination by (relation "measure (\<lambda>(acc, s). length s)") auto

definition Fields :: "string \<Rightarrow> string list" where
  "Fields s = fields_from [] s"

lemma fields_from_nonempty: "f \<in> set (fields_from acc s) \<Longrightarrow> f \<noteq> []"
proof (induction acc s rule: fields_from.induct)
  case (2 acc c s)
  then show ?case by (auto split: if_splits)
qed (auto split: if_splits)

lemma fields_from_no_ascii_space:
  "\<lbrakk>f \<in> set (fields_from acc s); \<forall>c \<in> set acc. \<not> ascii_space c\<rbrakk>
     \<Longrightarrow> \<forall>c \<in> set f. \<not> ascii_space c"
proof (induction acc s rule: fields_from.induct)
  case (2 acc c s)
  show ?case
  proof (cases "space_width (c # s) = 0")
    case True
    then have "\<forall>d \<in> set (acc @ [c]). \<not> ascii_space d"
      using "2.prems"(2) by (auto dest: space_width_ascii)
    moreover have "f \<in> set (fields_from (acc @ [c]) s)"
      using True "2.prems"(1) by simp
    ultimately show ?thesis using "2.IH"(1) [OF True] by blast
  next
    case False
    then consider "f = acc" | "f \<in> set (fields_from [] (drop (space_width (c # s) - 1) s))"
      using "2.prems"(1) by (auto split: if_splits)
    then show ?thesis
    proof cases
      case 1
      with "2.prems"(2) show ?thesis by simp
    next
      case 2
      then show ?thesis by (rule "2.IH"(2) [OF False]) simp
    qed
  qed
qed (simp split: if_splits)

lemma fields_from_plain:
  "\<forall>c \<in> set w. plain_char c \<Longrightarrow> fields_from acc (w @ s) = fields_from (acc @ w) s"
  by (induction w arbitrary: acc) (auto)

lemma fields_from_space:
  "ascii_space c \<Longrightarrow> fields_from acc (c # s) = (if acc = [] then [] else [acc]) @ fields_from [] s"
  by simp

text \<open>A plain word followed by a space is the first field.\<close>

lemma Fields_word:
  assumes "w \<noteq> []" "\<forall>c \<in> set w. plain_char c" "ascii_space c"
  shows "Fields (w @ c # s) = w # Fields s"
  unfolding Fields_def
  using assms by (simp add: fields_from_plain fields_from_space del: fields_from.simps)

lemma Fields_word_end: "w \<noteq> [] \<Longrightarrow> \<forall>c \<in> set w. plain_char c \<Longrightarrow> Fields w = [w]"
  using fields_from_plain [of w "[]" "[]"] by (simp add: Fields_def)

lemma trim_left_plain: "plain_char c \<Longrightarrow> trim_left (c # s) = c # s"
  by (subst trim_left.simps) simp

lemma trim_left_space: "ascii_space c \<Longrightarrow> trim_left (c # s) = trim_left s"
  by (subst trim_left.simps) simp

lemma trim_left_suffix: "suffix (trim_left s) s"
proof (induction s rule: trim_left.induct)
  case (1 s)
  show ?case
  proof (cases "space_width s = 0")
    case True
    then show ?thesis by (subst trim_left.simps) simp
  next
    case False
    with 1 have "suffix (trim_left (drop (space_width s) s)) (drop (space_width s) s)" by simp
    then have "suffix (trim_left (drop (space_width s) s)) s"
      using suffix_drop suffix_order.trans by blast
    with False show ?thesis by (subst trim_left.simps) simp
  qed
qed

lemma trim_right_prefix: "prefix (trim_right s) s"
proof (induction s rule: trim_right.induct)
  case (1 s)
  show ?case
  proof (cases "space_suffix s = 0")
    case True
    then show ?thesis by (subst trim_right.simps) simp
  next
    case False
    let ?t = "take (length s - space_suffix s) s"
    from False 1 have "prefix (trim_right ?t) ?t" by simp
    then have "prefix (trim_right ?t) s"
      using take_is_prefix prefix_order.trans by blast
    with False show ?thesis by (subst trim_right.simps) simp
  qed
qed

end
