(* ===== verification/Go_Filepath.thy ===== *)
theory Go_Filepath
  imports Go_Strings
begin

text \<open>
  The functions of Go's \<open>path/filepath\<close> (on Unix) the code calls: \<open>Clean\<close>, \<open>Join\<close>, \<open>IsAbs\<close>,
  \<open>Base\<close>, \<open>Dir\<close>, \<open>IsLocal\<close> and \<open>Abs\<close>, on strings as they are. Proofs work on the list of the
  components: a cleaned absolute path is \<open>abs_path cs\<close> for a list \<open>cs\<close> of proper components,
  and the list is unique. The locale \<open>path_join\<close> is the contract the components above rely on.
\<close>

abbreviation sep :: char where
  "sep \<equiv> CHR 0x2F"

section \<open>The operations\<close>

definition IsAbs :: "string \<Rightarrow> bool" where
  "IsAbs p = HasPrefix p [sep]"

text \<open>
  One component of the path against the components kept so far, last first: empty ones and
  \<open>.\<close> go, \<open>..\<close> takes the last one back, stays in front of a relative path and is dropped at the
  root.
\<close>

fun clean_step :: "bool \<Rightarrow> string list \<Rightarrow> string \<Rightarrow> string list" where
  "clean_step rooted st c =
     (if c = [] \<or> c = ''.'' then st
      else if c = ''..'' then
        (case st of
           t # ts \<Rightarrow> if t \<noteq> ''..'' then ts else c # st
         | [] \<Rightarrow> if rooted then [] else [c])
      else c # st)"

definition clean_comps :: "bool \<Rightarrow> string list \<Rightarrow> string list" where
  "clean_comps rooted cs = rev (foldl (clean_step rooted) [] cs)"

definition abs_path :: "string list \<Rightarrow> string" where
  "abs_path cs = sep # join_with [sep] cs"

definition Clean :: "string \<Rightarrow> string" where
  "Clean p =
     (if p = [] then ''.''
      else if IsAbs p then abs_path (clean_comps True (split_on sep p))
      else let cs = clean_comps False (split_on sep p)
           in if cs = [] then ''.'' else join_with [sep] cs)"

text \<open>\<open>filepath.Join\<close> drops the leading empty elements only; inner ones go in \<open>Clean\<close>.\<close>

definition Join :: "string list \<Rightarrow> string" where
  "Join es =
     (case dropWhile (\<lambda>e. e = []) es of
        [] \<Rightarrow> []
      | es' \<Rightarrow> Clean (join_with [sep] es'))"

definition strip_seps :: "string \<Rightarrow> string" where
  "strip_seps p = rev (dropWhile (\<lambda>c. c = sep) (rev p))"

definition Base :: "string \<Rightarrow> string" where
  "Base p =
     (if p = [] then ''.''
      else let b = last (split_on sep (strip_seps p)) in if b = [] then [sep] else b)"

text \<open>\<open>path[:i+1]\<close> for the last separator \<open>i\<close>, empty when there is none; then \<open>Clean\<close>.\<close>

definition Dir :: "string \<Rightarrow> string" where
  "Dir p = Clean (rev (dropWhile (\<lambda>c. c \<noteq> sep) (rev p)))"

definition IsLocal :: "string \<Rightarrow> bool" where
  "IsLocal p =
     (if IsAbs p \<or> p = [] then False
      else let dots = (\<exists>c \<in> set (split_on sep p). c = ''.'' \<or> c = ''..'');
               q = (if dots then Clean p else p)
           in \<not> (q = ''..'' \<or> HasPrefix q ''../''))"

text \<open>\<open>filepath.Abs\<close>; \<open>wd\<close> is what \<open>os.Getwd\<close> returns.\<close>

definition Abs :: "string result \<Rightarrow> string \<Rightarrow> string result" where
  "Abs wd p =
     (if IsAbs p then Inr (Clean p)
      else case wd of Inl e \<Rightarrow> Inl e | Inr d \<Rightarrow> Inr (Join [d, p]))"

section \<open>Components of cleaned paths\<close>

definition proper :: "string \<Rightarrow> bool" where
  "proper c \<longleftrightarrow> c \<noteq> [] \<and> c \<noteq> ''.'' \<and> c \<noteq> ''..'' \<and> sep \<notin> set c"

definition proper_all :: "string list \<Rightarrow> bool" where
  "proper_all cs \<longleftrightarrow> (\<forall>c \<in> set cs. proper c)"

lemma proper_all_simps [simp]:
  "proper_all []"
  "proper_all (c # cs) \<longleftrightarrow> proper c \<and> proper_all cs"
  "proper_all (cs @ ds) \<longleftrightarrow> proper_all cs \<and> proper_all ds"
  "proper_all (rev cs) \<longleftrightarrow> proper_all cs"
  by (auto simp: proper_all_def)

lemma IsAbs_simps [simp]: "IsAbs (c # p) \<longleftrightarrow> c = sep" "\<not> IsAbs []"
  by (auto simp: IsAbs_def HasPrefix_def)

lemma IsAbs_abs_path [simp]: "IsAbs (abs_path cs)"
  by (simp add: abs_path_def)

lemma abs_path_not_Nil [simp]: "abs_path cs \<noteq> []"
  by (simp add: abs_path_def)

lemma foldl_clean_proper:
  "proper_all cs \<Longrightarrow> foldl (clean_step r) st cs = rev cs @ st"
  by (induction cs arbitrary: st) (auto simp: proper_def)

lemma clean_comps_proper [simp]: "proper_all cs \<Longrightarrow> clean_comps r cs = cs"
  by (simp add: clean_comps_def foldl_clean_proper)

lemma clean_step_rooted_proper:
  "proper_all st \<Longrightarrow> sep \<notin> set c \<Longrightarrow> proper_all (clean_step True st c)"
  by (auto simp: proper_def split: list.splits)

lemma foldl_clean_rooted_proper:
  "proper_all st \<Longrightarrow> \<forall>c \<in> set cs. sep \<notin> set c \<Longrightarrow> proper_all (foldl (clean_step True) st cs)"
proof (induction cs arbitrary: st)
  case (Cons c cs)
  have "proper_all (clean_step True st c)"
    using Cons.prems by (intro clean_step_rooted_proper) auto
  with Cons show ?case by (simp del: clean_step.simps)
qed simp

lemma clean_comps_rooted_proper:
  "\<forall>c \<in> set cs. sep \<notin> set c \<Longrightarrow> proper_all (clean_comps True cs)"
  by (simp add: clean_comps_def foldl_clean_rooted_proper)

lemma clean_comps_append_proper:
  "proper_all (clean_comps True cs) \<Longrightarrow> proper_all ds \<Longrightarrow>
     clean_comps True (cs @ ds) = clean_comps True cs @ ds"
  by (simp add: clean_comps_def foldl_clean_proper)

lemma clean_comps_Nil_Cons [simp]: "clean_comps r ([] # cs) = clean_comps r cs"
  by (simp add: clean_comps_def)

lemma clean_comps_Nil [simp]: "clean_comps r [] = []"
  by (simp add: clean_comps_def)

lemma split_abs_path: "proper_all cs \<Longrightarrow> cs \<noteq> [] \<Longrightarrow> split_on sep (abs_path cs) = [] # cs"
  by (simp add: abs_path_def split_join proper_all_def proper_def)

lemma split_abs_path_Nil: "split_on sep (abs_path []) = [[], []]"
  by (simp add: abs_path_def)

lemma clean_split_abs_path [simp]:
  "proper_all cs \<Longrightarrow> clean_comps True (split_on sep (abs_path cs)) = cs"
  by (cases "cs = []") (simp_all add: split_abs_path split_abs_path_Nil)

lemma abs_path_inject:
  assumes "proper_all cs" "proper_all ds"
  shows "abs_path cs = abs_path ds \<longleftrightarrow> cs = ds"
  by (metis assms clean_split_abs_path)

text \<open>The components a path names below the root.\<close>

definition comps :: "string \<Rightarrow> string list" where
  "comps p = clean_comps True (split_on sep p)"

lemma comps_proper [simp]: "proper_all (comps p)"
  unfolding comps_def
  by (rule clean_comps_rooted_proper) (auto dest: split_on_no_sep_elems)

lemma comps_abs_path [simp]: "proper_all cs \<Longrightarrow> comps (abs_path cs) = cs"
  by (simp add: comps_def)

lemma Clean_abs [path_norm]: "IsAbs p \<Longrightarrow> Clean p = abs_path (comps p)"
  by (cases p) (auto simp: Clean_def comps_def)

lemma Clean_abs_path [simp]: "proper_all cs \<Longrightarrow> Clean (abs_path cs) = abs_path cs"
  by (simp add: Clean_abs)

text \<open>The paths the webhook accepts: absolute and equal to their \<open>Clean\<close>.\<close>

definition clean_abs :: "string \<Rightarrow> bool" where
  "clean_abs p \<longleftrightarrow> IsAbs p \<and> Clean p = p"

lemma clean_abs_iff: "clean_abs p \<longleftrightarrow> (\<exists>cs. proper_all cs \<and> p = abs_path cs)"
proof
  assume "clean_abs p"
  then have "p = abs_path (comps p)" by (metis clean_abs_def Clean_abs)
  then show "\<exists>cs. proper_all cs \<and> p = abs_path cs" using comps_proper by blast
qed (auto simp: clean_abs_def)

lemma clean_absE:
  assumes "clean_abs p"
  obtains cs where "proper_all cs" "p = abs_path cs" "comps p = cs"
  using assms by (auto simp: clean_abs_iff)

lemma clean_abs_abs_path [simp]: "proper_all cs \<Longrightarrow> clean_abs (abs_path cs)"
  by (auto simp: clean_abs_iff)

lemma clean_abs_comps_inject: "clean_abs p \<Longrightarrow> clean_abs q \<Longrightarrow> comps p = comps q \<Longrightarrow> p = q"
  by (metis clean_absE)

text \<open>No traversal: no component of a cleaned absolute path is empty, \<open>.\<close> or \<open>..\<close>.\<close>

lemma clean_abs_no_dots: "clean_abs p \<Longrightarrow> c \<in> set (split_on sep p) \<Longrightarrow> c \<noteq> ''..'' \<and> c \<noteq> ''.''"
proof (erule clean_absE)
  fix cs assume c: "c \<in> set (split_on sep p)" and cs: "proper_all cs" "p = abs_path cs"
  show "c \<noteq> ''..'' \<and> c \<noteq> ''.''"
  proof (cases "cs = []")
    case True
    with c cs show ?thesis by (auto simp: split_abs_path_Nil)
  next
    case False
    with c cs show ?thesis by (auto simp: split_abs_path proper_all_def proper_def)
  qed
qed

section \<open>Join\<close>

text \<open>\<open>push st e\<close>: the components of one more element of a rooted \<open>Join\<close>.\<close>

definition push :: "string list \<Rightarrow> string \<Rightarrow> string list" where
  "push st e = foldl (clean_step True) st (split_on sep e)"

lemma foldl_push: "foldl push st es = foldl (clean_step True) st (concat (map (split_on sep) es))"
  by (induction es arbitrary: st) (simp_all add: push_def)

lemma Join_abs [path_norm]:
  assumes "IsAbs e"
  shows "Join (e # es) = abs_path (rev (foldl push [] (e # es)))"
proof -
  from assms have "e \<noteq> []" by auto
  then have "Join (e # es) = Clean (join_with [sep] (e # es))" by (simp add: Join_def)
  also have "IsAbs (join_with [sep] (e # es))"
    using assms by (cases es; cases e) auto
  then have "Clean (join_with [sep] (e # es)) = abs_path (comps (join_with [sep] (e # es)))"
    by (rule Clean_abs)
  also have "comps (join_with [sep] (e # es)) = rev (foldl push [] (e # es))"
    by (simp add: comps_def split_on_join_all clean_comps_def foldl_push del: foldl.simps list.map)
  finally show ?thesis .
qed

lemma push_Nil [simp]: "push st [] = st"
  by (simp add: push_def)

lemma push_proper [simp]: "proper c \<Longrightarrow> push st c = c # st"
  by (simp add: push_def split_on_no_sep proper_def)

lemma push_abs_path [simp]: "proper_all cs \<Longrightarrow> push st (abs_path cs) = rev cs @ st"
  by (cases "cs = []") (simp_all add: push_def split_abs_path split_abs_path_Nil foldl_clean_proper)

lemma push_clean_abs: "clean_abs p \<Longrightarrow> push st p = rev (comps p) @ st"
  by (auto elim!: clean_absE)

lemma push_keeps_proper: "proper_all st \<Longrightarrow> proper_all (push st e)"
  unfolding push_def
  by (rule foldl_clean_rooted_proper) (auto dest: split_on_no_sep_elems)

lemma foldl_push_proper: "proper_all st \<Longrightarrow> proper_all (foldl push st es)"
  by (induction es arbitrary: st) (simp_all add: push_keeps_proper)

text \<open>Whatever its elements, a \<open>Join\<close> that starts at the root gives a clean absolute path.\<close>

lemma Join_clean_abs [simp]: "IsAbs e \<Longrightarrow> clean_abs (Join (e # es))"
  by (simp add: Join_abs foldl_push_proper push_keeps_proper)

lemma comps_Join: "IsAbs e \<Longrightarrow> comps (Join (e # es)) = rev (foldl push [] (e # es))"
  by (simp add: Join_abs foldl_push_proper push_keeps_proper)

lemma clean_abs_IsAbs [simp]: "clean_abs p \<Longrightarrow> IsAbs p"
  by (simp add: clean_abs_def)

lemma Join2_clean_abs: "clean_abs d \<Longrightarrow> clean_abs b \<Longrightarrow> Join [d, b] = abs_path (comps d @ comps b)"
  by (simp add: Join_abs push_clean_abs)

section \<open>The contract of Join\<close>

text \<open>
  What the callers rely on: on acceptable paths, joining appends the components of the second
  path to those of the first, and the components determine the path. Everything they need about
  containment and collisions follows.
\<close>

locale path_join =
  fixes join :: "string list \<Rightarrow> string"
    and acceptable :: "string \<Rightarrow> bool"
    and parts :: "string \<Rightarrow> string list"
  assumes join_acceptable: "acceptable d \<Longrightarrow> acceptable b \<Longrightarrow> acceptable (join [d, b])"
    and join_parts: "acceptable d \<Longrightarrow> acceptable b \<Longrightarrow> parts (join [d, b]) = parts d @ parts b"
    and parts_inject: "acceptable p \<Longrightarrow> acceptable q \<Longrightarrow> parts p = parts q \<Longrightarrow> p = q"
begin

lemma join_inject:
  assumes "acceptable d" "acceptable b" "acceptable b'" "join [d, b] = join [d, b']"
  shows "b = b'"
proof -
  from assms have "parts d @ parts b = parts d @ parts b'" by (metis join_parts)
  with assms show ?thesis by (simp add: parts_inject)
qed

lemma join_under: "acceptable d \<Longrightarrow> acceptable b \<Longrightarrow> prefix (parts d) (parts (join [d, b]))"
  by (simp add: join_parts)

lemma join_separated:
  assumes "acceptable d" "acceptable d'" "acceptable b" "acceptable b'"
    and "\<not> prefix (parts d) (parts d')" "\<not> prefix (parts d') (parts d)"
  shows "join [d, b] \<noteq> join [d', b']"
proof
  assume "join [d, b] = join [d', b']"
  then have "parts d @ parts b = parts d' @ parts b'" by (metis assms(1-4) join_parts)
  then show False using assms(5,6) by (metis prefixI prefix_same_cases)
qed

lemma join_nested_iff:
  assumes "acceptable d" "acceptable b" "acceptable b'"
  shows "prefix (parts (join [d, b])) (parts (join [d, b'])) \<longleftrightarrow> prefix (parts b) (parts b')"
  using assms by (simp add: join_parts)

end

interpretation pj: path_join Join clean_abs comps
proof unfold_locales
  fix d b assume db: "clean_abs d" "clean_abs b"
  show "clean_abs (Join [d, b])" using db by simp
  show "comps (Join [d, b]) = comps d @ comps b" using db by (simp add: Join2_clean_abs)
next
  fix p q assume "clean_abs p" "clean_abs q" "comps p = comps q"
  then show "p = q" by (rule clean_abs_comps_inject)
qed

section \<open>Base names\<close>

lemma strip_seps_abs_path:
  "proper_all cs \<Longrightarrow> cs \<noteq> [] \<Longrightarrow> strip_seps (abs_path cs) = abs_path cs"
proof -
  assume cs: "proper_all cs" "cs \<noteq> []"
  have "last (abs_path cs) \<noteq> sep"
    using cs
  proof (induction cs)
    case (Cons c cs)
    then show ?case
      by (cases cs) (auto simp: abs_path_def proper_def dest: last_in_set)
  qed simp
  then show ?thesis
    by (cases "rev (abs_path cs)") (auto simp: strip_seps_def hd_rev [symmetric])
qed

lemma Base_abs_path: "proper_all cs \<Longrightarrow> cs \<noteq> [] \<Longrightarrow> Base (abs_path cs) = last cs"
proof -
  assume cs: "proper_all cs" "cs \<noteq> []"
  then have "last cs \<noteq> []" by (metis last_in_set proper_all_def proper_def)
  with cs show ?thesis
    by (simp add: Base_def strip_seps_abs_path split_abs_path Let_def)
qed

lemma Base_clean_abs: "clean_abs p \<Longrightarrow> comps p \<noteq> [] \<Longrightarrow> Base p = last (comps p)"
  by (auto elim!: clean_absE simp: Base_abs_path)

lemma Dir_abs_path: "proper_all cs \<Longrightarrow> Dir (abs_path cs) = abs_path (butlast cs)"
proof (cases "cs = []")
  case True
  then show ?thesis by (simp add: Dir_def abs_path_def Clean_def clean_comps_def)
next
  case False
  assume cs: "proper_all cs"
  define b where "b = last cs"
  define ds where "ds = butlast cs"
  have split: "cs = ds @ [b]" using False by (simp add: ds_def b_def)
  have b: "sep \<notin> set b" and ds: "proper_all ds" using cs split by (auto simp: proper_def)
  have last: "abs_path cs = (if ds = [] then [sep] else abs_path ds @ [sep]) @ b"
    by (auto simp: split abs_path_def join_with_append)
  have "rev (dropWhile (\<lambda>c. c \<noteq> sep) (rev (abs_path cs))) = (if ds = [] then [sep] else abs_path ds @ [sep])"
    using b by (auto simp: last dropWhile_append)
  moreover have "Clean (if ds = [] then [sep] else abs_path ds @ [sep]) = abs_path ds"
  proof (cases "ds = []")
    case True
    then show ?thesis by (simp add: Clean_def abs_path_def clean_comps_def)
  next
    case False
    have "split_on sep (abs_path ds @ [sep]) = [] # ds @ [[]]"
      using ds False split_on_sep_append [of sep "abs_path ds" "[]"] by (simp add: split_abs_path)
    then show ?thesis
      using False ds by (simp add: Clean_abs comps_def clean_comps_def foldl_clean_proper abs_path_def)
  qed
  ultimately show ?thesis by (simp add: Dir_def ds_def)
qed

end
