(* ===== verification/Go_Os.thy ===== *)
theory Go_Os
  imports Go_Filepath
begin

unbundle bit_operations_syntax

text \<open>
  The calls of package \<open>os\<close> (and \<open>io.Copy\<close>, \<open>File.Write\<close>) the code makes, on a host whose file
  tree maps the components of a path to a directory or a file with its permission bits and bytes.
  \<open>fault\<close> lets the environment make any call fail on any path with an error of its choice, so that
  every error branch of the code can be taken. A transfer that fails on the way has moved the first
  \<open>progress\<close> bytes, a removal that fails has removed what lies at or below entries that are \<open>gone\<close>; any
  other call that fails changes nothing but the directories \<open>MkdirAll\<close> has made. Symbolic links are not modelled, so a path is resolved by its
  components.

  The locale \<open>file_store\<close> is the contract of the calls that prepare a file: what is stored is
  read back, nothing else changes; \<open>failing_store\<close> adds that a failing call changes no content.
\<close>

type_synonym fpath = "string list"

datatype node = DirNode int | FileNode int string

datatype syscall =
  Sys_stat | Sys_mkdir | Sys_open | Sys_read | Sys_write | Sys_close | Sys_remove | Sys_getwd

record host =
  tree :: "fpath \<Rightarrow> node option"
  wd :: string
  umask :: int
  fault :: "syscall \<Rightarrow> fpath \<Rightarrow> errno option"
  progress :: "fpath \<Rightarrow> nat"
  gone :: "fpath \<Rightarrow> bool"

definition created_mode :: "host \<Rightarrow> int \<Rightarrow> int" where
  "created_mode h perm = perm AND NOT (umask h)"

lemma created_mode_tree [simp]: "created_mode (h\<lparr>tree := t\<rparr>) perm = created_mode h perm"
  by (simp add: created_mode_def)

definition at :: "host \<Rightarrow> string \<Rightarrow> fpath" where
  "at h p = comps (if IsAbs p then p else wd h @ [sep] @ p)"

lemma at_abs [simp]: "IsAbs p \<Longrightarrow> at h p = comps p"
  by (simp add: at_def)

text \<open>Resolving a path: every component but the last has to be a directory.\<close>

fun walk :: "(fpath \<Rightarrow> node option) \<Rightarrow> fpath \<Rightarrow> string list \<Rightarrow> errno + node" where
  "walk t pre [] = (case t pre of None \<Rightarrow> Inl ENOENT | Some n \<Rightarrow> Inr n)"
| "walk t pre (c # cs) =
     (case t pre of
        None \<Rightarrow> Inl ENOENT
      | Some (FileNode m b) \<Rightarrow> Inl ENOTDIR
      | Some (DirNode m) \<Rightarrow> walk t (pre @ [c]) cs)"

section \<open>Calls on resolved paths\<close>

definition fs_stat :: "fpath \<Rightarrow> host \<Rightarrow> node result" where
  "fs_stat p h =
     (case fault h Sys_stat p of
        Some e \<Rightarrow> Inl (Errno e)
      | None \<Rightarrow> (case walk (tree h) [] p of Inl e \<Rightarrow> Inl (Errno e) | Inr n \<Rightarrow> Inr n))"

text \<open>\<open>os.MkdirAll\<close>: from the root down; directories made before a failure stay.\<close>

fun fs_mkdirs :: "int \<Rightarrow> fpath \<Rightarrow> string list \<Rightarrow> (unit, host) effect" where
  "fs_mkdirs perm pre [] h = (Inr (), h)"
| "fs_mkdirs perm pre (c # cs) h =
     (let p = pre @ [c] in
      case tree h p of
        Some (DirNode m) \<Rightarrow> fs_mkdirs perm p cs h
      | Some (FileNode m b) \<Rightarrow> (Inl (Errno ENOTDIR), h)
      | None \<Rightarrow>
          (case fault h Sys_mkdir p of
             Some e \<Rightarrow> (Inl (Errno e), h)
           | None \<Rightarrow> fs_mkdirs perm p cs (h\<lparr>tree := (tree h)(p \<mapsto> DirNode (created_mode h perm))\<rparr>)))"

text \<open>\<open>os.OpenFile\<close> with \<open>O_CREATE\<close>; \<open>trunc\<close> for \<open>O_WRONLY|O_TRUNC\<close>. The value is the open file.\<close>

definition fs_create :: "bool \<Rightarrow> int \<Rightarrow> fpath \<Rightarrow> (fpath, host) effect" where
  "fs_create trunc perm p h =
     (case fault h Sys_open p of
        Some e \<Rightarrow> (Inl (Errno e), h)
      | None \<Rightarrow>
          (case walk (tree h) [] p of
             Inr (DirNode m) \<Rightarrow> (Inl (Errno EISDIR), h)
           | Inr (FileNode m b) \<Rightarrow>
               (Inr p, if trunc then h\<lparr>tree := (tree h)(p \<mapsto> FileNode m [])\<rparr> else h)
           | Inl e \<Rightarrow>
               (case walk (tree h) [] (butlast p) of
                  Inr (DirNode m) \<Rightarrow>
                    if e = ENOENT
                    then (Inr p, h\<lparr>tree := (tree h)(p \<mapsto> FileNode (created_mode h perm) [])\<rparr>)
                    else (Inl (Errno e), h)
                | _ \<Rightarrow> (Inl (Errno e), h))))"

text \<open>\<open>os.Open\<close> and reading to the end (\<open>io.Copy\<close> from the file, \<open>json.Decoder\<close>).\<close>

definition fs_open :: "fpath \<Rightarrow> host \<Rightarrow> fpath result" where
  "fs_open p h =
     (case fault h Sys_open p of
        Some e \<Rightarrow> Inl (Errno e)
      | None \<Rightarrow> (case walk (tree h) [] p of Inl e \<Rightarrow> Inl (Errno e) | Inr n \<Rightarrow> Inr p))"

definition fs_read :: "fpath \<Rightarrow> host \<Rightarrow> string result" where
  "fs_read p h =
     (case fault h Sys_read p of
        Some e \<Rightarrow> Inl (Errno e)
      | None \<Rightarrow>
          (case tree h p of
             Some (FileNode m b) \<Rightarrow> Inr b
           | Some (DirNode m) \<Rightarrow> Inl (Errno EISDIR)
           | None \<Rightarrow> Inl (Errno ENOENT)))"

definition fs_append :: "fpath \<Rightarrow> string \<Rightarrow> (unit, host) effect" where
  "fs_append p s h =
     (case tree h p of
        Some (FileNode m b) \<Rightarrow> (Inr (), h\<lparr>tree := (tree h)(p \<mapsto> FileNode m (b @ s))\<rparr>)
      | _ \<Rightarrow> (Inl (Errno EINVAL), h))"

definition fs_write :: "fpath \<Rightarrow> string \<Rightarrow> (unit, host) effect" where
  "fs_write p s h =
     (case fault h Sys_write p of
        Some e \<Rightarrow> (Inl (Errno e), snd (fs_append p (take (progress h p) s) h))
      | None \<Rightarrow> fs_append p s h)"

definition fs_close :: "fpath \<Rightarrow> (unit, host) effect" where
  "fs_close p h = (case fault h Sys_close p of Some e \<Rightarrow> (Inl (Errno e), h) | None \<Rightarrow> (Inr (), h))"

text \<open>
  \<open>io.Copy\<close> between two open files: what is read is written, also when reading then fails.
  \<open>os.RemoveAll\<close>: the path and all below it, no error when there is nothing; the root itself cannot be
  removed.
\<close>

definition io_Copy :: "fpath \<Rightarrow> fpath \<Rightarrow> (unit, host) effect" where
  "io_Copy dst src h =
     (case fs_read src h of
        Inr b \<Rightarrow> fs_write dst b h
      | Inl e \<Rightarrow>
          (case tree h src of
             Some (FileNode m b) \<Rightarrow> (Inl e, snd (fs_write dst (take (progress h src) b) h))
           | _ \<Rightarrow> (Inl e, h)))"

definition lost :: "host \<Rightarrow> fpath \<Rightarrow> fpath \<Rightarrow> bool" where
  "lost h p q \<longleftrightarrow> list_ex (\<lambda>r. strict_prefix p r \<and> gone h r) (prefixes q)"

definition fs_remove_all :: "fpath \<Rightarrow> (unit, host) effect" where
  "fs_remove_all p h =
     (case fault h Sys_remove p of
        Some e \<Rightarrow> (Inl (Errno e), h\<lparr>tree := (\<lambda>q. if lost h p q then None else tree h q)\<rparr>)
      | None \<Rightarrow>
          if walk (tree h) [] p = Inl ENOTDIR then (Inl (Errno ENOTDIR), h)
          else (if p = [] then Inl (Errno EBUSY) else Inr (),
                h\<lparr>tree := (\<lambda>q. if prefix p q \<and> q \<noteq> [] then None else tree h q)\<rparr>))"

section \<open>Calls on strings\<close>

text \<open>The empty path names nothing (\<open>ENOENT\<close>).\<close>

definition os_Stat :: "string \<Rightarrow> host \<Rightarrow> node result" where
  "os_Stat p h = (if p = [] then Inl (Errno ENOENT) else fs_stat (at h p) h)"

definition os_MkdirAll :: "string \<Rightarrow> int \<Rightarrow> (unit, host) effect" where
  "os_MkdirAll p perm h =
     (if p = [] then (Inl (Errno ENOENT), h) else fs_mkdirs perm [] (at h p) h)"

definition os_Create :: "bool \<Rightarrow> string \<Rightarrow> int \<Rightarrow> (fpath, host) effect" where
  "os_Create trunc p perm h =
     (if p = [] then (Inl (Errno ENOENT), h) else fs_create trunc perm (at h p) h)"

definition os_Open :: "string \<Rightarrow> host \<Rightarrow> fpath result" where
  "os_Open p h = (if p = [] then Inl (Errno ENOENT) else fs_open (at h p) h)"

text \<open>The working directory cannot always be told, for instance when it has been removed.\<close>

definition os_Getwd :: "host \<Rightarrow> string result" where
  "os_Getwd h = (case fault h Sys_getwd [] of Some e \<Rightarrow> Inl (Errno e) | None \<Rightarrow> Inr (wd h))"

definition os_RemoveAll :: "string \<Rightarrow> (unit, host) effect" where
  "os_RemoveAll p h = (if p = [] then (Inr (), h) else fs_remove_all (at h p) h)"

section \<open>What the calls leave unchanged\<close>

text \<open>The bytes of the file at a path.\<close>

definition file_at :: "host \<Rightarrow> fpath \<Rightarrow> string option" where
  "file_at h p = (case tree h p of Some (FileNode m b) \<Rightarrow> Some b | _ \<Rightarrow> None)"

definition same_env :: "host \<Rightarrow> host \<Rightarrow> bool" where
  "same_env h h' \<longleftrightarrow> wd h' = wd h \<and> umask h' = umask h \<and> fault h' = fault h \<and>
     progress h' = progress h \<and> gone h' = gone h"

lemma same_env_refl [simp]: "same_env h h"
  by (simp add: same_env_def)

lemma same_env_trans: "same_env h h1 \<Longrightarrow> same_env h1 h2 \<Longrightarrow> same_env h h2"
  by (simp add: same_env_def)

lemma same_env_tree [simp]: "same_env h (h\<lparr>tree := t\<rparr>)"
  by (simp add: same_env_def)

lemma walk_Inr: "walk t pre cs = Inr n \<Longrightarrow> t (pre @ cs) = Some n"
proof (induction cs arbitrary: pre)
  case (Cons c cs)
  then show ?case using Cons.IH [of "pre @ [c]"] by (auto split: option.splits node.splits)
qed (auto split: option.splits)

lemma walk_dirs:
  "(\<And>ds. strict_prefix ds cs \<Longrightarrow> \<exists>m. t (pre @ ds) = Some (DirNode m)) \<Longrightarrow>
     walk t pre cs = (case t (pre @ cs) of None \<Rightarrow> Inl ENOENT | Some n \<Rightarrow> Inr n)"
proof (induction cs arbitrary: pre)
  case (Cons c cs)
  have "\<exists>m. t (pre @ []) = Some (DirNode m)" by (rule Cons.prems) simp
  moreover have "walk t (pre @ [c]) cs =
      (case t ((pre @ [c]) @ cs) of None \<Rightarrow> Inl ENOENT | Some n \<Rightarrow> Inr n)"
  proof (rule Cons.IH)
    fix ds assume "strict_prefix ds cs"
    then show "\<exists>m. t ((pre @ [c]) @ ds) = Some (DirNode m)" using Cons.prems [of "c # ds"] by simp
  qed
  ultimately show ?case by auto
qed simp

lemma walk_snoc_ENOENT:
  "walk t pre cs = Inr (DirNode m) \<Longrightarrow>
     walk t pre (cs @ [c]) = (case t (pre @ cs @ [c]) of None \<Rightarrow> Inl ENOENT | Some n \<Rightarrow> Inr n)"
proof (induction cs arbitrary: pre)
  case (Cons d cs)
  then show ?case using Cons.IH [of "pre @ [d]"] by (auto split: option.splits node.splits)
qed (auto split: option.splits)

lemma fs_mkdirs_frame:
  assumes "fs_mkdirs perm pre cs h = (r, h')"
  shows "same_env h h'" and "tree h \<subseteq>\<^sub>m tree h'"
    and "tree h q = None \<Longrightarrow> tree h' q \<noteq> None \<Longrightarrow>
      tree h' q = Some (DirNode (created_mode h perm)) \<and>
      (\<exists>ds. ds \<noteq> [] \<and> q = pre @ ds \<and> prefix ds cs)"
proof -
  have "same_env h h' \<and> tree h \<subseteq>\<^sub>m tree h' \<and>
      (tree h q = None \<longrightarrow> tree h' q \<noteq> None \<longrightarrow>
         tree h' q = Some (DirNode (created_mode h perm)) \<and>
         (\<exists>ds. ds \<noteq> [] \<and> q = pre @ ds \<and> prefix ds cs))" for q
    using assms
  proof (induction perm pre cs h rule: fs_mkdirs.induct)
    case (2 perm pre c cs h)
    have ext: "\<exists>ds. ds \<noteq> [] \<and> q = pre @ ds \<and> prefix ds (c # cs)"
      if "\<exists>ds. ds \<noteq> [] \<and> q = (pre @ [c]) @ ds \<and> prefix ds cs"
    proof -
      from that obtain ds where "q = pre @ (c # ds)" "prefix ds cs" by auto
      then show ?thesis by (intro exI [of _ "c # ds"]) simp
    qed
    show ?case
    proof (cases "tree h (pre @ [c])")
      case None
      show ?thesis
      proof (cases "fault h Sys_mkdir (pre @ [c])")
        case ok: None
        let ?h = "h\<lparr>tree := (tree h)(pre @ [c] \<mapsto> DirNode (created_mode h perm))\<rparr>"
        have step: "fs_mkdirs perm (pre @ [c]) cs ?h = (r, h')"
          using "2.prems" None ok by (simp add: Let_def)
        have IH: "same_env ?h h'" "tree ?h \<subseteq>\<^sub>m tree h'"
          "tree ?h q = None \<longrightarrow> tree h' q \<noteq> None \<longrightarrow>
             tree h' q = Some (DirNode (created_mode h perm)) \<and>
             (\<exists>ds. ds \<noteq> [] \<and> q = (pre @ [c]) @ ds \<and> prefix ds cs)"
          using "2.IH"(1) [OF refl None ok step, unfolded created_mode_tree] by blast+
        have le: "tree h \<subseteq>\<^sub>m tree ?h" using None by (auto simp: map_le_def)
        have new: "tree h' (pre @ [c]) = Some (DirNode (created_mode h perm))"
          using IH(2) by (auto simp: map_le_def dom_def)
        have "same_env h h'" using IH(1) by (simp add: same_env_def)
        moreover have "tree h \<subseteq>\<^sub>m tree h'" using le IH(2) by (rule map_le_trans)
        moreover have "tree h' q = Some (DirNode (created_mode h perm)) \<and>
            (\<exists>ds. ds \<noteq> [] \<and> q = pre @ ds \<and> prefix ds (c # cs))"
          if "tree h q = None" "tree h' q \<noteq> None"
        proof (cases "q = pre @ [c]")
          case True
          then show ?thesis using new by (auto intro!: exI [of _ "[c]"])
        next
          case False
          then show ?thesis using that IH(3) ext by auto
        qed
        ultimately show ?thesis by blast
      qed (use "2.prems" None in auto)
    next
      case (Some n)
      then show ?thesis
        using "2.prems" "2.IH"(2) [OF refl Some] ext by (cases n) auto
    qed
  qed auto
  then show "same_env h h'" "tree h \<subseteq>\<^sub>m tree h'"
    "tree h q = None \<Longrightarrow> tree h' q \<noteq> None \<Longrightarrow>
      tree h' q = Some (DirNode (created_mode h perm)) \<and>
      (\<exists>ds. ds \<noteq> [] \<and> q = pre @ ds \<and> prefix ds cs)" by blast+
qed

lemma fs_mkdirs_dirs:
  assumes "fs_mkdirs perm pre cs h = (Inr (), h')" "prefix ds cs" "ds \<noteq> []"
  shows "\<exists>m. tree h' (pre @ ds) = Some (DirNode m)"
  using assms
proof (induction perm pre cs h arbitrary: ds rule: fs_mkdirs.induct)
  case (2 perm pre c cs h)
  from "2.prems"(2,3) obtain es where ds: "ds = c # es" "prefix es cs" by (cases ds) auto
  have first: "\<exists>m. tree h' (pre @ [c]) = Some (DirNode m)"
  proof (cases "tree h (pre @ [c])")
    case None
    then have "fs_mkdirs perm (pre @ [c]) cs
        (h\<lparr>tree := (tree h)(pre @ [c] \<mapsto> DirNode (created_mode h perm))\<rparr>) = (Inr (), h')"
      using "2.prems"(1) by (auto simp: Let_def split: option.splits)
    from fs_mkdirs_frame(2) [OF this] show ?thesis by (auto simp: map_le_def dom_def)
  next
    case (Some n)
    then obtain m where n: "tree h (pre @ [c]) = Some (DirNode m)"
      using "2.prems"(1) by (cases n) auto
    then show ?thesis using fs_mkdirs_frame(2) [OF "2.prems"(1)] by (auto simp: map_le_def dom_def)
  qed
  show ?case
  proof (cases "es = []")
    case True
    with first ds show ?thesis by simp
  next
    case False
    show ?thesis
    proof (cases "tree h (pre @ [c])")
      case None
      then show ?thesis
        using "2.prems"(1) "2.IH"(1) [OF refl None _ _ ds(2) False] ds
        by (auto simp: Let_def split: option.splits)
    next
      case (Some n)
      then show ?thesis
        using "2.prems"(1) "2.IH"(2) [OF refl Some _ _ ds(2) False] ds by (cases n) auto
    qed
  qed
qed simp

text \<open>It succeeds when nothing fails and no file is in the way.\<close>

lemma fs_mkdirs_ok:
  assumes "\<And>ds. ds \<noteq> [] \<Longrightarrow> prefix ds cs \<Longrightarrow> \<forall>m b. tree h (pre @ ds) \<noteq> Some (FileNode m b)"
    and "\<And>p. fault h Sys_mkdir p = None"
  shows "\<exists>h'. fs_mkdirs perm pre cs h = (Inr (), h')"
  using assms
proof (induction perm pre cs h rule: fs_mkdirs.induct)
  case (2 perm pre c cs h)
  have nofile: "\<forall>m b. tree h ((pre @ [c]) @ ds) \<noteq> Some (FileNode m b)" if "prefix ds cs" for ds
    using "2.prems"(1) [of "c # ds"] that by simp
  show ?case
  proof (cases "tree h (pre @ [c])")
    case None
    let ?h = "h\<lparr>tree := (tree h)(pre @ [c] \<mapsto> DirNode (created_mode h perm))\<rparr>"
    have "\<exists>h'. fs_mkdirs perm (pre @ [c]) cs ?h = (Inr (), h')"
      by (rule "2.IH"(1) [OF refl None "2.prems"(2)]) (use nofile "2.prems"(2) in auto)
    then show ?thesis using None "2.prems"(2) by (simp add: Let_def)
  next
    case (Some n)
    then obtain m where n: "n = DirNode m" using nofile [of "[]"] by (cases n) auto
    have "\<exists>h'. fs_mkdirs perm (pre @ [c]) cs h = (Inr (), h')"
      by (rule "2.IH"(2) [OF refl Some n]) (use nofile "2.prems"(2) in auto)
    then show ?thesis using Some n by simp
  qed
qed simp

lemma fs_create_frame:
  assumes "fs_create trunc perm p h = (r, h')"
  shows "same_env h h'" and "q \<noteq> p \<Longrightarrow> tree h' q = tree h q"
  using assms
  by (auto simp: fs_create_def split: option.splits sum.splits node.splits if_splits)

lemma fs_append_frame:
  "same_env h (snd (fs_append p s h))" "q \<noteq> p \<Longrightarrow> tree (snd (fs_append p s h)) q = tree h q"
  by (auto simp: fs_append_def split: option.splits node.splits)

lemma fs_write_append:
  assumes "fs_write p s h = (r, h')"
  obtains t where "h' = snd (fs_append p t h)" "prefix t s" "r = Inr () \<Longrightarrow> t = s"
proof (cases "fault h Sys_write p")
  case None
  then show thesis using assms that [of s] by (simp add: fs_write_def)
next
  case (Some e)
  then show thesis using assms that [of "take (progress h p) s"] by (auto simp: fs_write_def take_is_prefix)
qed

lemma fs_write_frame:
  assumes "fs_write p s h = (r, h')"
  shows "same_env h h'" and "q \<noteq> p \<Longrightarrow> tree h' q = tree h q"
  using assms by (auto elim!: fs_write_append simp: fs_append_frame)

lemma fs_close_frame [simp]: "fs_close p h = (r, h') \<Longrightarrow> h' = h"
  by (auto simp: fs_close_def split: option.splits)

lemma map_le_new: "m \<subseteq>\<^sub>m m' \<Longrightarrow> m q = Some v \<Longrightarrow> m' q = Some v"
  by (metis domI map_le_def)

section \<open>The file tree stays a tree\<close>

text \<open>The root is a directory, and so is the parent of everything there is.\<close>

definition tree_wf :: "(fpath \<Rightarrow> node option) \<Rightarrow> bool" where
  "tree_wf t \<longleftrightarrow> (\<exists>m. t [] = Some (DirNode m)) \<and>
     (\<forall>p c. t (p @ [c]) \<noteq> None \<longrightarrow> (\<exists>m. t p = Some (DirNode m)))"

lemma tree_wfI:
  "(\<exists>m. t [] = Some (DirNode m)) \<Longrightarrow>
     (\<And>p c n. t (p @ [c]) = Some n \<Longrightarrow> \<exists>m. t p = Some (DirNode m)) \<Longrightarrow> tree_wf t"
  by (auto simp: tree_wf_def)

lemma tree_wf_root: "tree_wf t \<Longrightarrow> \<exists>m. t [] = Some (DirNode m)"
  by (simp add: tree_wf_def)

lemma tree_wf_parent: "tree_wf t \<Longrightarrow> t (p @ [c]) = Some n \<Longrightarrow> \<exists>m. t p = Some (DirNode m)"
  by (auto simp: tree_wf_def)

lemma tree_wf_ancestor:
  assumes "tree_wf t"
  shows "t p = Some n \<Longrightarrow> strict_prefix ds p \<Longrightarrow> \<exists>m. t ds = Some (DirNode m)"
proof (induction p arbitrary: n rule: rev_induct)
  case (snoc c p)
  from tree_wf_parent [OF assms snoc.prems(1)] obtain m where "t p = Some (DirNode m)" ..
  with snoc show ?case by (auto simp: strict_prefix_def)
qed simp

lemma walk_found: "tree_wf t \<Longrightarrow> t p = Some n \<Longrightarrow> walk t [] p = Inr n"
  using walk_dirs [of p t "[]"] tree_wf_ancestor by auto

lemma tree_wf_new:
  assumes wf: "tree_wf t" and parent: "t p = Some (DirNode m)"
    and n: "(\<exists>k. n = DirNode k) \<or> (\<forall>k. t (p @ [c]) \<noteq> Some (DirNode k))"
  shows "tree_wf (t(p @ [c] \<mapsto> n))"
proof -
  have "\<exists>m. (t(p @ [c] \<mapsto> n)) q = Some (DirNode m)" if q: "(t(p @ [c] \<mapsto> n)) (q @ [d]) = Some k" for q d k
  proof (cases "q @ [d] = p @ [c]")
    case True
    then show ?thesis using parent by auto
  next
    case False
    then have "t (q @ [d]) = Some k" using q by (auto split: if_splits)
    from tree_wf_parent [OF wf this] obtain m' where m': "t q = Some (DirNode m')" ..
    then show ?thesis using n by (cases "q = p @ [c]") auto
  qed
  then show ?thesis using tree_wf_root [OF wf] by (intro tree_wfI) (auto simp del: fun_upd_apply, simp)
qed

lemma tree_wf_file:
  assumes "tree_wf t" "t p = Some (FileNode m b)"
  shows "tree_wf (t(p \<mapsto> FileNode k a))"
proof (cases p rule: rev_cases)
  case Nil
  then show ?thesis using assms tree_wf_root [of t] by auto
next
  case (snoc d c)
  then show ?thesis using assms tree_wf_parent [of t d c] by (auto intro: tree_wf_new simp del: fun_upd_apply)
qed

lemma fs_mkdirs_wf:
  "fs_mkdirs perm pre cs h = (r, h') \<Longrightarrow> tree_wf (tree h) \<Longrightarrow>
     \<exists>m. tree h pre = Some (DirNode m) \<Longrightarrow> tree_wf (tree h')"
proof (induction perm pre cs h rule: fs_mkdirs.induct)
  case (2 perm pre c cs h)
  show ?case
  proof (cases "tree h (pre @ [c])")
    case None
    show ?thesis
    proof (cases "fault h Sys_mkdir (pre @ [c])")
      case ok: None
      show ?thesis
        by (rule "2.IH"(1) [OF refl None ok])
          (use "2.prems" None ok in \<open>auto simp: Let_def intro: tree_wf_new simp del: fun_upd_apply\<close>, simp)
    qed (use "2.prems" None in auto)
  next
    case (Some n)
    then show ?thesis using "2.prems" "2.IH"(2) [OF refl Some] by (cases n) auto
  qed
qed auto

lemma butlast_snoc_path: "p \<noteq> [] \<Longrightarrow> \<exists>d c. p = d @ [c] \<and> butlast p = d"
  by (metis append_butlast_last_id)

lemma fs_create_wf:
  assumes "fs_create trunc perm p h = (r, h')" "tree_wf (tree h)"
  shows "tree_wf (tree h')"
proof (cases "p = []")
  case True
  then show ?thesis
    using assms tree_wf_root [OF assms(2)] by (auto simp: fs_create_def split: option.splits if_splits)
next
  case False
  then obtain d c where p: "p = d @ [c]" by (metis butlast_snoc_path)
  show ?thesis
  proof (cases "\<exists>m. walk (tree h) [] d = Inr (DirNode m)")
    case True
    then obtain m where m: "walk (tree h) [] d = Inr (DirNode m)" ..
    then have "tree h d = Some (DirNode m)" by (auto dest: walk_Inr)
    with assms m walk_snoc_ENOENT [OF m, of c] show ?thesis
      by (auto simp: fs_create_def p split: option.splits sum.splits node.splits if_splits
          intro!: tree_wf_new simp del: fun_upd_apply)
  next
    case False
    with assms show ?thesis
      by (auto simp: fs_create_def p split: option.splits sum.splits node.splits if_splits
          intro: tree_wf_file dest!: walk_Inr)
  qed
qed

lemma fs_write_wf: "fs_write p s h = (r, h') \<Longrightarrow> tree_wf (tree h) \<Longrightarrow> tree_wf (tree h')"
  by (erule fs_write_append) (auto simp: fs_append_def split: option.splits node.splits intro: tree_wf_file)

lemma lost_below: "lost h p q \<Longrightarrow> strict_prefix p q"
  by (auto simp: lost_def list_ex_iff intro: prefix_order.less_le_trans)

lemma lost_snoc: "lost h p q \<Longrightarrow> lost h p (q @ [c])"
  by (auto simp: lost_def list_ex_iff)

lemma fs_remove_all_wf:
  assumes "fs_remove_all p h = (r, h')" "tree_wf (tree h)"
  shows "tree_wf (tree h')"
proof (cases "fault h Sys_remove p")
  case None
  then show ?thesis
    using assms tree_wf_root [of "tree h"]
    by (auto simp: fs_remove_all_def split: if_splits intro!: tree_wfI dest: tree_wf_parent)
next
  case (Some e)
  then have tree: "tree h' = (\<lambda>q. if lost h p q then None else tree h q)"
    using assms(1) by (auto simp: fs_remove_all_def)
  show ?thesis
    using tree_wf_root [OF assms(2)] lost_below [of h p "[]"] lost_snoc
    by (auto simp: tree split: if_splits intro!: tree_wfI dest: tree_wf_parent [OF assms(2)])
qed

section \<open>When the calls succeed\<close>

text \<open>
  \<open>ready h p\<close>: a file can be made at \<open>p\<close>, directories included, since no file stands where a
  directory is needed and no directory where the file goes.
\<close>

definition ready :: "(fpath \<Rightarrow> node option) \<Rightarrow> fpath \<Rightarrow> bool" where
  "ready t p \<longleftrightarrow> p \<noteq> [] \<and> (\<forall>m. t p \<noteq> Some (DirNode m)) \<and>
     (\<forall>ds. strict_prefix ds p \<longrightarrow> (\<forall>m b. t ds \<noteq> Some (FileNode m b)))"

text \<open>A walk fails for want of a node, or at a file that is no directory.\<close>

lemma walk_Inl:
  "walk t pre cs = Inl e \<Longrightarrow>
     e = ENOENT \<or> (\<exists>ds m b. strict_prefix ds cs \<and> t (pre @ ds) = Some (FileNode m b))"
proof (induction t pre cs rule: walk.induct)
  case (2 t pre c cs)
  then show ?case
  proof (cases "t pre")
    case (Some n)
    show ?thesis
    proof (cases n)
      case (DirNode m)
      then have "walk t (pre @ [c]) cs = Inl e" using 2(2) Some by simp
      from 2(1) [OF Some DirNode this] show ?thesis
      proof
        assume "\<exists>ds m b. strict_prefix ds cs \<and> t ((pre @ [c]) @ ds) = Some (FileNode m b)"
        then obtain ds m b where "strict_prefix ds cs" "t (pre @ c # ds) = Some (FileNode m b)" by auto
        then have "strict_prefix (c # ds) (c # cs)" by simp
        then show ?thesis using \<open>t (pre @ c # ds) = Some (FileNode m b)\<close> by blast
      qed simp
    next
      case (FileNode m b)
      then have "t (pre @ []) = Some (FileNode m b)" "strict_prefix [] (c # cs)" using Some by simp_all
      then show ?thesis by blast
    qed
  qed simp
qed (auto split: option.splits)

lemma ready_walk:
  assumes "ready t p"
  shows "(\<exists>m b. walk t [] p = Inr (FileNode m b)) \<or> walk t [] p = Inl ENOENT"
proof (cases "walk t [] p")
  case (Inl e)
  then show ?thesis using walk_Inl [of t "[]" p e] assms by (auto simp: ready_def)
next
  case (Inr n)
  then show ?thesis using walk_Inr [OF Inr] assms by (cases n) (auto simp: ready_def)
qed

lemma mkdirs_parent_ok:
  assumes "ready (tree h) p" "\<And>q. fault h Sys_mkdir q = None"
  shows "\<exists>h'. fs_mkdirs perm [] (butlast p) h = (Inr (), h')"
proof (rule fs_mkdirs_ok)
  fix ds assume ds: "ds \<noteq> []" "prefix ds (butlast p)"
  obtain d c where p: "p = d @ [c]" using assms(1) by (metis butlast_snoc_path ready_def)
  with ds(2) have "strict_prefix ds p" by (auto simp: prefix_def strict_prefix_def)
  then show "\<forall>m b. tree h ([] @ ds) \<noteq> Some (FileNode m b)" using assms(1) by (simp add: ready_def)
qed (use assms in simp)

lemma create_after_mkdirs:
  assumes wf: "tree_wf (tree h)" and rd: "ready (tree h) p"
    and dirs: "fs_mkdirs perm [] (butlast p) h = (Inr (), h1)"
    and ok: "fault h Sys_open p = None"
  shows "\<exists>h2. fs_create trunc perm' p h1 = (Inr p, h2)"
proof -
  from rd obtain d c where p: "p = d @ [c]" "butlast p = d" by (metis butlast_snoc_path ready_def)
  note frame = fs_mkdirs_frame [OF dirs]
  have wf1: "tree_wf (tree h1)" using fs_mkdirs_wf [OF dirs wf] tree_wf_root [OF wf] by simp
  have "\<exists>m. tree h1 d = Some (DirNode m)"
    using fs_mkdirs_dirs [OF dirs, of d] tree_wf_root [OF wf1] p by (cases "d = []") auto
  then obtain m where m: "walk (tree h1) [] d = Inr (DirNode m)" using walk_found [OF wf1] by blast
  have "\<exists>m b. tree h1 p = Some (FileNode m b)" if "tree h1 p \<noteq> None"
  proof (cases "tree h p")
    case None
    with frame(3) [of p] that p show ?thesis by auto
  next
    case (Some n)
    then show ?thesis using rd map_le_new [OF frame(2)] by (cases n) (auto simp: ready_def)
  qed
  moreover have "fault h1 = fault h" using frame(1) by (simp add: same_env_def)
  ultimately show ?thesis
    using m walk_snoc_ENOENT [OF m, of c] ok p
    by (fastforce simp: fs_create_def split: option.splits)
qed

section \<open>The contract of the calls that write a file\<close>

text \<open>
  \<open>create\<close> empties the file at a path, \<open>put\<close> appends to an open file; what is at other paths
  stays. A client that creates and then writes finds exactly the bytes it wrote.
\<close>

locale file_store =
  fixes create :: "fpath \<Rightarrow> (fpath, 's) effect"
    and put :: "fpath \<Rightarrow> string \<Rightarrow> (unit, 's) effect"
    and content :: "'s \<Rightarrow> fpath \<Rightarrow> string option"
  assumes create_empty: "create p s = (Inr f, s') \<Longrightarrow> f = p \<and> content s' p = Some []"
    and create_frame: "create p s = (r, s') \<Longrightarrow> q \<noteq> p \<Longrightarrow> content s' q = content s q"
    and put_append: "put p b s = (Inr (), s') \<Longrightarrow> content s p = Some a \<Longrightarrow> content s' p = Some (a @ b)"
    and put_frame: "put p b s = (u, s') \<Longrightarrow> q \<noteq> p \<Longrightarrow> content s' q = content s q"
begin

lemma stored:
  assumes "attempt (create p) w1 (\<lambda>f. attempt (put f b) w2 k) s = (Inr y, s')"
    and "\<And>x t r t'. k x t = (r, t') \<Longrightarrow> content t' = content t"
  shows "content s' p = Some b"
  using assms(1)
proof (elim attempt_InrE)
  fix f s1 u s2 assume "create p s = (Inr f, s1)" "put f b s1 = (Inr u, s2)" "k u s2 = (Inr y, s')"
  then show "content s' p = Some b"
    using create_empty [of p s f s1] put_append [of p b s1 s2 "[]"] assms(2) by fastforce
qed

lemma stored_frame:
  assumes "attempt (create p) w1 (\<lambda>f. attempt (put f b) w2 k) s = (r, s')"
    and "\<And>x t r t'. k x t = (r, t') \<Longrightarrow> content t' = content t" and "q \<noteq> p"
  shows "content s' q = content s q"
  using assms(1)
proof (cases rule: attempt_cases)
  case (failed e)
  then show ?thesis using assms(3) by (simp add: create_frame)
next
  case (continued f s1)
  from continued(2) have "content s' q = content s1 q"
  proof (cases rule: attempt_cases)
    case (failed e)
    then show ?thesis using continued(1) assms(3) create_empty [of p s f s1] by (simp add: put_frame)
  next
    case (continued u s2)
    then show ?thesis
      using \<open>create p s = (Inr f, s1)\<close> assms(2,3) create_empty [of p s f s1]
      by (metis put_frame)
  qed
  then show ?thesis using continued(1) assms(3) by (simp add: create_frame)
qed

end

text \<open>A store in which a failing \<open>put\<close> may have written a part: what a file can hold after a failure.\<close>

locale failing_store = file_store +
  assumes create_failed: "create p s = (Inl e, s') \<Longrightarrow> content s' = content s"
    and put_failed: "put p b s = (Inl e, s') \<Longrightarrow> content s p = Some a \<Longrightarrow>
      \<exists>c. prefix c b \<and> content s' p = Some (a @ c)"
begin

lemma stored_failed:
  assumes "attempt (create p) w1 (\<lambda>f. attempt (put f b) w2 return_ok) s = (Inl e, s')"
  shows "content s' p = content s p \<or> (\<exists>c. prefix c b \<and> content s' p = Some c)"
  using assms
proof (cases rule: attempt_cases)
  case (failed e)
  then show ?thesis by (simp add: create_failed)
next
  case (continued f s1)
  from continued(2) show ?thesis
    by (cases rule: attempt_cases)
      (use continued(1) create_empty [of p s f s1] put_failed [of p b s1 _ s' "[]"] in \<open>auto simp: return_ok_eq\<close>)
qed

end

lemma file_at_frame: "tree h' q = tree h q \<Longrightarrow> file_at h' q = file_at h q"
  by (simp add: file_at_def)

lemma fs_create_trunc_file:
  "fs_create True perm p h = (Inr f, h') \<Longrightarrow> f = p \<and> file_at h' p = Some []"
  by (auto simp: fs_create_def file_at_def split: option.splits sum.splits node.splits if_splits)

lemma fs_write_file:
  "fs_write p s h = (Inr (), h') \<Longrightarrow> file_at h p = Some b \<Longrightarrow> file_at h' p = Some (b @ s)"
  by (auto simp: fs_write_def fs_append_def file_at_def split: option.splits node.splits)

lemma fs_write_part:
  assumes "fs_write p s h = (r, h')" "file_at h p = Some b"
  shows "\<exists>c. prefix c s \<and> file_at h' p = Some (b @ c)"
proof -
  obtain m where "tree h p = Some (FileNode m b)"
    using assms(2) by (auto simp: file_at_def split: option.splits node.splits)
  with assms(1) show ?thesis by (elim fs_write_append) (auto simp: fs_append_def file_at_def)
qed

interpretation fs: file_store "fs_create True perm" fs_write file_at for perm
proof unfold_locales
  fix p q b s s' a f
  show "fs_create True perm p s = (Inr f, s') \<Longrightarrow> f = p \<and> file_at s' p = Some []"
    by (rule fs_create_trunc_file)
  show "fs_write p b s = (Inr (), s') \<Longrightarrow> file_at s p = Some a \<Longrightarrow> file_at s' p = Some (a @ b)"
    by (rule fs_write_file)
next
  fix p q s s' and r :: "fpath result"
  show "fs_create True perm p s = (r, s') \<Longrightarrow> q \<noteq> p \<Longrightarrow> file_at s' q = file_at s q"
    by (intro file_at_frame fs_create_frame)
next
  fix p b s s' q and r :: "unit result"
  show "fs_write p b s = (r, s') \<Longrightarrow> q \<noteq> p \<Longrightarrow> file_at s' q = file_at s q"
    by (intro file_at_frame fs_write_frame)
qed

interpretation fs: failing_store "fs_create True perm" fs_write file_at for perm
proof unfold_locales
  fix p s s' and e :: go_error
  show "fs_create True perm p s = (Inl e, s') \<Longrightarrow> file_at s' = file_at s"
    by (auto simp: fs_create_def split: option.splits sum.splits node.splits if_splits)
next
  fix p b s s' and e :: go_error
  show "fs_write p b s = (Inl e, s') \<Longrightarrow> file_at s p = Some a \<Longrightarrow>
      \<exists>c. prefix c b \<and> file_at s' p = Some (a @ c)" for a
    by (rule fs_write_part)
qed

lemma fs_mkdirs_file_at:
  assumes "fs_mkdirs perm pre cs h = (r, h')"
  shows "file_at h' q = file_at h q"
proof (cases "tree h q")
  case None
  then show ?thesis
    using fs_mkdirs_frame(3) [OF assms None] by (cases "tree h' q") (auto simp: file_at_def)
next
  case (Some n)
  then show ?thesis using map_le_new [OF fs_mkdirs_frame(2) [OF assms]] by (simp add: file_at_def)
qed

end
