(* ===== verification/Nri_Paths.thy ===== *)
theory Nri_Paths
  imports Go_Filepath Go_Os
begin

text \<open>
  \<open>internal/nri/constants.go\<close> and the path functions of \<open>internal/nri/filesystem.go\<close>. On the pod
  and container names Kubernetes hands out (one proper path component each) and the binaries the
  webhook accepts (\<open>clean_abs\<close>), every path is an explicit list of components; from that,
  containment in the container's own directory and the absence of collisions.
\<close>

section \<open>Constants\<close>

definition SealBinaryPathHost :: string where
  "SealBinaryPathHost = ''/opt/podlock/bin/seal''"

definition SwapOciHookBinaryPathContainer :: string where
  "SwapOciHookBinaryPathContainer = ''/swap-oci-hook''"

definition SwapOciHookBinaryPathHost :: string where
  "SwapOciHookBinaryPathHost = ''/opt/podlock/bin/swap-oci-hook''"

definition PodLockContainerDataDir :: string where
  "PodLockContainerDataDir = ''/.podlock/''"

definition PodLockContainerSwappedBinariesDir :: string where
  "PodLockContainerSwappedBinariesDir = ''/.podlock/swapped-binaries/''"

definition PodLockVarRunDir :: string where
  "PodLockVarRunDir = ''/var/run/podlock/''"

definition ContainerProfileName :: string where
  "ContainerProfileName = ''profile.json''"

section \<open>Path functions\<close>

definition SealBinaryPathContainer :: string where
  "SealBinaryPathContainer = Join [PodLockContainerDataDir, ''bin'', ''seal'']"

definition ContainerProfilePathInsideContainer :: string where
  "ContainerProfilePathInsideContainer = Join [PodLockContainerDataDir, ContainerProfileName]"

definition SwappedBinaryPathInsideContainer :: "string \<Rightarrow> string" where
  "SwappedBinaryPathInsideContainer originalBinaryPath =
     Join [PodLockContainerSwappedBinariesDir, originalBinaryPath]"

definition swappedBinaryPathOnHost :: "string \<Rightarrow> string \<Rightarrow> string \<Rightarrow> string" where
  "swappedBinaryPathOnHost podID containerName originalBinaryPath =
     Join [PodLockVarRunDir, podID, containerName, ''swapped-binaries'', originalBinaryPath]"

definition landlockProfilePathOnHost :: "string \<Rightarrow> string \<Rightarrow> string" where
  "landlockProfilePathOnHost podID containerName =
     Join [PodLockVarRunDir, podID, containerName, ContainerProfileName]"

text \<open>The directory \<open>RemoveContainer\<close> clears.\<close>

definition podlockRuntimePodDir :: "string \<Rightarrow> string" where
  "podlockRuntimePodDir podID = Join [PodLockVarRunDir, podID]"

section \<open>Components\<close>

text \<open>The components of the directories of a pod, of a container and of its binaries.\<close>

definition pod_dir :: "string \<Rightarrow> fpath" where
  "pod_dir podID = [''var'', ''run'', ''podlock'', podID]"

definition ctr_dir :: "string \<Rightarrow> string \<Rightarrow> fpath" where
  "ctr_dir podID containerName = pod_dir podID @ [containerName]"

definition swapped_dir :: "string \<Rightarrow> string \<Rightarrow> fpath" where
  "swapped_dir podID containerName = ctr_dir podID containerName @ [''swapped-binaries'']"

lemma push_var_run [simp]: "push [] PodLockVarRunDir = [''podlock'', ''run'', ''var'']"
  by (simp add: push_def PodLockVarRunDir_def)

lemma push_data_dirs [simp]:
  "push [] PodLockContainerDataDir = [''.podlock'']"
  "push [] PodLockContainerSwappedBinariesDir = [''swapped-binaries'', ''.podlock'']"
  by (simp_all add: push_def PodLockContainerDataDir_def PodLockContainerSwappedBinariesDir_def)

lemma IsAbs_dirs [simp]:
  "IsAbs PodLockVarRunDir" "IsAbs PodLockContainerDataDir" "IsAbs PodLockContainerSwappedBinariesDir"
  by (simp_all add: PodLockVarRunDir_def PodLockContainerDataDir_def
      PodLockContainerSwappedBinariesDir_def)

lemma proper_names [simp]:
  "proper ''swapped-binaries''" "proper ContainerProfileName" "proper ''bin''" "proper ''seal''"
  "proper ''var''" "proper ''run''" "proper ''podlock''" "proper ''.podlock''"
  by (simp_all add: proper_def ContainerProfileName_def)

lemma SealBinaryPathContainer_eq: "SealBinaryPathContainer = ''/.podlock/bin/seal''"
  by (simp add: SealBinaryPathContainer_def Join_abs) (simp add: abs_path_def)

lemma ContainerProfilePathInsideContainer_eq:
  "ContainerProfilePathInsideContainer = ''/.podlock/profile.json''"
  by (simp add: ContainerProfilePathInsideContainer_def Join_abs)
    (simp add: abs_path_def ContainerProfileName_def)

text \<open>Whatever the arguments, the paths are clean and absolute.\<close>

lemma nri_paths_clean [simp]:
  "clean_abs (SwappedBinaryPathInsideContainer b)" "clean_abs (swappedBinaryPathOnHost p c b)"
  "clean_abs (landlockProfilePathOnHost p c)" "clean_abs (podlockRuntimePodDir p)"
  by (simp_all add: SwappedBinaryPathInsideContainer_def swappedBinaryPathOnHost_def
      landlockProfilePathOnHost_def podlockRuntimePodDir_def)

lemma comps_podlockRuntimePodDir:
  "proper p \<Longrightarrow> comps (podlockRuntimePodDir p) = pod_dir p"
  by (simp add: podlockRuntimePodDir_def comps_Join pod_dir_def)

lemma comps_landlockProfilePathOnHost:
  "proper p \<Longrightarrow> proper c \<Longrightarrow>
     comps (landlockProfilePathOnHost p c) = ctr_dir p c @ [ContainerProfileName]"
  by (simp add: landlockProfilePathOnHost_def comps_Join ctr_dir_def pod_dir_def)

lemma comps_swappedBinaryPathOnHost:
  "proper p \<Longrightarrow> proper c \<Longrightarrow> clean_abs b \<Longrightarrow>
     comps (swappedBinaryPathOnHost p c b) = swapped_dir p c @ comps b"
  by (simp add: swappedBinaryPathOnHost_def comps_Join swapped_dir_def ctr_dir_def pod_dir_def
      push_clean_abs)

lemma comps_SwappedBinaryPathInsideContainer:
  "clean_abs b \<Longrightarrow>
     comps (SwappedBinaryPathInsideContainer b) = [''.podlock'', ''swapped-binaries''] @ comps b"
  by (simp add: SwappedBinaryPathInsideContainer_def comps_Join push_clean_abs)

lemmas nri_comps =
  comps_podlockRuntimePodDir comps_landlockProfilePathOnHost comps_swappedBinaryPathOnHost

text \<open>The host paths as one \<open>Join\<close> of the container's directory and the binary.\<close>

lemma swappedBinaryPathOnHost_Join:
  assumes "proper p" "proper c" "clean_abs b"
  shows "swappedBinaryPathOnHost p c b = Join [abs_path (swapped_dir p c), b]"
proof -
  have "proper_all (swapped_dir p c)" using assms by (simp add: swapped_dir_def ctr_dir_def pod_dir_def)
  then have "comps (swappedBinaryPathOnHost p c b) = comps (Join [abs_path (swapped_dir p c), b])"
    using assms by (simp add: comps_swappedBinaryPathOnHost pj.join_parts)
  then show ?thesis by (rule clean_abs_comps_inject [rotated 2]) simp_all
qed

lemma SwappedBinaryPathInsideContainer_Join:
  assumes "clean_abs b"
  shows "SwappedBinaryPathInsideContainer b =
    Join [abs_path [''.podlock'', ''swapped-binaries''], b]"
proof -
  have "comps (SwappedBinaryPathInsideContainer b) =
      comps (Join [abs_path [''.podlock'', ''swapped-binaries''], b])"
    using assms by (simp add: comps_SwappedBinaryPathInsideContainer pj.join_parts)
  then show ?thesis by (rule clean_abs_comps_inject [rotated 2]) simp_all
qed

lemma swapped_dir_proper [simp]:
  "proper p \<Longrightarrow> proper c \<Longrightarrow> clean_abs (abs_path (swapped_dir p c))"
  "proper p \<Longrightarrow> proper c \<Longrightarrow> comps (abs_path (swapped_dir p c)) = swapped_dir p c"
proof -
  assume "proper p" "proper c"
  then have "proper_all (swapped_dir p c)" by (simp add: swapped_dir_def ctr_dir_def pod_dir_def)
  then show "clean_abs (abs_path (swapped_dir p c))" "comps (abs_path (swapped_dir p c)) = swapped_dir p c"
    by simp_all
qed

lemma swappedBinaryPathInsideContainer_inject:
  assumes "clean_abs b" "clean_abs b'"
    and "SwappedBinaryPathInsideContainer b = SwappedBinaryPathInsideContainer b'"
  shows "b = b'"
proof (rule pj.join_inject)
  show "Join [abs_path [''.podlock'', ''swapped-binaries''], b] =
      Join [abs_path [''.podlock'', ''swapped-binaries''], b']"
    using assms by (simp add: SwappedBinaryPathInsideContainer_Join)
qed (use assms in simp_all)

lemma swappedBinaryPathOnHost_separate:
  assumes names: "proper p" "proper c" "proper p'" "proper c'" and b: "clean_abs b" "clean_abs b'"
    and eq: "swappedBinaryPathOnHost p c b = swappedBinaryPathOnHost p' c' b'"
  shows "p = p' \<and> c = c' \<and> b = b'"
proof -
  from names have same: "p = p' \<and> c = c'"
    if "prefix (swapped_dir p c) (swapped_dir p' c') \<or> prefix (swapped_dir p' c') (swapped_dir p c)"
    using that by (auto simp: swapped_dir_def ctr_dir_def pod_dir_def)
  have "p = p' \<and> c = c'"
  proof (rule ccontr)
    assume ne: "\<not> (p = p' \<and> c = c')"
    have apart: "\<not> prefix (swapped_dir p c) (swapped_dir p' c')"
      "\<not> prefix (swapped_dir p' c') (swapped_dir p c)"
      using same ne by blast+
    have "Join [abs_path (swapped_dir p c), b] \<noteq> Join [abs_path (swapped_dir p' c'), b']"
      by (rule pj.join_separated) (use names b apart in simp_all)
    with eq names b show False by (simp add: swappedBinaryPathOnHost_Join)
  qed
  moreover from this have "Join [abs_path (swapped_dir p c), b] = Join [abs_path (swapped_dir p c), b']"
    using eq names b by (metis swappedBinaryPathOnHost_Join)
  then have "b = b'" using names b by (metis pj.join_inject swapped_dir_proper(1))
  ultimately show ?thesis by blast
qed

end
