(* ===== verification/Go_Json.thy ===== *)
theory Go_Json
  imports Go_Strings
begin

text \<open>
  What the code uses of \<open>encoding/json\<close>: an \<open>Encoder\<close> with \<open>SetIndent("", "  ")\<close> and the default
  HTML escaping, and a \<open>Decoder\<close> that reads one value. This theory holds the part that does not
  depend on the Go type: UTF-8, string quoting, the indented text of a value and the parser of
  JSON text. Strings are bytes. \<open>parse_pretty\<close> is the round trip: the parser returns the
  value from its text and leaves what follows.

  The parser takes fuel, one unit per nested call; the text's length is always enough
  (\<open>parse_pretty\<close> is stated with that amount). Go's limit of 10000 nested values is not modelled.
\<close>

section \<open>UTF-8\<close>

definition byte :: "char \<Rightarrow> nat" where
  "byte c = of_char c"

lemma byte_lt [simp]: "byte c < 256"
  by (simp add: byte_def)

lemma char_of_byte [simp]: "char_of (byte c) = c"
  by (simp add: byte_def)

lemma byte_char_of [simp]: "n < 256 \<Longrightarrow> byte (char_of n) = n"
  by (simp add: byte_def)

lemma byte_inject [simp]: "byte c = byte d \<longleftrightarrow> c = d"
  by (simp add: byte_def)

definition tail_byte :: "char \<Rightarrow> bool" where
  "tail_byte c \<longleftrightarrow> 0x80 \<le> byte c \<and> byte c \<le> 0xBF"

text \<open>The well-formed encodings of two, three and four bytes (Go's \<open>first\<close> and \<open>acceptRanges\<close>).\<close>

definition rune2 :: "char \<Rightarrow> char \<Rightarrow> bool" where
  "rune2 a b \<longleftrightarrow> 0xC2 \<le> byte a \<and> byte a \<le> 0xDF \<and> tail_byte b"

definition rune3 :: "char \<Rightarrow> char \<Rightarrow> char \<Rightarrow> bool" where
  "rune3 a b c \<longleftrightarrow>
     0xE0 \<le> byte a \<and> byte a \<le> 0xEF \<and>
     (if byte a = 0xE0 then 0xA0 else 0x80) \<le> byte b \<and>
     byte b \<le> (if byte a = 0xED then 0x9F else 0xBF) \<and> tail_byte c"

definition rune4 :: "char \<Rightarrow> char \<Rightarrow> char \<Rightarrow> char \<Rightarrow> bool" where
  "rune4 a b c d \<longleftrightarrow>
     0xF0 \<le> byte a \<and> byte a \<le> 0xF4 \<and>
     (if byte a = 0xF0 then 0x90 else 0x80) \<le> byte b \<and>
     byte b \<le> (if byte a = 0xF4 then 0x8F else 0xBF) \<and> tail_byte c \<and> tail_byte d"

text \<open>
  \<open>utf8.DecodeRune\<close>'s width of the code point at the head, 0 when the bytes there are no valid
  encoding.
\<close>

fun rune_len :: "string \<Rightarrow> nat" where
  "rune_len [] = 0"
| "rune_len [a] = (if byte a < 0x80 then 1 else 0)"
| "rune_len [a, b] = (if byte a < 0x80 then 1 else if rune2 a b then 2 else 0)"
| "rune_len [a, b, c] =
     (if byte a < 0x80 then 1 else if rune2 a b then 2 else if rune3 a b c then 3 else 0)"
| "rune_len (a # b # c # d # _) =
     (if byte a < 0x80 then 1 else if rune2 a b then 2 else if rune3 a b c then 3
      else if rune4 a b c d then 4 else 0)"

lemma rune_len_le: "rune_len s \<le> length s"
  by (cases s rule: rune_len.cases) auto

lemma rune_len_ascii [simp]: "byte c < 0x80 \<Longrightarrow> rune_len (c # s) = 1"
  by (cases "c # s" rule: rune_len.cases) auto

lemma rune_exclusive:
  "rune2 a b \<Longrightarrow> \<not> byte a < 0x80" "rune3 a b c \<Longrightarrow> \<not> byte a < 0x80"
  "rune4 a b c d \<Longrightarrow> \<not> byte a < 0x80"
  "rune3 a b c \<Longrightarrow> \<not> rune2 a b'" "rune4 a b c d \<Longrightarrow> \<not> rune2 a b'" "rune4 a b c d \<Longrightarrow> \<not> rune3 a b' c'"
  by (auto simp: rune2_def rune3_def rune4_def)

lemma rune_len_Cons1: "byte a < 0x80 \<Longrightarrow> rune_len (a # t) = 1"
  by simp

lemma rune_len_Cons2: "rune2 a b \<Longrightarrow> rune_len (a # b # t) = 2"
  by (cases "a # b # t" rule: rune_len.cases) (auto simp: rune_exclusive)

lemma rune_len_Cons3: "rune3 a b c \<Longrightarrow> rune_len (a # b # c # t) = 3"
  by (cases "a # b # c # t" rule: rune_len.cases) (auto simp: rune_exclusive)

lemma rune_len_Cons4: "rune4 a b c d \<Longrightarrow> rune_len (a # b # c # d # t) = 4"
  by (auto simp: rune_exclusive)

text \<open>The width depends on the bytes of the code point only.\<close>

lemma rune_len_cases:
  assumes "rune_len s \<noteq> 0"
  obtains (one) a t where "s = a # t" "byte a < 0x80"
    | (two) a b t where "s = a # b # t" "rune2 a b"
    | (three) a b c t where "s = a # b # c # t" "rune3 a b c"
    | (four) a b c d t where "s = a # b # c # d # t" "rune4 a b c d"
  using assms by (cases s rule: rune_len.cases) (auto split: if_splits)

lemma rune_len_take:
  assumes "rune_len s = n" "n \<noteq> 0"
  shows "rune_len (take n s @ t) = n"
proof -
  from assms have "rune_len s \<noteq> 0" by simp
  then show ?thesis
    by (cases s rule: rune_len_cases)
      (use assms in \<open>auto simp: rune_len_Cons2 rune_len_Cons3 rune_len_Cons4 eval_nat_numeral
         simp del: rune_len.simps\<close>)
qed

declare rune_len.simps [simp del]

function valid_utf8 :: "string \<Rightarrow> bool" where
  "valid_utf8 [] = True"
| "valid_utf8 (c # s) =
     (rune_len (c # s) \<noteq> 0 \<and> valid_utf8 (drop (rune_len (c # s) - 1) s))"
  by pat_completeness auto
termination by (relation "measure length") auto

text \<open>\<open>utf8.AppendRune\<close>\<close>

definition encode_rune :: "nat \<Rightarrow> string" where
  "encode_rune r =
     (let r = (if r > 0x10FFFF \<or> 0xD800 \<le> r \<and> r \<le> 0xDFFF then 0xFFFD else r) in
      if r < 0x80 then [char_of r]
      else if r < 0x800 then [char_of (0xC0 + r div 64), char_of (0x80 + r mod 64)]
      else if r < 0x10000 then
        [char_of (0xE0 + r div 4096), char_of (0x80 + r div 64 mod 64), char_of (0x80 + r mod 64)]
      else
        [char_of (0xF0 + r div 262144), char_of (0x80 + r div 4096 mod 64),
         char_of (0x80 + r div 64 mod 64), char_of (0x80 + r mod 64)])"

lemma line_sep_chars [simp]:
  "char_of (226 :: nat) = CHR 0xE2" "char_of (128 :: nat) = CHR 0x80"
  "char_of (168 :: nat) = CHR 0xA8" "char_of (169 :: nat) = CHR 0xA9"
  using char_of_byte [of "CHR 0xE2"] char_of_byte [of "CHR 0x80"]
    char_of_byte [of "CHR 0xA8"] char_of_byte [of "CHR 0xA9"]
  by (simp_all add: byte_def)

section \<open>Quoting\<close>

definition quote_char :: char where "quote_char = CHR 0x22"

definition backslash :: char where "backslash = CHR 0x5C"

definition hexdigit :: "nat \<Rightarrow> char" where
  "hexdigit n = (if n < 10 then char_of (48 + n) else char_of (87 + n))"

definition hexval :: "char \<Rightarrow> nat option" where
  "hexval c =
     (let x = byte c in
      if 48 \<le> x \<and> x \<le> 57 then Some (x - 48)
      else if 97 \<le> x \<and> x \<le> 102 then Some (x - 87)
      else if 65 \<le> x \<and> x \<le> 70 then Some (x - 55)
      else None)"

text \<open>The text of one byte below \<open>0x80\<close> (\<open>appendString\<close> with \<open>escapeHTML\<close>).\<close>

definition escape :: "char \<Rightarrow> string" where
  "escape c =
     (if c = quote_char \<or> c = backslash then [backslash, c]
      else if c = CHR 0x08 then [backslash, CHR ''b'']
      else if c = CHR 0x0C then [backslash, CHR ''f'']
      else if c = CHR 0x0A then [backslash, CHR ''n'']
      else if c = CHR 0x0D then [backslash, CHR ''r'']
      else if c = CHR 0x09 then [backslash, CHR ''t'']
      else if byte c < 0x20 \<or> c = CHR ''<'' \<or> c = CHR ''>'' \<or> c = CHR ''&'' then
        [backslash, CHR ''u'', CHR ''0'', CHR ''0'', hexdigit (byte c div 16), hexdigit (byte c mod 16)]
      else [c])"

definition line_sep :: "string \<Rightarrow> bool" where
  "line_sep s \<longleftrightarrow> s = [CHR 0xE2, CHR 0x80, CHR 0xA8] \<or> s = [CHR 0xE2, CHR 0x80, CHR 0xA9]"

function quote_body :: "string \<Rightarrow> string" where
  "quote_body [] = []"
| "quote_body (c # s) =
     (let n = rune_len (c # s) in
      if byte c < 0x80 then escape c @ quote_body s
      else if n = 0 then [backslash] @ ''ufffd'' @ quote_body s
      else if line_sep (take n (c # s)) then
        [backslash] @ ''u202'' @ [hexdigit (byte (last (take n (c # s))) mod 16)] @
          quote_body (drop (n - 1) s)
      else take n (c # s) @ quote_body (drop (n - 1) s))"
  by pat_completeness auto
termination by (relation "measure length") auto

definition quote :: "string \<Rightarrow> string" where
  "quote s = [quote_char] @ quote_body s @ [quote_char]"

section \<open>Reading a quoted string\<close>

text \<open>\<open>getu4\<close>: four hexadecimal digits.\<close>

definition getu4 :: "string \<Rightarrow> (nat \<times> string) option" where
  "getu4 s =
     (case s of
        a # b # c # d # r \<Rightarrow>
          (case (hexval a, hexval b, hexval c, hexval d) of
             (Some w, Some x, Some y, Some z) \<Rightarrow> Some (4096 * w + 256 * x + 16 * y + z, r)
           | _ \<Rightarrow> None)
      | _ \<Rightarrow> None)"

text \<open>A high surrogate joins the low one of an escape that follows; a lone one becomes U+FFFD.\<close>

definition unicode_escape :: "nat \<Rightarrow> string \<Rightarrow> string \<times> string" where
  "unicode_escape u r =
     (if 0xD800 \<le> u \<and> u \<le> 0xDFFF then
        (case r of
           b # k # r' \<Rightarrow>
             if b = backslash \<and> k = CHR ''u'' then
               (case getu4 r' of
                  Some (v, r'') \<Rightarrow>
                    if u \<le> 0xDBFF \<and> 0xDC00 \<le> v \<and> v \<le> 0xDFFF
                    then (encode_rune (0x10000 + (u - 0xD800) * 1024 + (v - 0xDC00)), r'')
                    else (encode_rune 0xFFFD, r)
                | None \<Rightarrow> (encode_rune 0xFFFD, r))
             else (encode_rune 0xFFFD, r)
         | _ \<Rightarrow> (encode_rune 0xFFFD, r))
      else (encode_rune u, r))"

text \<open>One unit of a string's text: the bytes it stands for and the rest.\<close>

definition unescape1 :: "string \<Rightarrow> (string \<times> string) option" where
  "unescape1 s =
     (case s of
        [] \<Rightarrow> None
      | c # r \<Rightarrow>
          if c = backslash then
            (case r of
               [] \<Rightarrow> None
             | e # r' \<Rightarrow>
                 if e = quote_char \<or> e = backslash \<or> e = CHR ''/'' then Some ([e], r')
                 else if e = CHR ''b'' then Some ([CHR 0x08], r')
                 else if e = CHR ''f'' then Some ([CHR 0x0C], r')
                 else if e = CHR ''n'' then Some ([CHR 0x0A], r')
                 else if e = CHR ''r'' then Some ([CHR 0x0D], r')
                 else if e = CHR ''t'' then Some ([CHR 0x09], r')
                 else if e = CHR ''u'' then
                   (case getu4 r' of
                      Some (u, r'') \<Rightarrow> Some (unicode_escape u r'')
                    | None \<Rightarrow> None)
                 else None)
          else if c = quote_char \<or> byte c < 0x20 then None
          else if rune_len s = 0 then Some (encode_rune 0xFFFD, r)
          else Some (take (rune_len s) s, drop (rune_len s) s))"

lemma getu4_length: "getu4 s = Some (u, r) \<Longrightarrow> length r < length s"
  by (auto simp: getu4_def split: list.splits option.splits)

lemma unescape1_length: "unescape1 s = Some (t, r) \<Longrightarrow> length r < length s"
proof (cases s)
  case (Cons c q)
  assume *: "unescape1 s = Some (t, r)"
  have u: "length (snd (unicode_escape u x)) \<le> length x" for u x
    by (auto simp: unicode_escape_def split: list.splits option.splits dest!: getu4_length)
  show ?thesis
  proof (cases "c = backslash")
    case True
    with * Cons obtain e q' where q: "q = e # q'" by (auto simp: unescape1_def split: list.splits)
    have "length r \<le> length q'"
      using * True Cons q u [of _ _]
      by (auto simp: unescape1_def quote_char_def backslash_def split: if_splits option.splits
          dest!: getu4_length) (metis le_less_trans less_imp_le_nat snd_conv u)+
    then show ?thesis using Cons q by simp
  next
    case False
    with * Cons show ?thesis by (auto simp: unescape1_def split: if_splits)
  qed
qed (simp add: unescape1_def)

function parse_string :: "string \<Rightarrow> (string \<times> string) option" where
  "parse_string s =
     (case s of
        [] \<Rightarrow> None
      | c # r \<Rightarrow>
          if c = quote_char then Some ([], r)
          else case unescape1 s of
                 None \<Rightarrow> None
               | Some (t, s') \<Rightarrow> map_option (\<lambda>(u, r'). (t @ u, r')) (parse_string s'))"
  by pat_completeness auto
termination by (relation "measure length") (auto dest: unescape1_length)

declare parse_string.simps [simp del]

lemma parse_string_end [simp]: "parse_string (quote_char # r) = Some ([], r)"
  by (subst parse_string.simps) simp

lemma parse_string_unit:
  assumes "unescape1 s = Some (t, s')"
  shows "parse_string s = map_option (\<lambda>(u, r). (t @ u, r)) (parse_string s')"
proof -
  obtain c r where s: "s = c # r" "c \<noteq> quote_char"
    using assms by (cases s) (auto simp: unescape1_def quote_char_def backslash_def split: if_splits)
  then show ?thesis using assms by (subst parse_string.simps) simp
qed

lemma hexval_hexdigit [simp]: "n < 16 \<Longrightarrow> hexval (hexdigit n) = Some n"
  by (auto simp: hexval_def hexdigit_def Let_def)

lemma hexval_zero: "hexval CHR ''0'' = Some 0"
  by (simp add: hexval_def byte_def)

lemma unescape1_escape:
  assumes "byte c < 0x80"
  shows "unescape1 (escape c @ s) = Some ([c], s)"
proof -
  have "byte c div 16 < 16" "byte c mod 16 < 16" using byte_lt [of c] by (simp_all del: byte_lt)
  then have hex: "getu4 (CHR ''0'' # CHR ''0'' # hexdigit (byte c div 16) # hexdigit (byte c mod 16) # s)
      = Some (byte c, s)"
    by (simp add: getu4_def hexval_zero)
  have "encode_rune (byte c) = [c]" using assms by (simp add: encode_rune_def)
  then have uni: "unicode_escape (byte c) s = ([c], s)"
    using assms by (simp add: unicode_escape_def)
  show ?thesis
    using assms
    by (simp add: escape_def unescape1_def hex uni quote_char_def backslash_def)
qed

lemma unescape1_rune:
  assumes "rune_len s = n" "n \<noteq> 0" "0x80 \<le> byte (hd s)"
  shows "unescape1 (take n s @ t) = Some (take n s, t)"
proof -
  obtain c r where s: "s = c # r" using assms by (cases s) (auto simp: rune_len.simps)
  obtain m where n: "n = Suc m" using assms(2) by (cases n) auto
  have c: "c \<noteq> backslash" "c \<noteq> quote_char" "\<not> byte c < 0x20"
    using assms(3) s by (auto simp: byte_def backslash_def quote_char_def)
  have "length (take n s) = n" using rune_len_le [of s] assms(1) by simp
  moreover have "rune_len (take n s @ t) = n" using assms(1,2) by (rule rune_len_take)
  ultimately show ?thesis using s n c by (simp add: unescape1_def)
qed

lemma parse_quote_body:
  "valid_utf8 s \<Longrightarrow> parse_string (quote_body s @ quote_char # r) = Some (s, r)"
proof (induction s rule: quote_body.induct)
  case (2 c s)
  define n where "n = rune_len (c # s)"
  have valid: "n \<noteq> 0" "valid_utf8 (drop (n - 1) s)" using "2.prems" by (simp_all add: n_def)
  show ?case
  proof (cases "byte c < 0x80")
    case True
    then have "n = 1" by (simp add: n_def)
    with True valid "2.IH"(1) n_def show ?thesis
      by (simp add: parse_string_unit [OF unescape1_escape])
  next
    case big: False
    have take: "take n (c # s) @ drop (n - 1) s = c # s"
      using valid(1) by (cases n) auto
    have IH: "parse_string (quote_body (drop (n - 1) s) @ quote_char # r) = Some (drop (n - 1) s, r)"
      using "2.IH"(3,4) big valid n_def by (cases "line_sep (take n (c # s))") auto
    show ?thesis
    proof (cases "line_sep (take n (c # s))")
      case True
      have "unescape1 (backslash # ''u202'' @ [hexdigit (byte (last (take n (c # s))) mod 16)] @ t) =
          Some (take n (c # s), t)" for t
        using True
        by (auto simp: line_sep_def unescape1_def getu4_def hexval_def byte_def hexdigit_def
            unicode_escape_def encode_rune_def quote_char_def backslash_def)
      from parse_string_unit [OF this] IH True big valid take show ?thesis
        by (simp add: n_def [symmetric])
    next
      case False
      have "unescape1 (take n (c # s) @ t) = Some (take n (c # s), t)" for t
        by (rule unescape1_rune) (use n_def valid big in auto)
      from parse_string_unit [OF this] IH False big valid take show ?thesis
        by (simp add: n_def [symmetric])
    qed
  qed
qed simp

section \<open>Values and their indented text\<close>

datatype json =
    JNull
  | JBool bool
  | JNum string
  | JStr string
  | JArr "json list"
  | JObj "(string \<times> json) list"

text \<open>A new line at depth \<open>d\<close>; \<open>Indent\<close> writes none inside an empty object or array.\<close>

definition nl :: "nat \<Rightarrow> string" where
  "nl d = CHR 0x0A # replicate (2 * d) CHR '' ''"

fun pretty :: "nat \<Rightarrow> json \<Rightarrow> string"
  and pretty_elems :: "nat \<Rightarrow> json list \<Rightarrow> string"
  and pretty_members :: "nat \<Rightarrow> (string \<times> json) list \<Rightarrow> string" where
  "pretty d JNull = ''null''"
| "pretty d (JBool b) = (if b then ''true'' else ''false'')"
| "pretty d (JNum t) = t"
| "pretty d (JStr s) = quote s"
| "pretty d (JArr vs) =
     (if vs = [] then ''[]'' else ''['' @ nl (Suc d) @ pretty_elems (Suc d) vs @ nl d @ '']'')"
| "pretty d (JObj ms) =
     (if ms = [] then ''{}'' else ''{'' @ nl (Suc d) @ pretty_members (Suc d) ms @ nl d @ ''}'')"
| "pretty_elems d [] = []"
| "pretty_elems d (v # vs) =
     pretty d v @ (if vs = [] then [] else '','' @ nl d @ pretty_elems d vs)"
| "pretty_members d [] = []"
| "pretty_members d (m # ms) =
     quote (fst m) @ '': '' @ pretty d (snd m) @
       (if ms = [] then [] else '','' @ nl d @ pretty_members d ms)"

section \<open>The parser\<close>

definition json_ws :: "char \<Rightarrow> bool" where
  "json_ws c \<longleftrightarrow> c \<in> {CHR '' '', CHR 0x09, CHR 0x0A, CHR 0x0D}"

definition skip_ws :: "string \<Rightarrow> string" where
  "skip_ws s = dropWhile json_ws s"

definition digit :: "char \<Rightarrow> bool" where
  "digit c \<longleftrightarrow> 48 \<le> byte c \<and> byte c \<le> 57"

text \<open>The token of a number: sign, integer part without leading zeros, fraction, exponent.\<close>

definition digits1 :: "string \<Rightarrow> (string \<times> string) option" where
  "digits1 s = (let ds = takeWhile digit s in if ds = [] then None else Some (ds, dropWhile digit s))"

definition parse_int :: "string \<Rightarrow> (string \<times> string) option" where
  "parse_int s =
     (case s of
        c # r \<Rightarrow> if c = CHR ''0'' then Some ([c], r) else digits1 s
      | [] \<Rightarrow> None)"

definition parse_frac :: "string \<Rightarrow> (string \<times> string) option" where
  "parse_frac s =
     (case s of
        c # r \<Rightarrow>
          if c = CHR ''.'' then map_option (\<lambda>(ds, q). (c # ds, q)) (digits1 r) else Some ([], s)
      | [] \<Rightarrow> Some ([], s))"

definition parse_exp :: "string \<Rightarrow> (string \<times> string) option" where
  "parse_exp s =
     (case s of
        c # r \<Rightarrow>
          if c = CHR ''e'' \<or> c = CHR ''E'' then
            (case r of
               g # q \<Rightarrow>
                 if g = CHR ''+'' \<or> g = CHR ''-''
                 then map_option (\<lambda>(ds, t). (c # g # ds, t)) (digits1 q)
                 else map_option (\<lambda>(ds, t). (c # ds, t)) (digits1 r)
             | [] \<Rightarrow> None)
          else Some ([], s)
      | [] \<Rightarrow> Some ([], s))"

definition parse_number :: "string \<Rightarrow> (string \<times> string) option" where
  "parse_number s =
     (let (sign, s0) = (case s of c # r \<Rightarrow> if c = CHR ''-'' then ([c], r) else ([], s) | [] \<Rightarrow> ([], s))
      in Option.bind (parse_int s0) (\<lambda>(i, s1).
         Option.bind (parse_frac s1) (\<lambda>(f, s2).
         map_option (\<lambda>(e, s3). (sign @ i @ f @ e, s3)) (parse_exp s2))))"

definition parse_lit :: "string \<Rightarrow> json \<Rightarrow> string \<Rightarrow> (json \<times> string) option" where
  "parse_lit w v s = (if prefix w s then Some (v, drop (length w) s) else None)"

fun parse_value :: "nat \<Rightarrow> string \<Rightarrow> (json \<times> string) option"
  and parse_elems :: "nat \<Rightarrow> string \<Rightarrow> (json list \<times> string) option"
  and parse_members :: "nat \<Rightarrow> string \<Rightarrow> ((string \<times> json) list \<times> string) option" where
  "parse_value 0 s = None"
| "parse_value (Suc n) s =
     (case skip_ws s of
        [] \<Rightarrow> None
      | c # r \<Rightarrow>
          if c = quote_char then map_option (\<lambda>(t, q). (JStr t, q)) (parse_string r)
          else if c = CHR ''['' then
            (case skip_ws r of
               [] \<Rightarrow> None
             | e # q \<Rightarrow>
                 if e = CHR '']'' then Some (JArr [], q)
                 else map_option (\<lambda>(vs, t). (JArr vs, t)) (parse_elems n (e # q)))
          else if c = CHR ''{'' then
            (case skip_ws r of
               [] \<Rightarrow> None
             | e # q \<Rightarrow>
                 if e = CHR ''}'' then Some (JObj [], q)
                 else map_option (\<lambda>(ms, t). (JObj ms, t)) (parse_members n (e # q)))
          else if c = CHR ''n'' then parse_lit ''null'' JNull (c # r)
          else if c = CHR ''t'' then parse_lit ''true'' (JBool True) (c # r)
          else if c = CHR ''f'' then parse_lit ''false'' (JBool False) (c # r)
          else map_option (\<lambda>(t, q). (JNum t, q)) (parse_number (c # r)))"
| "parse_elems 0 s = None"
| "parse_elems (Suc n) s =
     (case parse_value n s of
        None \<Rightarrow> None
      | Some (v, r) \<Rightarrow>
          (case skip_ws r of
             [] \<Rightarrow> None
           | c # q \<Rightarrow>
               if c = CHR '']'' then Some ([v], q)
               else if c = CHR '','' then map_option (\<lambda>(vs, t). (v # vs, t)) (parse_elems n q)
               else None))"
| "parse_members 0 s = None"
| "parse_members (Suc n) s =
     (case skip_ws s of
        [] \<Rightarrow> None
      | c # r \<Rightarrow>
          if c \<noteq> quote_char then None
          else case parse_string r of
                 None \<Rightarrow> None
               | Some (k, r1) \<Rightarrow>
                   (case skip_ws r1 of
                      [] \<Rightarrow> None
                    | c1 # r2 \<Rightarrow>
                        if c1 \<noteq> CHR '':'' then None
                        else case parse_value n r2 of
                               None \<Rightarrow> None
                             | Some (v, r3) \<Rightarrow>
                                 (case skip_ws r3 of
                                    [] \<Rightarrow> None
                                  | c2 # r4 \<Rightarrow>
                                      if c2 = CHR ''}'' then Some ([(k, v)], r4)
                                      else if c2 = CHR '','' then
                                        map_option (\<lambda>(ms, t). ((k, v) # ms, t)) (parse_members n r4)
                                      else None)))"

section \<open>Round trip\<close>

text \<open>Values without numbers whose strings are valid UTF-8: what the code encodes.\<close>

fun sound_json :: "json \<Rightarrow> bool"
  and sound_elems :: "json list \<Rightarrow> bool"
  and sound_members :: "(string \<times> json) list \<Rightarrow> bool" where
  "sound_json JNull = True"
| "sound_json (JBool b) = True"
| "sound_json (JNum t) = False"
| "sound_json (JStr s) = valid_utf8 s"
| "sound_json (JArr vs) = sound_elems vs"
| "sound_json (JObj ms) = sound_members ms"
| "sound_elems [] = True"
| "sound_elems (v # vs) = (sound_json v \<and> sound_elems vs)"
| "sound_members [] = True"
| "sound_members (m # ms) = (valid_utf8 (fst m) \<and> sound_json (snd m) \<and> sound_members ms)"

lemma sound_elems_iff: "sound_elems vs \<longleftrightarrow> (\<forall>v \<in> set vs. sound_json v)"
  by (induction vs) auto

lemma sound_members_iff:
  "sound_members ms \<longleftrightarrow> (\<forall>(k, v) \<in> set ms. valid_utf8 k \<and> sound_json v)"
  by (induction ms) auto

lemma skip_nl [simp]: "skip_ws (nl d @ s) = skip_ws s"
  by (induction d) (simp_all add: skip_ws_def nl_def json_ws_def)

lemma skip_ws_Cons [simp]: "\<not> json_ws c \<Longrightarrow> skip_ws (c # s) = c # s"
  by (simp add: skip_ws_def)

lemma skip_ws_space [simp]: "skip_ws (CHR '' '' # s) = skip_ws s"
  by (simp add: skip_ws_def json_ws_def)

lemma skip_ws_idem [simp]: "skip_ws (skip_ws s) = skip_ws s"
  by (simp add: skip_ws_def)

lemma parse_value_skip: "skip_ws s = skip_ws t \<Longrightarrow> parse_value n s = parse_value n t"
  by (cases n) simp_all

lemma parse_elems_skip: "skip_ws s = skip_ws t \<Longrightarrow> parse_elems n s = parse_elems n t"
  by (cases n) (simp_all add: parse_value_skip [of s t])

lemma parse_members_skip: "skip_ws s = skip_ws t \<Longrightarrow> parse_members n s = parse_members n t"
  by (cases n) simp_all

text \<open>The first byte of a text is no white space and closes no array or object.\<close>

lemma quote_Cons: "quote s = quote_char # quote_body s @ [quote_char]"
  by (simp add: quote_def)

lemma pretty_head:
  "sound_json v \<Longrightarrow> \<exists>c r. pretty d v = c # r \<and> \<not> json_ws c \<and> c \<noteq> CHR '']'' \<and> c \<noteq> CHR ''}''"
  by (cases v) (auto simp: quote_Cons quote_char_def json_ws_def)

lemma pretty_elems_head:
  "sound_elems vs \<Longrightarrow> vs \<noteq> [] \<Longrightarrow>
     \<exists>c r. pretty_elems d vs = c # r \<and> \<not> json_ws c \<and> c \<noteq> CHR '']''"
  using pretty_head by (cases vs) fastforce+

lemma pretty_members_head:
  "ms \<noteq> [] \<Longrightarrow> \<exists>r. pretty_members d ms = quote_char # r"
  by (cases ms) (auto simp: quote_Cons)

lemmas json_chars = quote_char_def json_ws_def parse_lit_def

lemma not_json_ws [simp]:
  "\<not> json_ws quote_char" "\<not> json_ws CHR ''[''" "\<not> json_ws CHR '']''" "\<not> json_ws CHR ''{''"
  "\<not> json_ws CHR ''}''" "\<not> json_ws CHR '',''" "\<not> json_ws CHR '':''"
  by (simp_all add: json_chars)

lemma quote_char_neq [simp]:
  "quote_char \<noteq> CHR ''[''" "quote_char \<noteq> CHR ''{''" "quote_char \<noteq> CHR '']''" "quote_char \<noteq> CHR ''}''"
  by (simp_all add: quote_char_def)

lemma parse_value_array:
  assumes "skip_ws r = e # q" "e \<noteq> CHR '']''"
  shows "parse_value (Suc n) (CHR ''['' # r) = map_option (\<lambda>(vs, t). (JArr vs, t)) (parse_elems n (e # q))"
  using assms by (simp add: quote_char_def)

lemma parse_value_object:
  assumes "skip_ws r = e # q" "e \<noteq> CHR ''}''"
  shows "parse_value (Suc n) (CHR ''{'' # r) = map_option (\<lambda>(ms, t). (JObj ms, t)) (parse_members n (e # q))"
  using assms by (simp add: quote_char_def)

lemma pretty_length: "sound_json v \<Longrightarrow> 0 < length (pretty d v)"
  using pretty_head [of v d] by auto

lemma parse_pretty_mutual:
  shows "sound_json v \<Longrightarrow> length (pretty d v) \<le> n \<Longrightarrow>
      parse_value n (pretty d v @ rest) = Some (v, rest)"
    and "sound_elems vs \<Longrightarrow> vs \<noteq> [] \<Longrightarrow> length (pretty_elems d vs) < n \<Longrightarrow>
      parse_elems n (pretty_elems d vs @ nl e @ CHR '']'' # rest) = Some (vs, rest)"
    and "sound_members ms \<Longrightarrow> ms \<noteq> [] \<Longrightarrow> length (pretty_members d ms) < n \<Longrightarrow>
      parse_members n (pretty_members d ms @ nl e @ CHR ''}'' # rest) = Some (ms, rest)"
proof (induction d v and d vs and d ms arbitrary: n rest and n e rest and n e rest
    rule: pretty_pretty_elems_pretty_members.induct)
  case (1 d)
  then show ?case by (cases n) (simp_all add: json_chars)
next
  case (2 d b)
  then show ?case by (cases n) (simp_all add: json_chars split: if_splits)
next
  case (4 d s)
  then show ?case by (cases n) (simp_all add: quote_Cons parse_quote_body)
next
  case (5 d vs)
  show ?case
  proof (cases "vs = []")
    case True
    with "5.prems" show ?thesis by (cases n) (simp_all add: quote_char_def)
  next
    case False
    with "5.prems"(2) obtain m where n: "n = Suc m" by (cases n) auto
    with "5.prems" False have len: "length (pretty_elems (Suc d) vs) < m" by (simp add: nl_def)
    have sound: "sound_elems vs" using "5.prems" by simp
    obtain c r where head: "pretty_elems (Suc d) vs = c # r" "\<not> json_ws c" "c \<noteq> CHR '']''"
      using pretty_elems_head [OF sound False] by blast
    note IH = "5.IH" [OF False sound False len, of d rest]
    have "parse_value n (pretty d (JArr vs) @ rest) =
        map_option (\<lambda>(vs, t). (JArr vs, t)) (parse_elems m (pretty_elems (Suc d) vs @ nl d @ CHR '']'' # rest))"
      using False head parse_value_array [of "nl (Suc d) @ pretty_elems (Suc d) vs @ nl d @ CHR '']'' # rest"]
      by (simp add: n)
    with IH show ?thesis by simp
  qed
next
  case (6 d ms)
  show ?case
  proof (cases "ms = []")
    case True
    with "6.prems" show ?thesis by (cases n) (simp_all add: quote_char_def)
  next
    case False
    with "6.prems"(2) obtain m where n: "n = Suc m" by (cases n) auto
    with "6.prems" False have len: "length (pretty_members (Suc d) ms) < m" by (simp add: nl_def)
    have sound: "sound_members ms" using "6.prems" by simp
    obtain r where head: "pretty_members (Suc d) ms = quote_char # r"
      using pretty_members_head [OF False] by blast
    note IH = "6.IH" [OF False sound False len, of d rest]
    have "parse_value n (pretty d (JObj ms) @ rest) =
        map_option (\<lambda>(ms, t). (JObj ms, t)) (parse_members m (pretty_members (Suc d) ms @ nl d @ CHR ''}'' # rest))"
      using False head parse_value_object [of "nl (Suc d) @ pretty_members (Suc d) ms @ nl d @ CHR ''}'' # rest"]
      by (simp add: n)
    with IH show ?thesis by simp
  qed
next
  case (8 d v vs)
  obtain m where n: "n = Suc m" using "8.prems"(3) by (cases n) auto
  have sound: "sound_json v" "sound_elems vs" using "8.prems"(1) by simp_all
  have len: "length (pretty d v) \<le> m" using "8.prems"(3) n by simp
  note head_val = "8.IH"(1) [OF sound(1) len]
  show ?case
  proof (cases "vs = []")
    case True
    have "skip_ws (nl e @ CHR '']'' # rest) = CHR '']'' # rest" by simp
    with True n head_val show ?thesis by simp
  next
    case False
    with "8.prems"(3) n have "length (pretty_elems d vs) < m" by (simp add: nl_def)
    note IH = "8.IH"(2) [OF False sound(2) False this]
    obtain c r where head: "pretty_elems d vs = c # r" "\<not> json_ws c"
      using pretty_elems_head [OF sound(2) False] by blast
    have "parse_elems m (nl d @ pretty_elems d vs @ nl e @ CHR '']'' # rest) =
        parse_elems m (pretty_elems d vs @ nl e @ CHR '']'' # rest)"
      by (rule parse_elems_skip) simp
    with False n head_val IH show ?thesis by simp
  qed
next
  case (10 d m ms)
  obtain k where n: "n = Suc k" using "10.prems"(3) by (cases n) auto
  have sound: "valid_utf8 (fst m)" "sound_json (snd m)" "sound_members ms"
    using "10.prems"(1) by simp_all
  have len: "length (pretty d (snd m)) \<le> k" using "10.prems"(3) n by simp
  have head_val: "parse_value k (CHR '' '' # pretty d (snd m) @ s) = Some (snd m, s)" for s
    using "10.IH"(1) [OF sound(2) len, of s] parse_value_skip [OF skip_ws_space] by simp
  note key = parse_quote_body [OF sound(1)]
  show ?case
  proof (cases "ms = []")
    case True
    have "skip_ws (nl e @ CHR ''}'' # rest) = CHR ''}'' # rest" by simp
    with True n head_val key show ?thesis by (cases m) (simp add: quote_Cons)
  next
    case False
    with "10.prems"(3) n have "length (pretty_members d ms) < k" by (simp add: nl_def)
    note IH = "10.IH"(2) [OF False sound(3) False this]
    have "parse_members k (nl d @ pretty_members d ms @ nl e @ CHR ''}'' # rest) =
        parse_members k (pretty_members d ms @ nl e @ CHR ''}'' # rest)"
      by (rule parse_members_skip) simp
    with False n head_val IH key show ?thesis by (cases m) (simp add: quote_Cons)
  qed
qed simp_all

lemma parse_pretty:
  "sound_json v \<Longrightarrow> length (pretty d v) \<le> n \<Longrightarrow> parse_value n (pretty d v @ rest) = Some (v, rest)"
  by (rule parse_pretty_mutual(1))

section \<open>The fuel is enough\<close>

text \<open>
  Every successful call leaves less text, so a call never needs more fuel than the length of its
  text plus one: with that much, one more unit changes nothing, on any text.
\<close>

lemma skip_ws_length: "length (skip_ws s) \<le> length s"
  by (simp add: skip_ws_def length_dropWhile_le)

lemma parse_string_length: "parse_string s = Some (t, r) \<Longrightarrow> length r < length s"
proof (induction s arbitrary: t r rule: parse_string.induct)
  case (1 s)
  obtain c q where s: "s = c # q" using "1.prems" by (cases s) (simp_all add: parse_string.simps)
  show ?case
  proof (cases "c = quote_char")
    case True
    with "1.prems" s show ?thesis by simp
  next
    case False
    with "1.prems" s obtain u s' where unit: "unescape1 s = Some (u, s')"
      by (subst (asm) parse_string.simps) (auto split: option.splits)
    from parse_string_unit [OF unit] "1.prems" obtain t' where "parse_string s' = Some (t', r)"
      by (cases "parse_string s'") auto
    with "1.IH" [OF s False unit refl] unescape1_length [OF unit] show ?thesis by fastforce
  qed
qed

lemma digits1_length: "digits1 s = Some (t, r) \<Longrightarrow> length r < length s"
proof -
  assume a: "digits1 s = Some (t, r)"
  then have "takeWhile digit s \<noteq> []" "r = dropWhile digit s"
    by (auto simp: digits1_def Let_def split: if_splits)
  moreover have "length s = length (takeWhile digit s) + length (dropWhile digit s)"
    by (metis length_append takeWhile_dropWhile_id)
  ultimately show ?thesis by simp
qed

lemma parse_int_length: "parse_int s = Some (t, r) \<Longrightarrow> length r < length s"
  by (auto simp: parse_int_def dest: digits1_length split: list.splits if_splits)

lemma parse_frac_length: "parse_frac s = Some (t, r) \<Longrightarrow> length r \<le> length s"
  by (fastforce simp: parse_frac_def dest: digits1_length split: list.splits if_splits)

lemma parse_exp_length: "parse_exp s = Some (t, r) \<Longrightarrow> length r \<le> length s"
  by (fastforce simp: parse_exp_def dest: digits1_length split: list.splits if_splits)

lemma parse_number_length: "parse_number s = Some (t, r) \<Longrightarrow> length r < length s"
  by (fastforce simp: parse_number_def bind_eq_Some_conv split: list.splits if_splits
      dest: parse_int_length parse_frac_length parse_exp_length)

lemma parse_lit_length: "w \<noteq> [] \<Longrightarrow> parse_lit w v s = Some (x, r) \<Longrightarrow> length r < length s"
  by (auto simp: parse_lit_def prefix_def split: if_splits)

lemma parse_lengths:
  shows "parse_value n s = Some (v, r) \<Longrightarrow> length r < length s"
    and "parse_elems n s = Some (vs, r) \<Longrightarrow> length r < length s"
    and "parse_members n s = Some (ms, r) \<Longrightarrow> length r < length s"
proof (induction n s and n s and n s arbitrary: v r and vs r and ms r
    rule: parse_value_parse_elems_parse_members.induct)
  case (2 n s)
  have len: "length (skip_ws s) \<le> length s" by (rule skip_ws_length)
  from "2.prems" obtain c q where s: "skip_ws s = c # q" by (auto split: list.splits)
  have skip: "length (skip_ws q) \<le> length q" by (rule skip_ws_length)
  show ?case
    using "2.prems" len s skip "2.IH"
    by (auto split: if_splits list.splits dest!: parse_string_length parse_number_length
        parse_lit_length [rotated]) fastforce+
next
  case (4 n s)
  then show ?case
    by (auto split: option.splits list.splits if_splits)
      (metis dual_order.strict_trans2 length_Cons less_SucI not_less_eq skip_ws_length less_trans Suc_lessD le_less_trans)+
next
  case (6 n s)
  from "6.prems" obtain q where s: "skip_ws s = quote_char # q"
    by (auto split: list.splits if_splits)
  from "6.prems" s obtain k r1 where k: "parse_string q = Some (k, r1)"
    by (auto split: option.splits)
  from "6.prems" s k obtain r2 where r1: "skip_ws r1 = CHR '':'' # r2"
    by (auto split: list.splits if_splits)
  from "6.prems" s k r1 obtain v r3 where v: "parse_value n r2 = Some (v, r3)"
    by (auto split: option.splits)
  from "6.prems" s k r1 v obtain c r4 where r3: "skip_ws r3 = c # r4"
    by (auto split: list.splits)
  have "length r < length r4 \<or> r = r4"
    using "6.prems" s k r1 v r3 "6.IH"(2) by (fastforce split: if_splits)
  moreover have "length r4 < length r3" "length r2 < length r1" "length q < length s"
    using skip_ws_length [of r3] skip_ws_length [of r1] skip_ws_length [of s] r3 r1 s by simp_all
  moreover have "length r1 < length q" using k by (rule parse_string_length)
  moreover have "length r3 < length r2" using "6.IH"(1) s k r1 v by fastforce
  ultimately show ?case by auto
qed simp_all

lemma parse_fuel:
  shows "2 * length s < n \<Longrightarrow> parse_value (Suc n) s = parse_value n s"
    and "Suc (2 * length s) < n \<Longrightarrow> parse_elems (Suc n) s = parse_elems n s"
    and "Suc (2 * length s) < n \<Longrightarrow> parse_members (Suc n) s = parse_members n s"
proof (induction n s and n s and n s rule: parse_value_parse_elems_parse_members.induct)
  case (2 n s)
  show ?case
  proof (cases "skip_ws s")
    case (Cons c q)
    have q: "length (skip_ws q) \<le> length q" "length q < length s"
      using skip_ws_length [of s] skip_ws_length [of q] Cons by simp_all
    have E: "parse_elems (Suc n) (skip_ws q) = parse_elems n (skip_ws q)"
      if "c = CHR ''[''" "skip_ws q = e # q'" "e \<noteq> CHR '']''" for e q'
      using "2.IH"(1) [OF Cons _ that] q "2.prems" that by (simp add: quote_char_def)
    have M: "parse_members (Suc n) (skip_ws q) = parse_members n (skip_ws q)"
      if "c = CHR ''{''" "skip_ws q = e # q'" "e \<noteq> CHR ''}''" for e q'
      using "2.IH"(2) [OF Cons _ _ that] q "2.prems" that by (simp add: quote_char_def)
    show ?thesis
      using E M Cons
      by (simp del: parse_elems.simps parse_members.simps split: list.splits)
  qed simp
next
  case (4 n s)
  have V: "parse_value (Suc n) s = parse_value n s" using "4.IH"(1) "4.prems" by simp
  show ?case
  proof (cases "parse_value n s")
    case (Some p)
    obtain v r where p: "p = (v, r)" by (cases p)
    have E: "parse_elems (Suc n) q = parse_elems n q" if "skip_ws r = CHR '','' # q" for q
    proof -
      have "length r < length s" using Some p parse_lengths(1) by blast
      moreover have "length q < length r" using that skip_ws_length [of r] by simp
      ultimately show ?thesis using "4.IH"(2) [OF Some p [symmetric] that] "4.prems" by simp
    qed
    show ?thesis
      using V Some p E
      by (simp del: parse_value.simps split: list.splits)
  qed (simp add: V del: parse_value.simps)
next
  case (6 n s)
  show ?case
  proof (cases "\<exists>q k r1 r2. skip_ws s = quote_char # q \<and> parse_string q = Some (k, r1) \<and> skip_ws r1 = CHR '':'' # r2")
    case True
    then obtain q k r1 r2 where s: "skip_ws s = quote_char # q" "parse_string q = Some (k, r1)"
      "skip_ws r1 = CHR '':'' # r2" by blast
    have len: "length r2 < length s"
      using parse_string_length [OF s(2)] skip_ws_length [of s] skip_ws_length [of r1] s by simp
    have V: "parse_value (Suc n) r2 = parse_value n r2"
      using "6.IH"(1) s len "6.prems" by simp
    show ?thesis
    proof (cases "parse_value n r2")
      case (Some p)
      obtain v r3 where p: "p = (v, r3)" by (cases p)
      have M: "parse_members (Suc n) q' = parse_members n q'" if "skip_ws r3 = CHR '','' # q'" for q'
      proof -
        have "length r3 < length r2" using Some p parse_lengths(1) by blast
        moreover have "length q' < length r3" using that skip_ws_length [of r3] by simp
        ultimately show ?thesis using "6.IH"(2) s Some p that len "6.prems" by simp
      qed
      show ?thesis
        using V Some p M s
        by (simp del: parse_value.simps split: list.splits)
    qed (simp add: V s del: parse_value.simps)
  next
    case False
    then have "parse_members (Suc k) s = None" for k
      by (simp del: parse_value.simps split: list.splits option.splits) blast
    then show ?thesis by (simp only: )
  qed
qed simp_all

lemma parse_value_fuel: "2 * length s < n \<Longrightarrow> n \<le> m \<Longrightarrow> parse_value m s = parse_value n s"
proof (induction m)
  case (Suc m)
  show ?case
  proof (cases "n = Suc m")
    case False
    with Suc show ?thesis by (metis le_SucE less_le_trans parse_fuel(1))
  qed simp
qed simp

end
