(* ===== verification/Go_Json_Cut.thy ===== *)
theory Go_Json_Cut
  imports Go_Json
begin

text \<open>
  Cut texts: what the parser of \<open>Go_Json\<close> says of the beginning of a text the encoder made. A value
  the encoder writes, all but a number, ends with a byte of its own, so a part of its text is no value.
\<close>

lemma cut_appendE:
  assumes "strict_prefix s (a @ b)"
  obtains "strict_prefix s a" | s' where "s = a @ s'" "strict_prefix s' b"
proof -
  obtain x where x: "a @ b = s @ x" "x \<noteq> []" using assms by (auto simp: strict_prefix_def prefix_def)
  then consider us where "a = s @ us" "us @ b = x" | us where "a @ us = s" "b = us @ x"
    unfolding append_eq_append_conv2 by blast
  then show thesis
  proof cases
    case (1 us)
    then show thesis using that x(2) by (cases "us = []") (auto simp: strict_prefix_def)
  next
    case (2 us)
    then show thesis using that(2) x(2) by (auto simp: strict_prefix_def)
  qed
qed

lemma cut_ConsE:
  assumes "strict_prefix s (c # b)"
  obtains "s = []" | s' where "s = c # s'" "strict_prefix s' b"
  using assms by (cases s) auto

section \<open>Strings\<close>

lemma unicode_escape_suffix: "suffix (snd (unicode_escape u r)) r"
proof -
  have "suffix y x" if "getu4 x = Some (v, y)" for v x y
    using that by (auto simp: getu4_def suffix_def split: list.splits option.splits)
  then show ?thesis
    by (auto simp: unicode_escape_def split: list.splits option.splits intro!: suffix_ConsI)
qed

lemma unescape1_suffix:
  assumes "unescape1 s = Some (t, r)"
  shows "suffix r s"
proof -
  have hex: "suffix y x" if "getu4 x = Some (v, y)" for v x y
    using that by (auto simp: getu4_def suffix_def split: list.splits option.splits)
  have "suffix (snd (unicode_escape u y)) x" if "getu4 x = Some (u, y)" for u x y
    using hex [OF that] unicode_escape_suffix suffix_order.trans by blast
  then have uni: "suffix r x" if "getu4 x = Some (u, y)" "unicode_escape u y = (t, r)" for u x y
    using that by (metis snd_conv)
  show ?thesis
  proof (cases s)
    case Nil
    then show ?thesis using assms by (simp add: unescape1_def)
  next
    case (Cons c q)
    show ?thesis
    proof (cases "c = backslash")
      case True
      then obtain e q' where q: "q = e # q'" using assms Cons by (auto simp: unescape1_def split: list.splits)
      have "suffix r q'"
        using assms Cons True q
        by (auto simp: unescape1_def quote_char_def backslash_def split: if_splits option.splits dest: uni)
      then show ?thesis using Cons q by (auto intro!: suffix_ConsI)
    next
      case False
      then have "r = q \<or> r = drop (rune_len s) s"
        using assms Cons by (auto simp: unescape1_def split: if_splits)
      then show ?thesis using Cons suffix_drop by (auto intro: suffix_ConsI)
    qed
  qed
qed

text \<open>Without a closing quote there is no string.\<close>

lemma parse_string_no_quote: "quote_char \<notin> set s \<Longrightarrow> parse_string s = None"
proof (induction s rule: parse_string.induct)
  case (1 s)
  show ?case
  proof (cases s)
    case Nil
    then show ?thesis by (simp add: parse_string.simps)
  next
    case (Cons c r)
    then have c: "c \<noteq> quote_char" using "1.prems" by auto
    show ?thesis
    proof (cases "unescape1 s")
      case None
      then show ?thesis using Cons c by (subst parse_string.simps) simp
    next
      case (Some x)
      then obtain t s' where x: "unescape1 s = Some (t, s')" by (cases x) auto
      have "quote_char \<notin> set s'" using "1.prems" set_mono_suffix [OF unescape1_suffix [OF x]] by blast
      then have "parse_string s' = None" using "1.IH" [OF Cons c x refl] by simp
      then show ?thesis using parse_string_unit [OF x] by simp
    qed
  qed
qed

lemma cut_butlast: "strict_prefix p u \<Longrightarrow> set p \<subseteq> set (butlast u)"
proof -
  assume "strict_prefix p u"
  then obtain x where "u = p @ x" "x \<noteq> []" by (auto simp: strict_prefix_def prefix_def)
  then show ?thesis by (simp add: butlast_append)
qed

text \<open>A cut in a unit of a string, and one after it.\<close>

lemma parse_string_cut_unit:
  assumes unit: "\<And>x. unescape1 (u @ x) = Some (t, x)" and "quote_char \<notin> set (butlast u)"
    and rest: "\<And>p'. strict_prefix p' b \<Longrightarrow> parse_string p' = None" and p: "strict_prefix p (u @ b)"
  shows "parse_string p = None"
  using p
proof (cases rule: cut_appendE)
  case 1
  then show ?thesis using assms(2) cut_butlast parse_string_no_quote by blast
next
  case (2 p')
  then show ?thesis using parse_string_unit [OF unit, of p'] rest by simp
qed

lemma escape_no_quote: "quote_char \<notin> set (butlast (escape c))"
proof -
  have "hexdigit n \<noteq> quote_char" if "n < 16" for n
    using hexval_hexdigit [OF that] by (auto simp: hexval_def quote_char_def byte_def)
  moreover have "byte c div 16 < 16" using byte_lt [of c] by (simp del: byte_lt)
  ultimately have "hexdigit (byte c div 16) \<noteq> quote_char" .
  then show ?thesis by (auto simp: escape_def quote_char_def backslash_def)
qed

lemma rune_no_quote:
  assumes "rune_len s \<noteq> 0" "\<not> byte (hd s) < 0x80"
  shows "quote_char \<notin> set (take (rune_len s) s)"
proof -
  have quote: "byte quote_char = 0x22" by (simp add: byte_def quote_char_def)
  from assms(1) show ?thesis
  proof (cases s rule: rune_len_cases)
    case (two a b t)
    then show ?thesis using quote by (auto simp: rune_len_Cons2 rune2_def tail_byte_def)
  next
    case (three a b c t)
    then show ?thesis using quote by (auto simp: rune_len_Cons3 rune3_def tail_byte_def split: if_splits)
  next
    case (four a b c d t)
    then show ?thesis using quote by (auto simp: rune_len_Cons4 rune4_def tail_byte_def split: if_splits)
  qed (use assms(2) in simp)
qed

lemma parse_quote_body_cut:
  "valid_utf8 s \<Longrightarrow> strict_prefix p (quote_body s @ [quote_char]) \<Longrightarrow> parse_string p = None"
proof (induction s arbitrary: p rule: quote_body.induct)
  case 1
  then show ?case by (auto elim: cut_ConsE simp: parse_string.simps)
next
  case (2 c s)
  define n where "n = rune_len (c # s)"
  have valid: "n \<noteq> 0" "valid_utf8 (drop (n - 1) s)" using "2.prems" by (simp_all add: n_def)
  show ?case
  proof (cases "byte c < 0x80")
    case True
    then have "n = 1" by (simp add: n_def)
    then have rest: "strict_prefix p' (quote_body s @ [quote_char]) \<Longrightarrow> parse_string p' = None" for p'
      using True valid "2.IH"(1) [OF n_def] by simp
    have "strict_prefix p (escape c @ quote_body s @ [quote_char])" using "2.prems"(2) True by simp
    from parse_string_cut_unit [OF unescape1_escape [OF True] escape_no_quote rest this] show ?thesis .
  next
    case big: False
    have rest: "strict_prefix p' (quote_body (drop (n - 1) s) @ [quote_char]) \<Longrightarrow> parse_string p' = None" for p'
      using "2.IH"(3,4) big valid n_def by (cases "line_sep (take n (c # s))") auto
    show ?thesis
    proof (cases "line_sep (take n (c # s))")
      case True
      let ?u = "backslash # ''u202'' @ [hexdigit (byte (last (take n (c # s))) mod 16)]"
      have "unescape1 (?u @ x) = Some (take n (c # s), x)" for x
        using True
        by (auto simp: line_sep_def unescape1_def getu4_def hexval_def byte_def hexdigit_def
            unicode_escape_def encode_rune_def quote_char_def backslash_def)
      moreover have "quote_char \<notin> set (butlast ?u)" by (simp add: quote_char_def backslash_def)
      moreover have "strict_prefix p (?u @ quote_body (drop (n - 1) s) @ [quote_char])"
        using "2.prems"(2) True big valid(1) by (simp add: n_def Let_def)
      ultimately show ?thesis using parse_string_cut_unit rest by metis
    next
      case False
      have "unescape1 (take n (c # s) @ x) = Some (take n (c # s), x)" for x
        by (rule unescape1_rune) (use n_def valid big in auto)
      moreover have "quote_char \<notin> set (take n (c # s))"
        using rune_no_quote [of "c # s"] big valid(1) by (simp add: n_def)
      then have "quote_char \<notin> set (butlast (take n (c # s)))" using in_set_butlastD by fast
      moreover have "strict_prefix p (take n (c # s) @ quote_body (drop (n - 1) s) @ [quote_char])"
        using "2.prems"(2) False big valid(1) by (simp add: n_def Let_def)
      ultimately show ?thesis using parse_string_cut_unit rest by metis
    qed
  qed
qed

section \<open>Values\<close>

lemma skip_ws_Nil [simp]: "skip_ws [] = []"
  by (simp add: skip_ws_def)

lemma skip_ws_nl [simp]: "skip_ws (nl d) = []"
  using skip_nl [of d "[]"] by simp

lemma parse_blank:
  assumes "skip_ws s = []"
  shows "parse_value n s = None" "parse_elems n s = None" "parse_members n s = None"
proof -
  show v: "parse_value n s = None" for n by (cases n) (simp_all add: assms)
  show "parse_elems n s = None" by (cases n) (simp_all add: v)
  show "parse_members n s = None" by (cases n) (simp_all add: assms)
qed

lemma skip_cut_nl: "strict_prefix s (nl d) \<Longrightarrow> skip_ws s = []"
  using set_mono_prefix [of s "nl d"] by (force simp: skip_ws_def dropWhile_eq_Nil_conv nl_def json_ws_def)

text \<open>A cut after an indented new line is white space or cuts what follows.\<close>

lemma cut_nlE:
  assumes "strict_prefix s (nl d @ x)"
  obtains "skip_ws s = []" | s' where "s = nl d @ s'" "strict_prefix s' x"
  using assms by (cases rule: cut_appendE) (auto intro: that skip_cut_nl)

text \<open>
  One step of the parser on a cut text, for an array, an object, what follows a member of either, and
  the key of a member. The last premise is what is known of a cut further on.
\<close>

lemma parse_array_cut:
  assumes "strict_prefix s (CHR ''['' # nl d @ c # x)" "\<not> json_ws c" "c \<noteq> CHR '']''"
    and "\<And>s'. s = CHR ''['' # nl d @ s' \<Longrightarrow> strict_prefix s' (c # x) \<Longrightarrow> parse_elems m s' = None"
  shows "parse_value (Suc m) s = None"
  using assms(1)
proof (cases rule: cut_ConsE)
  case (2 s1)
  from 2(2) show ?thesis
  proof (cases rule: cut_nlE)
    case (2 s2)
    then show ?thesis
      using parse_value_array [of s1 c _ m] assms(2-4) \<open>s = _\<close> by (cases s2) (auto simp: quote_char_def)
  qed (simp add: 2 quote_char_def)
qed simp

lemma parse_object_cut:
  assumes "strict_prefix s (CHR ''{'' # nl d @ c # x)" "\<not> json_ws c" "c \<noteq> CHR ''}''"
    and "\<And>s'. s = CHR ''{'' # nl d @ s' \<Longrightarrow> strict_prefix s' (c # x) \<Longrightarrow> parse_members m s' = None"
  shows "parse_value (Suc m) s = None"
  using assms(1)
proof (cases rule: cut_ConsE)
  case (2 s1)
  from 2(2) show ?thesis
  proof (cases rule: cut_nlE)
    case (2 s2)
    then show ?thesis
      using parse_value_object [of s1 c _ m] assms(2-4) \<open>s = _\<close> by (cases s2) (auto simp: quote_char_def)
  qed (simp add: 2 quote_char_def)
qed simp

text \<open>What follows a value: the closing byte, or a comma and more. Both cut, nothing or a comma is left.\<close>

definition after_value :: "bool \<Rightarrow> nat \<Rightarrow> string \<Rightarrow> string \<Rightarrow> string" where
  "after_value final d x close = (if final then [] else CHR '','' # nl d @ x) @ close"

lemma after_value_cutE:
  assumes "strict_prefix s (after_value final d x (nl e @ [c]))"
  obtains "skip_ws s = []"
    | s' where "\<not> final" "s = CHR '','' # s'" "skip_ws s' = []"
    | s' where "\<not> final" "s = CHR '','' # nl d @ s'" "strict_prefix s' (x @ nl e @ [c])"
proof (cases final)
  case True
  then have "strict_prefix s (nl e @ [c])" using assms by (simp add: after_value_def)
  then have "skip_ws s = []" by (cases rule: cut_nlE) (auto elim: cut_ConsE)
  then show thesis by (rule that(1))
next
  case False
  then have "strict_prefix s (CHR '','' # nl d @ x @ nl e @ [c])" using assms by (simp add: after_value_def)
  then show thesis
  proof (cases rule: cut_ConsE)
    case (2 s1)
    from 2(2) show thesis by (cases rule: cut_nlE) (use that(2,3) False 2(1) in auto)
  qed (use that(1) in simp)
qed

lemma parse_elems_cut:
  assumes "parse_value k s = Some (v, s1)" "strict_prefix s1 (after_value final d x (nl e @ [CHR '']'']))"
    and "\<And>s'. \<not> final \<Longrightarrow> s1 = CHR '','' # nl d @ s' \<Longrightarrow> strict_prefix s' (x @ nl e @ [CHR '']'']) \<Longrightarrow>
      parse_elems k s' = None"
  shows "parse_elems (Suc k) s = None"
  using assms(2)
proof (cases rule: after_value_cutE)
  case (3 s')
  then have "parse_elems k (nl d @ s') = None" using assms(3) parse_elems_skip [of "nl d @ s'" s' k] by simp
  then show ?thesis using assms(1) 3(2) by simp
qed (simp_all add: assms(1) parse_blank(2))

lemma parse_members_cut:
  assumes "parse_string k1 = Some (t, CHR '':'' # k3)" "parse_value k k3 = Some (v, s1)"
    and "strict_prefix s1 (after_value final d x (nl e @ [CHR ''}'']))"
    and "\<And>s'. \<not> final \<Longrightarrow> s1 = CHR '','' # nl d @ s' \<Longrightarrow> strict_prefix s' (x @ nl e @ [CHR ''}'']) \<Longrightarrow>
      parse_members k s' = None"
  shows "parse_members (Suc k) (quote_char # k1) = None"
  using assms(3)
proof (cases rule: after_value_cutE)
  case (3 s')
  then have "parse_members k (nl d @ s') = None" using assms(4) parse_members_skip [of "nl d @ s'" s' k] by simp
  then show ?thesis using assms(1,2) 3(2) by simp
qed (simp_all add: assms(1,2) parse_blank(3))

lemma parse_key_cut:
  assumes "valid_utf8 t" "strict_prefix s (quote t @ '': '' @ x)"
    and "\<And>s'. s = quote t @ '': '' @ s' \<Longrightarrow> strict_prefix s' x \<Longrightarrow> parse_value k s' = None \<or>
      parse_members (Suc k) s = None"
  shows "parse_members (Suc k) s = None"
proof -
  have "strict_prefix s (quote_char # (quote_body t @ [quote_char]) @ CHR '':'' # CHR '' '' # x)"
    using assms(2) by (simp add: quote_Cons)
  then show ?thesis
  proof (cases rule: cut_ConsE)
    case k1: (2 k1)
    from k1(2) show ?thesis
    proof (cases rule: cut_appendE)
      case 1
      then show ?thesis using parse_quote_body_cut [OF assms(1)] k1(1) by simp
    next
      case k2: (2 k2)
      have key: "parse_string k1 = Some (t, k2)" using parse_quote_body [OF assms(1)] k2(1) by simp
      from k2(2) show ?thesis
      proof (cases rule: cut_ConsE)
        case k3: (2 k3)
        from k3(2) show ?thesis
        proof (cases rule: cut_ConsE)
          case 1
          then show ?thesis using key k1(1) k3(1) parse_blank(1) by simp
        next
          case (2 s')
          have "parse_value k k3 = parse_value k s'" using 2(1) by (intro parse_value_skip) simp
          moreover have "s = quote t @ '': '' @ s'" using 2(1) k1(1) k2(1) k3(1) by (simp add: quote_Cons)
          note assms(3) [OF this 2(2)]
          moreover have "parse_members (Suc k) s = None" if "parse_value k k3 = None"
            using that key k3(1) unfolding k1(1) by simp
          ultimately show ?thesis by auto
        qed
      qed (simp add: key k1(1))
    qed
  qed simp
qed

lemma parse_cut_mutual:
  shows "sound_json v \<Longrightarrow> strict_prefix s (pretty d v) \<Longrightarrow> length s \<le> n \<Longrightarrow> parse_value n s = None"
    and "sound_elems vs \<Longrightarrow> vs \<noteq> [] \<Longrightarrow> strict_prefix s (pretty_elems d vs @ nl e @ [CHR '']'']) \<Longrightarrow>
      length s < n \<Longrightarrow> parse_elems n s = None"
    and "sound_members ms \<Longrightarrow> ms \<noteq> [] \<Longrightarrow> strict_prefix s (pretty_members d ms @ nl e @ [CHR ''}'']) \<Longrightarrow>
      length s < n \<Longrightarrow> parse_members n s = None"
proof (induction d v and d vs and d ms arbitrary: n s and n e s and n e s
    rule: pretty_pretty_elems_pretty_members.induct)
  case (1 d)
  then show ?case
    by (cases n) (auto simp: json_chars less_Suc_eq elim!: cut_ConsE)
next
  case (2 d b)
  then show ?case
    by (cases n) (auto simp: json_chars split: if_splits elim!: cut_ConsE)
next
  case (4 d x)
  from "4.prems"(2) have "strict_prefix s (quote_char # quote_body x @ [quote_char])" by (simp add: quote_Cons)
  then show ?case
  proof (cases rule: cut_ConsE)
    case (2 s')
    have "parse_string s' = None" using "4.prems"(1) parse_quote_body_cut [OF _ 2(2)] by simp
    then show ?thesis using 2(1) by (cases n) simp_all
  qed (simp add: parse_blank(1))
next
  case (5 d vs)
  show ?case
  proof (cases "vs = []")
    case True
    then show ?thesis using "5.prems" by (cases n) (auto simp: quote_char_def elim!: cut_ConsE)
  next
    case False
    have sound: "sound_elems vs" using "5.prems"(1) by simp
    obtain c r where head: "pretty_elems (Suc d) vs = c # r" "\<not> json_ws c" "c \<noteq> CHR '']''"
      using pretty_elems_head [OF sound False] by blast
    show ?thesis
    proof (cases n)
      case (Suc m)
      show ?thesis
        unfolding Suc
      proof (rule parse_array_cut [of s "Suc d" c "r @ nl d @ [CHR '']'']"])
        fix s' assume s': "s = CHR ''['' # nl (Suc d) @ s'" "strict_prefix s' (c # r @ nl d @ [CHR '']''])"
        then have "length s' < m" using "5.prems"(3) Suc by (simp add: nl_def)
        then show "parse_elems m s' = None" using "5.IH" [OF False sound False, of s' d] s'(2) head(1) by simp
      qed (use "5.prems"(2) False head in simp_all)
    qed simp
  qed
next
  case (6 d ms)
  show ?case
  proof (cases "ms = []")
    case True
    then show ?thesis using "6.prems" by (cases n) (auto simp: quote_char_def elim!: cut_ConsE)
  next
    case False
    have sound: "sound_members ms" using "6.prems"(1) by simp
    obtain r where head: "pretty_members (Suc d) ms = quote_char # r" using pretty_members_head [OF False] by blast
    show ?thesis
    proof (cases n)
      case (Suc m)
      show ?thesis
        unfolding Suc
      proof (rule parse_object_cut [of s "Suc d" quote_char "r @ nl d @ [CHR ''}'']"])
        fix s' assume s': "s = CHR ''{'' # nl (Suc d) @ s'" "strict_prefix s' (quote_char # r @ nl d @ [CHR ''}''])"
        then have "length s' < m" using "6.prems"(3) Suc by (simp add: nl_def)
        then show "parse_members m s' = None" using "6.IH" [OF False sound False, of s' d] s'(2) head by simp
      qed (use "6.prems"(2) False head in simp_all)
    qed simp
  qed
next
  case (8 d v vs)
  obtain k where n: "n = Suc k" using "8.prems"(4) by (cases n) auto
  have sound: "sound_json v" "sound_elems vs" using "8.prems"(1) by simp_all
  have "strict_prefix s (pretty d v @ after_value (vs = []) d (pretty_elems d vs) (nl e @ [CHR '']'']))"
    using "8.prems"(3) by (auto simp: after_value_def split: if_splits)
  then show ?case
  proof (cases rule: cut_appendE)
    case 1
    then show ?thesis using "8.IH"(1) [OF sound(1) 1] "8.prems"(4) n by simp
  next
    case (2 s1)
    have "parse_value k s = Some (v, s1)"
      using "8.prems"(4) n unfolding 2(1) by (intro parse_pretty [OF sound(1)]) simp
    then show ?thesis
      unfolding n using 2(2)
    proof (rule parse_elems_cut)
      fix s' assume "vs \<noteq> []" "s1 = CHR '','' # nl d @ s'" "strict_prefix s' (pretty_elems d vs @ nl e @ [CHR '']''])"
      then show "parse_elems k s' = None" using "8.IH"(2) sound(2) "8.prems"(4) 2(1) n by simp
    qed
  qed
next
  case (10 d m ms)
  obtain k where n: "n = Suc k" using "10.prems"(4) by (cases n) auto
  have sound: "valid_utf8 (fst m)" "sound_json (snd m)" "sound_members ms" using "10.prems"(1) by simp_all
  have cut: "strict_prefix s (quote (fst m) @ '': '' @ pretty d (snd m) @
      after_value (ms = []) d (pretty_members d ms) (nl e @ [CHR ''}'']))"
    using "10.prems"(3) by (auto simp: after_value_def split: if_splits)
  show ?case
    unfolding n
  proof (rule parse_key_cut [OF sound(1) cut])
    fix s' assume s': "s = quote (fst m) @ '': '' @ s'" "strict_prefix s' (pretty d (snd m) @
      after_value (ms = []) d (pretty_members d ms) (nl e @ [CHR ''}'']))"
    from s'(2) show "parse_value k s' = None \<or> parse_members (Suc k) s = None"
    proof (cases rule: cut_appendE)
      case 1
      then show ?thesis using "10.IH"(1) [OF sound(2) 1] "10.prems"(4) s'(1) n by simp
    next
      case (2 s1)
      have key: "parse_string (quote_body (fst m) @ quote_char # '': '' @ s') = Some (fst m, CHR '':'' # CHR '' '' # s')"
        using parse_quote_body [OF sound(1)] by simp
      have "parse_value k s' = Some (snd m, s1)"
        using "10.prems"(4) s'(1) n unfolding 2(1) by (intro parse_pretty [OF sound(2)]) simp
      then have val: "parse_value k (CHR '' '' # s') = Some (snd m, s1)"
        using parse_value_skip [OF skip_ws_space, of k s'] by simp
      have "parse_members (Suc k) (quote_char # quote_body (fst m) @ quote_char # '': '' @ s') = None"
      proof (rule parse_members_cut [OF key val 2(2)])
        fix t assume "ms \<noteq> []" "s1 = CHR '','' # nl d @ t" "strict_prefix t (pretty_members d ms @ nl e @ [CHR ''}''])"
        then show "parse_members k t = None" using "10.IH"(2) sound(3) "10.prems"(4) s'(1) 2(1) n by simp
      qed
      then have "parse_members (Suc k) s = None" unfolding s'(1) by (simp only: quote_Cons append.simps append_assoc)
      then show ?thesis ..
    qed
  qed
qed simp_all

text \<open>A text of the encoder that ends early is no value.\<close>

lemma parse_cut: "sound_json v \<Longrightarrow> strict_prefix s (pretty d v) \<Longrightarrow> length s \<le> n \<Longrightarrow> parse_value n s = None"
  by (rule parse_cut_mutual(1))

end
