(* ===== verification/Api_Types.thy ===== *)
theory Api_Types
  imports Podlock_Prelude
begin

text \<open>
  The data of \<open>api/v1alpha1/landlockprofile_types.go\<close> and \<open>pkg/constants/labels.go\<close>. Of a
  Kubernetes object the model keeps what the code reads or writes: name, namespace, finalizers,
  deletion timestamp and labels; the status is not read anywhere. A slice is a list: the code
  only takes its length, ranges over it and appends to it, so nil and empty slices do not differ.
  Maps keep the nil map apart from the empty one, since \<open>CreateContainer\<close> tests for nil.
\<close>

record Profile =
  ReadOnly :: "string list"
  ReadWrite :: "string list"
  ReadExec :: "string list"
  ReadWriteExec :: "string list"

text \<open>
  Profiles are ordered by what they list. The order is not antisymmetric: profiles that list the same
  paths in another order, or more than once, are below each other.
\<close>

instantiation Profile_ext :: (type) preorder
begin

definition less_eq_Profile_ext :: "'a Profile_scheme \<Rightarrow> 'a Profile_scheme \<Rightarrow> bool" where
  "p \<le> q \<longleftrightarrow> set (ReadOnly p) \<subseteq> set (ReadOnly q) \<and> set (ReadWrite p) \<subseteq> set (ReadWrite q) \<and>
     set (ReadExec p) \<subseteq> set (ReadExec q) \<and> set (ReadWriteExec p) \<subseteq> set (ReadWriteExec q)"

definition less_Profile_ext :: "'a Profile_scheme \<Rightarrow> 'a Profile_scheme \<Rightarrow> bool" where
  "p < q \<longleftrightarrow> p \<le> q \<and> \<not> q \<le> (p :: 'a Profile_scheme)"

instance
  by standard (auto simp: less_eq_Profile_ext_def less_Profile_ext_def)

end

type_synonym ProfileByBinary = "Profile go_map"

record LandlockProfileSpec =
  ProfilesByContainer :: "ProfileByBinary go_map"

text \<open>The part of \<open>metav1.ObjectMeta\<close> in use; \<open>None\<close> is the zero deletion timestamp.\<close>

record ObjectMeta =
  Name :: string
  Namespace :: string
  Labels :: "string go_map"
  Finalizers :: "string list"
  DeletionTimestamp :: "nat option"

record LandlockProfile = ObjectMeta +
  Spec :: LandlockProfileSpec

record NamespacedName =
  nn_namespace :: string
  nn_name :: string

definition LandlockProfileFinalizer :: string where
  "LandlockProfileFinalizer = ''podlock.kubewarden.io/landlockprofile''"

definition GroupVersion_Group :: string where
  "GroupVersion_Group = ''podlock.kubewarden.io''"

definition LandlockVersionNodeLabelKey :: string where
  "LandlockVersionNodeLabelKey = ''podlock.kubewarden.io/landlock-version''"

definition PodProfileLabel :: string where
  "PodProfileLabel = ''podlock.kubewarden.io/profile''"

definition deleting :: "'a ObjectMeta_scheme \<Rightarrow> bool" where
  "deleting o' \<longleftrightarrow> DeletionTimestamp o' \<noteq> None"

text \<open>All paths a profile names, and the binaries of a specification with their profiles.\<close>

definition profile_paths :: "Profile \<Rightarrow> string list" where
  "profile_paths p = ReadOnly p @ ReadWrite p @ ReadExec p @ ReadWriteExec p"

lemma profile_paths_mono: "p \<le> q \<Longrightarrow> set (profile_paths p) \<subseteq> set (profile_paths q)"
  by (auto simp: profile_paths_def less_eq_Profile_ext_def)

definition binary_profiles :: "LandlockProfileSpec \<Rightarrow> (string \<times> string \<times> Profile) list" where
  "binary_profiles s =
     concat (map (\<lambda>(c, m). map (\<lambda>(b, p). (c, b, p)) (entries m)) (entries (ProfilesByContainer s)))"

lemma in_binary_profiles:
  "(c, b, p) \<in> set (binary_profiles s) \<longleftrightarrow>
     (\<exists>m. (c, m) \<in> set (entries (ProfilesByContainer s)) \<and> (b, p) \<in> set (entries m))"
  by (force simp: binary_profiles_def)

section \<open>Finalizer utilities\<close>

text \<open>
  The three functions of controller-runtime's \<open>controllerutil\<close> the code calls, as parameters on
  the finalizers of an object: \<open>ContainsFinalizer\<close>, \<open>AddFinalizer\<close>, \<open>RemoveFinalizer\<close>.
  \<open>finalizer_laws\<close> is their documented behaviour: a test for membership, an addition that keeps
  the others, and the removal of the named one.
\<close>

record controllerutil =
  cu_contains :: "string list \<Rightarrow> string \<Rightarrow> bool"
  cu_add :: "string list \<Rightarrow> string \<Rightarrow> string list"
  cu_remove :: "string list \<Rightarrow> string \<Rightarrow> string list"

definition finalizer_laws :: "controllerutil \<Rightarrow> bool" where
  "finalizer_laws cu \<longleftrightarrow>
     (\<forall>fs f. cu_contains cu fs f \<longleftrightarrow> f \<in> set fs) \<and>
     (\<forall>fs f. set (cu_add cu fs f) = insert f (set fs)) \<and>
     (\<forall>fs f. set (cu_remove cu fs f) = set fs - {f})"

lemma finalizer_lawsD:
  assumes "finalizer_laws cu"
  shows "cu_contains cu fs f \<longleftrightarrow> f \<in> set fs"
    and "set (cu_add cu fs f) = insert f (set fs)"
    and "set (cu_remove cu fs f) = set fs - {f}"
  using assms by (simp_all add: finalizer_laws_def)

definition list_controllerutil :: controllerutil where
  "list_controllerutil =
     \<lparr>cu_contains = (\<lambda>fs f. f \<in> set fs),
      cu_add = (\<lambda>fs f. if f \<in> set fs then fs else fs @ [f]),
      cu_remove = (\<lambda>fs f. removeAll f fs)\<rparr>"

lemma list_controllerutil_laws: "finalizer_laws list_controllerutil"
  by (auto simp: finalizer_laws_def list_controllerutil_def)

end
