(* ===== verification/Profile_Codec.thy ===== *)
theory Profile_Codec
  imports Go_Json_Cut Api_Types "HOL-Library.AList"
begin

text \<open>
  The JSON form of \<open>ProfileByBinary\<close>, by the struct tags of \<open>api/v1alpha1/landlockprofile_types.go\<close>:
  what \<open>encoder.Encode(profileByBinary)\<close> writes in the NRI plugin and what
  \<open>json.NewDecoder(file).Decode(profilesByBinary)\<close> reads in \<open>seal\<close>. The contract between the two
  programs is the locale \<open>profile_codec\<close>: the reader finds for every binary the profile that
  was written, and of a text that was cut short it never reads anything else.
\<close>

section \<open>Encoding\<close>

text \<open>\<open>omitempty\<close>: a field with an empty slice is left out. Fields come in the struct's order.\<close>

definition field_json :: "string \<Rightarrow> string list \<Rightarrow> (string \<times> json) list" where
  "field_json name paths = (if paths = [] then [] else [(name, JArr (map JStr paths))])"

definition profile_json :: "Profile \<Rightarrow> json" where
  "profile_json p =
     JObj (field_json ''readOnly'' (ReadOnly p) @
           field_json ''readWrite'' (ReadWrite p) @
           field_json ''readExec'' (ReadExec p) @
           field_json ''readWriteExec'' (ReadWriteExec p))"

text \<open>A map is an object with sorted keys, a nil map is \<open>null\<close>; the encoder ends the text with a
  new line.\<close>

definition profiles_json :: "ProfileByBinary \<Rightarrow> json" where
  "profiles_json m =
     (case m of
        None \<Rightarrow> JNull
      | Some xs \<Rightarrow> JObj (map (\<lambda>(k, p). (k, profile_json p)) (sort_key fst xs)))"

definition encode_profiles :: "ProfileByBinary \<Rightarrow> string" where
  "encode_profiles m = pretty 0 (profiles_json m) @ [CHR 0x0A]"

section \<open>Decoding\<close>

definition type_error :: "string \<Rightarrow> go_error" where
  "type_error t = Errorf (''json: cannot unmarshal value into Go value of type '' @ t)"

fun unmarshal_elem :: "json \<Rightarrow> string result" where
  "unmarshal_elem (JStr s) = Inr s"
| "unmarshal_elem JNull = Inr []"
| "unmarshal_elem j = Inl (type_error ''string'')"

fun unmarshal_elems :: "json list \<Rightarrow> string list result" where
  "unmarshal_elems [] = Inr []"
| "unmarshal_elems (j # js) =
     (case unmarshal_elem j of
        Inl e \<Rightarrow> Inl e
      | Inr s \<Rightarrow> (case unmarshal_elems js of Inl e \<Rightarrow> Inl e | Inr ss \<Rightarrow> Inr (s # ss)))"

fun unmarshal_slice :: "json \<Rightarrow> string list result" where
  "unmarshal_slice JNull = Inr []"
| "unmarshal_slice (JArr js) = unmarshal_elems js"
| "unmarshal_slice j = Inl (type_error ''[]string'')"

text \<open>
  A key names a field when it equals the tag up to the case of ASCII letters (the tags hold no
  letter that folds to another script); other keys are ignored.
\<close>

definition fold_name :: "string \<Rightarrow> string" where
  "fold_name k = map (\<lambda>c. if 65 \<le> byte c \<and> byte c \<le> 90 then char_of (byte c + 32) else c) k"

definition unmarshal_field :: "string \<Rightarrow> json \<Rightarrow> Profile \<Rightarrow> Profile result" where
  "unmarshal_field k j p =
     (if fold_name k \<in> {''readonly'', ''readwrite'', ''readexec'', ''readwriteexec''} then
        (case unmarshal_slice j of
           Inl e \<Rightarrow> Inl e
         | Inr ss \<Rightarrow>
             Inr (if fold_name k = ''readonly'' then p\<lparr>ReadOnly := ss\<rparr>
                  else if fold_name k = ''readwrite'' then p\<lparr>ReadWrite := ss\<rparr>
                  else if fold_name k = ''readexec'' then p\<lparr>ReadExec := ss\<rparr>
                  else p\<lparr>ReadWriteExec := ss\<rparr>))
      else Inr p)"

fun unmarshal_fields :: "(string \<times> json) list \<Rightarrow> Profile \<Rightarrow> Profile result" where
  "unmarshal_fields [] p = Inr p"
| "unmarshal_fields ((k, j) # ms) p =
     (case unmarshal_field k j p of Inl e \<Rightarrow> Inl e | Inr p' \<Rightarrow> unmarshal_fields ms p')"

definition zero_profile :: Profile where
  "zero_profile = \<lparr>ReadOnly = [], ReadWrite = [], ReadExec = [], ReadWriteExec = []\<rparr>"

fun unmarshal_profile :: "json \<Rightarrow> Profile result" where
  "unmarshal_profile JNull = Inr zero_profile"
| "unmarshal_profile (JObj ms) = unmarshal_fields ms zero_profile"
| "unmarshal_profile j = Inl (type_error ''v1alpha1.Profile'')"

fun unmarshal_members ::
  "(string \<times> json) list \<Rightarrow> (string \<times> Profile) list \<Rightarrow> (string \<times> Profile) list result" where
  "unmarshal_members [] xs = Inr xs"
| "unmarshal_members ((k, j) # ms) xs =
     (case unmarshal_profile j of
        Inl e \<Rightarrow> Inl e
      | Inr p \<Rightarrow> unmarshal_members ms (AList.update k p xs))"

fun unmarshal_profiles :: "json \<Rightarrow> ProfileByBinary result" where
  "unmarshal_profiles JNull = Inr None"
| "unmarshal_profiles (JObj ms) =
     (case unmarshal_members ms [] of Inl e \<Rightarrow> Inl e | Inr xs \<Rightarrow> Inr (Some xs))"
| "unmarshal_profiles j = Inl (type_error ''v1alpha1.ProfileByBinary'')"

definition decode_profiles :: "string \<Rightarrow> ProfileByBinary result" where
  "decode_profiles s =
     (case parse_value (Suc (2 * length s)) s of
        None \<Rightarrow> Inl (Errorf (if skip_ws s = [] then ''EOF'' else ''invalid JSON input''))
      | Some (j, rest) \<Rightarrow> unmarshal_profiles j)"

section \<open>Round trip\<close>

text \<open>The strings Go writes unchanged: valid UTF-8, which every string of an API object is.\<close>

definition utf8_profile :: "Profile \<Rightarrow> bool" where
  "utf8_profile p \<longleftrightarrow> (\<forall>q \<in> set (profile_paths p). valid_utf8 q)"

definition utf8_profiles :: "ProfileByBinary \<Rightarrow> bool" where
  "utf8_profiles m \<longleftrightarrow> (\<forall>(k, p) \<in> set (entries m). valid_utf8 k \<and> utf8_profile p)"

lemma unmarshal_elems_strings [simp]: "unmarshal_elems (map JStr ss) = Inr ss"
  by (induction ss) auto

lemma fold_names [simp]:
  "fold_name ''readOnly'' = ''readonly''" "fold_name ''readWrite'' = ''readwrite''"
  "fold_name ''readExec'' = ''readexec''" "fold_name ''readWriteExec'' = ''readwriteexec''"
proof -
  have "char_of (byte c + 32) = d" if "byte d = byte c + 32" for c d
    using that char_of_byte [of d] by simp
  note up = this [of "CHR ''o''" "CHR ''O''"] this [of "CHR ''w''" "CHR ''W''"] this [of "CHR ''e''" "CHR ''E''"]
  show "fold_name ''readOnly'' = ''readonly''" "fold_name ''readWrite'' = ''readwrite''"
    "fold_name ''readExec'' = ''readexec''" "fold_name ''readWriteExec'' = ''readwriteexec''"
    using up by (simp_all add: fold_name_def byte_def)
qed

lemma unmarshal_fields_append:
  "unmarshal_fields (xs @ ys) p =
     (case unmarshal_fields xs p of Inl e \<Rightarrow> Inl e | Inr p' \<Rightarrow> unmarshal_fields ys p')"
  by (induction xs p rule: unmarshal_fields.induct) (auto split: sum.splits)

lemma unmarshal_field_json:
  "unmarshal_fields (field_json ''readOnly'' ss) p = Inr (if ss = [] then p else p\<lparr>ReadOnly := ss\<rparr>)"
  "unmarshal_fields (field_json ''readWrite'' ss) p = Inr (if ss = [] then p else p\<lparr>ReadWrite := ss\<rparr>)"
  "unmarshal_fields (field_json ''readExec'' ss) p = Inr (if ss = [] then p else p\<lparr>ReadExec := ss\<rparr>)"
  "unmarshal_fields (field_json ''readWriteExec'' ss) p =
     Inr (if ss = [] then p else p\<lparr>ReadWriteExec := ss\<rparr>)"
  by (simp_all add: field_json_def unmarshal_field_def)

lemma unmarshal_profile_json [simp]: "unmarshal_profile (profile_json p) = Inr p"
  by (cases p)
    (simp add: profile_json_def unmarshal_fields_append unmarshal_field_json zero_profile_def)

lemma unmarshal_members_json:
  "unmarshal_members (map (\<lambda>(k, p). (k, profile_json p)) xs) ys =
     Inr (fold (\<lambda>(k, p). AList.update k p) xs ys)"
  by (induction xs arbitrary: ys) auto

lemma map_of_fold_update:
  "distinct (map fst xs) \<Longrightarrow>
     map_of (fold (\<lambda>(k, p). AList.update k p) xs ys) = map_of ys ++ map_of xs"
proof (induction xs arbitrary: ys)
  case (Cons x xs)
  obtain k p where x: "x = (k, p)" by (cases x)
  from Cons have "map_of (fold (\<lambda>(k, p). AList.update k p) (x # xs) ys) =
      map_of (AList.update k p ys) ++ map_of xs" by (simp add: x)
  also have "\<dots> = map_of ys ++ map_of (x # xs)"
    using Cons.prems by (auto simp: x update_conv' fun_eq_iff map_add_def
        map_of_eq_None_iff image_iff split: option.splits)
  finally show ?case .
qed simp

lemma sound_field_json:
  "sound_members (field_json k ss) \<longleftrightarrow> (ss = [] \<or> valid_utf8 k \<and> (\<forall>s \<in> set ss. valid_utf8 s))"
  by (auto simp: field_json_def sound_elems_iff)

lemma sound_members_append: "sound_members (xs @ ys) \<longleftrightarrow> sound_members xs \<and> sound_members ys"
  by (induction xs) auto

lemma sound_profile_json: "utf8_profile p \<Longrightarrow> sound_json (profile_json p)"
  by (auto simp: profile_json_def sound_members_append sound_field_json utf8_profile_def
      profile_paths_def byte_def)

lemma sound_profiles_json: "utf8_profiles m \<Longrightarrow> sound_json (profiles_json m)"
  by (fastforce simp: profiles_json_def sound_members_iff utf8_profiles_def
      intro: sound_profile_json split: option.splits)

lemma decode_encode:
  assumes "utf8_profiles m"
  shows "decode_profiles (encode_profiles m) = unmarshal_profiles (profiles_json m)"
proof -
  have "parse_value (Suc (2 * length (encode_profiles m))) (encode_profiles m) =
      Some (profiles_json m, [CHR 0x0A])"
    unfolding encode_profiles_def
    by (rule parse_pretty [OF sound_profiles_json [OF assms]]) simp
  then show ?thesis by (simp add: decode_profiles_def)
qed

lemma decode_encode_lookup:
  assumes "map_wf m" "utf8_profiles m"
  shows "\<exists>m'. decode_profiles (encode_profiles m) = Inr m' \<and> lookup m' = lookup m"
proof (cases m)
  case None
  then show ?thesis using decode_encode [OF assms(2)] by (simp add: profiles_json_def)
next
  case (Some xs)
  let ?ys = "fold (\<lambda>(k, p). AList.update k p) (sort_key fst xs) []"
  have "decode_profiles (encode_profiles m) = Inr (Some ?ys)"
    using decode_encode [OF assms(2)] Some
    by (simp add: profiles_json_def unmarshal_members_json)
  moreover have dist: "distinct (map fst (sort_key fst xs))"
    using assms(1) Some by (simp add: map_wf_def distinct_map)
  then have "map_of ?ys = map_of (sort_key fst xs)" by (simp add: map_of_fold_update)
  then have "lookup (Some ?ys) = lookup m"
    using Some assms(1) dist by (simp add: fun_eq_iff map_wf_def)
      (metis map_of_inject_set set_sort)
  ultimately show ?thesis by blast
qed

text \<open>A write that fails leaves a beginning of the text. Without its last byte, a new line, it is still
  whole; any shorter one is not decoded.\<close>

lemma decode_cut:
  assumes "utf8_profiles m" "prefix s (encode_profiles m)"
  shows "decode_profiles s = decode_profiles (encode_profiles m) \<or> (\<exists>e. decode_profiles s = Inl e)"
proof -
  note sound = sound_profiles_json [OF assms(1)]
  have "prefix s (pretty 0 (profiles_json m)) \<or> s = encode_profiles m"
    using assms(2) by (auto simp: encode_profiles_def prefix_snoc)
  then consider "s = encode_profiles m" | "s = pretty 0 (profiles_json m)"
    | "strict_prefix s (pretty 0 (profiles_json m))" by (auto simp: strict_prefix_def)
  then show ?thesis
  proof cases
    case 2
    have "parse_value (Suc (2 * length s)) s = Some (profiles_json m, [])"
      using parse_pretty [OF sound, of 0 "Suc (2 * length s)" "[]"] unfolding 2 append_Nil2 by linarith
    then show ?thesis using decode_encode [OF assms(1)] by (simp add: decode_profiles_def)
  next
    case 3
    then have "parse_value (Suc (2 * length s)) s = None" by (rule parse_cut [OF sound]) simp
    then show ?thesis by (simp add: decode_profiles_def)
  qed simp
qed

text \<open>The contract between the writer and the reader.\<close>

locale profile_codec =
  fixes enc :: "'m \<Rightarrow> string"
    and dec :: "string \<Rightarrow> 'm result"
    and find :: "'m \<Rightarrow> string \<Rightarrow> 'p option"
    and encodable :: "'m \<Rightarrow> bool"
  assumes dec_enc: "encodable m \<Longrightarrow> \<exists>m'. dec (enc m) = Inr m' \<and> find m' = find m"
    and dec_cut: "encodable m \<Longrightarrow> prefix s (enc m) \<Longrightarrow> dec s = dec (enc m) \<or> (\<exists>e. dec s = Inl e)"
begin

text \<open>A reader that looks one key up in what it decodes.\<close>

lemma read_written:
  assumes "encodable m"
  shows "(case dec (enc m) of Inl e \<Rightarrow> f e | Inr m' \<Rightarrow> g (find m' k)) = g (find m k)"
  using dec_enc [OF assms] by auto

lemma read_cut:
  assumes "encodable m" "prefix s (enc m)" "dec s = Inr m'"
  shows "find m' = find m"
  using dec_enc [OF assms(1)] dec_cut [OF assms(1,2)] assms(3) by auto

lemma enc_inject:
  assumes "encodable m" "encodable n" "enc m = enc n"
  shows "find m = find n"
  using dec_enc [OF assms(1)] dec_enc [OF assms(2)] assms(3) by auto

end

interpretation codec: profile_codec encode_profiles decode_profiles lookup
    "\<lambda>m. map_wf m \<and> utf8_profiles m"
  by unfold_locales (simp_all add: decode_encode_lookup decode_cut)

section \<open>Properties\<close>

text \<open>C19: The profile file is a faithful copy of the profiles. What the plugin writes for a map of
  profiles, \<open>seal\<close> decodes without an error to a map with the same profile under every binary, and only
  maps with the same profiles have the same text; of a text that was cut short, as a write that fails
  leaves it, \<open>seal\<close> decodes the same or nothing. The strings are valid UTF-8, as in any object the
  API server stores.\<close>

theorem profile_json_roundtrip:
  assumes "map_wf m" "utf8_profiles m"
  shows "(\<exists>m'. decode_profiles (encode_profiles m) = Inr m' \<and> lookup m' = lookup m) \<and>
    (\<forall>n. map_wf n \<and> utf8_profiles n \<and> encode_profiles n = encode_profiles m \<longrightarrow> lookup n = lookup m) \<and>
    (\<forall>s m'. prefix s (encode_profiles m) \<and> decode_profiles s = Inr m' \<longrightarrow> lookup m' = lookup m)"
  using codec.dec_enc [of m] codec.enc_inject [of _ m] codec.read_cut [of m] assms by blast

theorem profile_json_roundtrip_witness:
  "\<exists>m'. decode_profiles (encode_profiles (Some [(''/bin/sh'', zero_profile\<lparr>ReadOnly := [''/a b'', ''/<c>'']\<rparr>)])) = Inr m' \<and>
     lookup m' ''/bin/sh'' = Some (zero_profile\<lparr>ReadOnly := [''/a b'', ''/<c>'']\<rparr>) \<and> lookup m' ''/bin/ls'' = None"
proof -
  let ?m = "Some [(''/bin/sh'', zero_profile\<lparr>ReadOnly := [''/a b'', ''/<c>'']\<rparr>)]"
  have "map_wf ?m" "utf8_profiles ?m" by code_simp+
  from profile_json_roundtrip [OF this] show ?thesis by fastforce
qed

end
