(* ===== verification/Nri_Filesystem.thy ===== *)
theory Nri_Filesystem
  imports Nri_Paths Profile_Codec Go_Sha256
begin

text \<open>
  The operations of \<open>internal/nri/filesystem.go\<close> on the host's files, and \<open>copyBinaries\<close> of
  \<open>cmd/nri/plugin_mode.go\<close>. Deferred \<open>Close\<close> calls change no file and their errors are dropped by
  the code, so they do not show. A \<open>range\<close> over the map of binaries is a loop over its entries.
\<close>

section \<open>filesystem.go\<close>

definition fileSha256 :: "string \<Rightarrow> host \<Rightarrow> string result" where
  "fileSha256 path h =
     (case os_Open path h of
        Inl e \<Rightarrow> Inl (Wrap (''failed to open file '' @ squote path @ '': '') e)
      | Inr f \<Rightarrow>
          (case fs_read f h of
             Inl e \<Rightarrow> Inl (Wrap (''failed to compute SHA256 of file '' @ squote path @ '': '') e)
           | Inr b \<Rightarrow> Inr (sha256_hex b)))"

definition copy_file :: "string \<Rightarrow> string \<Rightarrow> (unit, host) effect" where
  "copy_file src dst =
     (let dstDir = Dir dst in
      attempt (os_MkdirAll dstDir 0x1E8) (Wrap (''failed to create '' @ dstDir @ '' directory: ''))
        (\<lambda>_. attempt (\<lambda>h. (os_Open src h, h)) (Wrap ''failed to open source file: '')
          (\<lambda>srcFile. attempt (os_Create True dst 0x1ED)
              (Wrap (''failed to create destination file '' @ squote dst @ '': ''))
            (\<lambda>dstFile. attempt (io_Copy dstFile srcFile) (Wrap ''failed to copy file to destination: '')
              return_ok))))"

definition CopyFileIfDifferent :: "string \<Rightarrow> string \<Rightarrow> (unit, host) effect" where
  "CopyFileIfDifferent src dst h =
     (case fileSha256 src h of
        Inl e \<Rightarrow> (Inl (Wrap (''failed to compute SHA256 of source file '' @ squote src @ '': '') e), h)
      | Inr srcSum \<Rightarrow>
          (case fileSha256 dst h of
             Inl e \<Rightarrow>
               if \<not> is_not_exist e
               then (Inl (Wrap (''failed to compute SHA256 of destination file '' @ squote dst @ '': '') e), h)
               else if srcSum = [] then (Inr (), h)
               else copy_file src dst h
           | Inr dstSum \<Rightarrow>
               if srcSum = dstSum then (Inr (), h)
               else copy_file src dst h))"

definition reserve_binary :: "string \<Rightarrow> string \<Rightarrow> string \<Rightarrow> (unit, host) effect" where
  "reserve_binary podID containerName binary =
     (let swappedBin = swappedBinaryPathOnHost podID containerName binary in
      attempt (os_MkdirAll (Dir swappedBin) 0x1E8)
          (Wrap (''failed to create runtime dir for swapped binary '' @ squote swappedBin @ '': ''))
        (\<lambda>_. attempt (os_Create False swappedBin 0x1ED)
            (Wrap (''failed to create empty file for swapped binary '' @ squote swappedBin @ '': ''))
          (\<lambda>f. attempt (fs_close f)
              (Wrap (''failed to close file for swapped binary '' @ squote swappedBin @ '': ''))
            return_ok)))"

fun reserve_loop :: "string \<Rightarrow> string \<Rightarrow> string list \<Rightarrow> (unit, host) effect" where
  "reserve_loop podID containerName [] = return_ok ()"
| "reserve_loop podID containerName (binary # rest) =
     attempt (reserve_binary podID containerName binary) (\<lambda>e. e)
       (\<lambda>_. reserve_loop podID containerName rest)"

definition reserveSwappedBinaries :: "string \<Rightarrow> string \<Rightarrow> ProfileByBinary \<Rightarrow> (unit, host) effect" where
  "reserveSwappedBinaries podID containerName profileByBinary =
     reserve_loop podID containerName (keys profileByBinary)"

definition writeLandlockProfileToHostFilesystem ::
  "string \<Rightarrow> string \<Rightarrow> ProfileByBinary \<Rightarrow> (unit, host) effect" where
  "writeLandlockProfileToHostFilesystem podID containerName profileByBinary =
     (let landlockProfilePath = landlockProfilePathOnHost podID containerName in
      attempt (os_MkdirAll (Dir landlockProfilePath) 0x1E8)
          (Wrap (''failed to create runtime dir for landlock profile '' @ squote landlockProfilePath @ '': ''))
        (\<lambda>_. attempt (os_Create True landlockProfilePath 0x1A4)
            (Wrap (''failed to create landlock profile file '' @ squote landlockProfilePath @ '': ''))
          (\<lambda>f. attempt (fs_write f (encode_profiles profileByBinary))
              (Wrap (''failed to write landlock profile JSON to file '' @ squote landlockProfilePath @ '': ''))
            return_ok)))"

section \<open>plugin_mode.go\<close>

definition copyBinaries :: "(unit, host) effect" where
  "copyBinaries =
     attempt (CopyFileIfDifferent ''/seal'' (Join [''/host'', SealBinaryPathHost]))
         (Wrap ''failed to copy seal binary to host: '')
       (\<lambda>_. attempt
           (CopyFileIfDifferent SwapOciHookBinaryPathContainer
             (Join [''/host'', SwapOciHookBinaryPathHost]))
           (Wrap ''failed to copy swap-oci-hook binary to host: '')
         return_ok)"

section \<open>The calls on clean absolute paths\<close>

lemma clean_abs_not_Nil [simp]: "clean_abs p \<Longrightarrow> p \<noteq> []"
  by (auto simp: clean_abs_def)

lemma clean_abs_Dir: "clean_abs p \<Longrightarrow> clean_abs (Dir p) \<and> comps (Dir p) = butlast (comps p)"
proof (elim clean_absE)
  fix cs assume cs: "proper_all cs" "p = abs_path cs" "comps p = cs"
  then have "proper_all (butlast cs)" by (auto simp: proper_all_def dest: in_set_butlastD)
  with cs show ?thesis by (simp add: Dir_abs_path)
qed

lemma os_calls_clean:
  assumes "clean_abs p"
  shows "os_MkdirAll (Dir p) perm h = fs_mkdirs perm [] (butlast (comps p)) h"
    and "os_Create trunc p perm h = fs_create trunc perm (comps p) h"
    and "os_Open p h = fs_open (comps p) h"
  using assms clean_abs_Dir [OF assms] by (simp_all add: os_MkdirAll_def os_Create_def os_Open_def)

lemma fs_open_Inr: "fs_open p h = Inr f \<Longrightarrow> f = p \<and> tree h p \<noteq> None"
  by (auto simp: fs_open_def split: option.splits sum.splits dest: walk_Inr)

lemma fs_read_file_at: "fs_read p h = Inr b \<Longrightarrow> file_at h p = Some b"
  by (auto simp: fs_read_def file_at_def split: option.splits node.splits)

section \<open>Reserving binaries\<close>

text \<open>
  What one call of the loop does, errors included: nothing that was there changes; what is new is a
  directory above the swapped binary, or the empty file itself.
\<close>

definition grows :: "fpath set \<Rightarrow> host \<Rightarrow> host \<Rightarrow> bool" where
  "grows ps h h' \<longleftrightarrow> same_env h h' \<and> tree h \<subseteq>\<^sub>m tree h' \<and>
     (\<forall>q n. tree h q = None \<longrightarrow> tree h' q = Some n \<longrightarrow>
        (\<exists>p \<in> ps. q = p \<and> (\<exists>m. n = FileNode m []) \<or> strict_prefix q p \<and> (\<exists>m. n = DirNode m)))"

lemma grows_refl [simp]: "grows ps h h"
  by (simp add: grows_def)

lemma growsD:
  assumes "grows ps h h'"
  shows "same_env h h'" "tree h \<subseteq>\<^sub>m tree h'"
    "tree h q = None \<Longrightarrow> tree h' q = Some n \<Longrightarrow>
       \<exists>p \<in> ps. q = p \<and> (\<exists>m. n = FileNode m []) \<or> strict_prefix q p \<and> (\<exists>m. n = DirNode m)"
  using assms by (simp_all add: grows_def)

lemma grows_trans:
  assumes "grows ps h h1" "grows qs h1 h2"
  shows "grows (ps \<union> qs) h h2"
  unfolding grows_def
proof (intro conjI allI impI)
  show "same_env h h2" using growsD(1) [OF assms(1)] growsD(1) [OF assms(2)] by (rule same_env_trans)
  show "tree h \<subseteq>\<^sub>m tree h2" using growsD(2) [OF assms(1)] growsD(2) [OF assms(2)] by (rule map_le_trans)
  fix q n assume q: "tree h q = None" "tree h2 q = Some n"
  show "\<exists>p \<in> ps \<union> qs. q = p \<and> (\<exists>m. n = FileNode m []) \<or> strict_prefix q p \<and> (\<exists>m. n = DirNode m)"
  proof (cases "tree h1 q")
    case None
    then show ?thesis using growsD(3) [OF assms(2) _ q(2)] by blast
  next
    case (Some n')
    then have "n' = n" using map_le_new [OF growsD(2) [OF assms(2)]] q(2) by fastforce
    then show ?thesis using growsD(3) [OF assms(1) q(1)] Some by blast
  qed
qed

lemma grows_mono: "grows ps h h' \<Longrightarrow> ps \<subseteq> qs \<Longrightarrow> grows qs h h'"
  unfolding grows_def by blast

lemma grows_file_at:
  assumes "grows ps h h'" "q \<notin> ps"
  shows "file_at h' q = file_at h q"
proof (cases "tree h q")
  case None
  then show ?thesis
    using growsD(3) [OF assms(1) None] assms(2) by (cases "tree h' q") (auto simp: file_at_def)
next
  case (Some n)
  then show ?thesis using map_le_new [OF growsD(2) [OF assms(1)]] by (simp add: file_at_def)
qed

lemma fs_mkdirs_grows:
  assumes "fs_mkdirs perm [] (butlast p) h = (r, h')" "p \<noteq> []"
  shows "grows {p} h h'"
proof -
  note frame = fs_mkdirs_frame [OF assms(1)]
  obtain d c where p: "p = d @ [c]" "butlast p = d" using assms(2) by (metis butlast_snoc_path)
  show ?thesis
    unfolding grows_def
  proof (intro conjI allI impI)
    fix q n assume q: "tree h q = None" "tree h' q = Some n"
    then have "n = DirNode (created_mode h perm)" "prefix q d" using frame(3) [of q] p by auto
    moreover have "strict_prefix q p" using \<open>prefix q d\<close> p by (auto simp: prefix_def strict_prefix_def)
    ultimately show "\<exists>p \<in> {p}. q = p \<and> (\<exists>m. n = FileNode m []) \<or> strict_prefix q p \<and> (\<exists>m. n = DirNode m)"
      by blast
  qed (use frame in simp_all)
qed

lemma walk_ENOENT:
  assumes "walk t [] p = Inl ENOENT" "walk t [] (butlast p) = Inr (DirNode m)"
  shows "t p = None"
proof (cases "p = []")
  case True
  then show ?thesis using assms by (auto split: option.splits)
next
  case False
  then obtain d c where "p = d @ [c]" "butlast p = d" by (metis butlast_snoc_path)
  then show ?thesis using assms walk_snoc_ENOENT [of t "[]" d m c] by (auto split: option.splits)
qed

lemma fs_create_grows: "fs_create False perm p h = (r, h') \<Longrightarrow> grows {p} h h'"
  by (auto simp: fs_create_def grows_def map_le_def walk_ENOENT
      split: option.splits sum.splits node.splits if_splits dest: walk_Inr)

lemma fs_create_file:
  "fs_create trunc perm p h = (Inr f, h') \<Longrightarrow> f = p \<and> (\<exists>m b. tree h' p = Some (FileNode m b))"
  by (auto simp: fs_create_def split: option.splits sum.splits node.splits if_splits dest: walk_Inr)

text \<open>The components of the swapped binary of a container on the host.\<close>

abbreviation swapped :: "string \<Rightarrow> string \<Rightarrow> string \<Rightarrow> fpath" where
  "swapped podID containerName b \<equiv> comps (swappedBinaryPathOnHost podID containerName b)"

lemma reserve_binary_steps:
  assumes "reserve_binary p c b h = (r, h')"
  obtains e where "fs_mkdirs 0x1E8 [] (butlast (swapped p c b)) h = (Inl e, h')" "r \<noteq> Inr ()"
    | h1 e where "fs_mkdirs 0x1E8 [] (butlast (swapped p c b)) h = (Inr (), h1)"
        "fs_create False 0x1ED (swapped p c b) h1 = (Inl e, h')" "r \<noteq> Inr ()"
    | h1 where "fs_mkdirs 0x1E8 [] (butlast (swapped p c b)) h = (Inr (), h1)"
        "fs_create False 0x1ED (swapped p c b) h1 = (Inr (swapped p c b), h')"
        "r = Inr () \<longleftrightarrow> fault h' Sys_close (swapped p c b) = None"
proof (cases "fs_mkdirs 0x1E8 [] (butlast (swapped p c b)) h")
  case (Pair r1 h1)
  note eq = assms [unfolded reserve_binary_def Let_def attempt_def
      os_calls_clean [OF nri_paths_clean(2)] return_ok_eq fs_close_def]
  show thesis
  proof (cases r1)
    case (Inl e)
    then show thesis using that(1) [of e] eq Pair by auto
  next
    case mkdirs: (Inr u)
    show thesis
    proof (cases "fs_create False 0x1ED (swapped p c b) h1")
      case create: (Pair r2 h2)
      show thesis
      proof (cases r2)
        case (Inl e)
        then show thesis using that(2) [of h1 e] eq Pair mkdirs create by auto
      next
        case (Inr f)
        then have "f = swapped p c b" using fs_create_file create by blast
        then show thesis
          using that(3) [of h1] eq Pair mkdirs create Inr
          by (auto split: option.splits)
      qed
    qed
  qed
qed

lemma reserve_binary_grows:
  assumes "reserve_binary p c b h = (r, h')" "swapped p c b \<noteq> []"
  shows "grows {swapped p c b} h h'"
  using assms(1)
proof (cases rule: reserve_binary_steps)
  case (1 e)
  then show ?thesis using fs_mkdirs_grows [OF _ assms(2)] by blast
next
  case (2 h1 e)
  then show ?thesis
    using grows_trans [OF fs_mkdirs_grows [OF 2(1) assms(2)] fs_create_grows [OF 2(2)]] by simp
next
  case (3 h1)
  then show ?thesis
    using grows_trans [OF fs_mkdirs_grows [OF 3(1) assms(2)] fs_create_grows [OF 3(2)]] by simp
qed

lemma reserve_binary_wf:
  assumes "reserve_binary p c b h = (r, h')" "tree_wf (tree h)"
  shows "tree_wf (tree h')"
  using assms(1)
  by (cases rule: reserve_binary_steps)
    (use fs_mkdirs_wf [OF _ assms(2)] tree_wf_root [OF assms(2)] in \<open>blast intro: fs_create_wf\<close>)+

lemma reserve_binary_file:
  "reserve_binary p c b h = (Inr (), h') \<Longrightarrow> \<exists>m s. tree h' (swapped p c b) = Some (FileNode m s)"
  by (erule reserve_binary_steps) (auto dest: fs_create_file)

text \<open>The loop, by induction on the binaries.\<close>

lemma reserve_loop_grows:
  "reserve_loop p c bs h = (r, h') \<Longrightarrow> \<forall>b \<in> set bs. swapped p c b \<noteq> [] \<Longrightarrow>
     grows (swapped p c ` set bs) h h'"
proof (induction bs arbitrary: h)
  case (Cons b bs)
  from Cons.prems(1) have "attempt (reserve_binary p c b) (\<lambda>e. e) (\<lambda>_. reserve_loop p c bs) h = (r, h')"
    by simp
  then show ?case
  proof (cases rule: attempt_cases)
    case (failed e)
    then show ?thesis using reserve_binary_grows Cons.prems(2) by (fastforce intro: grows_mono)
  next
    case (continued u h1)
    have "grows ({swapped p c b} \<union> swapped p c ` set bs) h h'"
      by (rule grows_trans [OF reserve_binary_grows [OF continued(1)] Cons.IH [OF continued(2)]])
        (use Cons.prems(2) in auto)
    then show ?thesis by simp
  qed
qed simp

lemma reserve_loop_wf: "reserve_loop p c bs h = (r, h') \<Longrightarrow> tree_wf (tree h) \<Longrightarrow> tree_wf (tree h')"
proof (induction bs arbitrary: h)
  case (Cons b bs)
  then show ?case by (auto elim!: attempt_cases dest: reserve_binary_wf)
qed simp

lemma reserve_loop_files:
  "reserve_loop p c bs h = (Inr (), h') \<Longrightarrow> \<forall>b \<in> set bs. swapped p c b \<noteq> [] \<Longrightarrow>
     b \<in> set bs \<Longrightarrow> \<exists>m s. tree h' (swapped p c b) = Some (FileNode m s)"
proof (induction bs arbitrary: h)
  case (Cons a bs)
  then obtain h1 where h1: "reserve_binary p c a h = (Inr (), h1)" "reserve_loop p c bs h1 = (Inr (), h')"
    by (auto elim!: attempt_InrE)
  show ?case
  proof (cases "b = a")
    case True
    then obtain m s where "tree h1 (swapped p c b) = Some (FileNode m s)"
      using reserve_binary_file [OF h1(1)] by blast
    then show ?thesis
      using map_le_new [OF growsD(2) [OF reserve_loop_grows [OF h1(2)]]] Cons.prems(2) by fastforce
  next
    case False
    then show ?thesis using Cons.IH [OF h1(2)] Cons.prems by auto
  qed
qed simp

text \<open>When reserving succeeds: nothing in the way, and no binary below another.\<close>

definition no_faults :: "host \<Rightarrow> bool" where
  "no_faults h \<longleftrightarrow> (\<forall>s p. fault h s p = None)"

lemma no_faultsD: "no_faults h \<Longrightarrow> fault h s p = None"
  by (simp add: no_faults_def)

lemma no_faults_same_env: "same_env h h' \<Longrightarrow> no_faults h \<Longrightarrow> no_faults h'"
  by (simp add: same_env_def no_faults_def)

definition prefix_free :: "string list \<Rightarrow> bool" where
  "prefix_free bs \<longleftrightarrow> (\<forall>a \<in> set bs. \<forall>b \<in> set bs. \<not> strict_prefix (comps a) (comps b))"

lemma ready_grows:
  assumes "grows ps h h'" "ready (tree h) q"
    and "\<And>p. p \<in> ps \<Longrightarrow> \<not> strict_prefix p q \<and> \<not> strict_prefix q p"
  shows "ready (tree h') q"
proof -
  have "tree h' q \<noteq> Some (DirNode m)" for m
  proof
    assume new: "tree h' q = Some (DirNode m)"
    show False
    proof (cases "tree h q")
      case None
      then show ?thesis using growsD(3) [OF assms(1) None new] assms(3) by auto
    next
      case (Some n)
      then show ?thesis using map_le_new [OF growsD(2) [OF assms(1)] Some] new assms(2) by (auto simp: ready_def)
    qed
  qed
  moreover have "tree h' ds \<noteq> Some (FileNode m b)" if "strict_prefix ds q" for ds m b
  proof
    assume new: "tree h' ds = Some (FileNode m b)"
    show False
    proof (cases "tree h ds")
      case None
      then show ?thesis using growsD(3) [OF assms(1) None new] assms(3) that by auto
    next
      case (Some n)
      then show ?thesis
        using map_le_new [OF growsD(2) [OF assms(1)] Some] new assms(2) that by (auto simp: ready_def)
    qed
  qed
  ultimately show ?thesis using assms(2) by (auto simp: ready_def)
qed

lemma reserve_binary_ok:
  assumes "tree_wf (tree h)" "ready (tree h) (swapped p c b)" "no_faults h"
  shows "\<exists>h'. reserve_binary p c b h = (Inr (), h')"
proof -
  note nf = no_faultsD [OF assms(3)]
  obtain h1 where h1: "fs_mkdirs 0x1E8 [] (butlast (swapped p c b)) h = (Inr (), h1)"
    using mkdirs_parent_ok [OF assms(2)] nf by blast
  obtain h2 where h2: "fs_create False 0x1ED (swapped p c b) h1 = (Inr (swapped p c b), h2)"
    using create_after_mkdirs [OF assms(1,2) h1] nf by blast
  obtain r h' where r: "reserve_binary p c b h = (r, h')" by (cases "reserve_binary p c b h")
  have nf2: "no_faults h2"
    using fs_mkdirs_frame(1) [OF h1] fs_create_frame(1) [OF h2] assms(3)
    by (metis no_faults_same_env)
  from r show ?thesis
  proof (cases rule: reserve_binary_steps)
    case (3 h1')
    then have "h' = h2" using h1 h2 by simp
    then show ?thesis using 3(3) nf2 r by (simp add: no_faults_def)
  qed (use h1 h2 in auto)
qed

lemma reserve_loop_ok:
  assumes "tree_wf (tree h)" "no_faults h" "\<forall>b \<in> set bs. ready (tree h) (swapped p c b)"
    and "\<forall>a \<in> set bs. \<forall>b \<in> set bs. \<not> strict_prefix (swapped p c a) (swapped p c b)"
  shows "\<exists>h'. reserve_loop p c bs h = (Inr (), h')"
  using assms
proof (induction bs arbitrary: h)
  case (Cons b bs)
  obtain h1 where h1: "reserve_binary p c b h = (Inr (), h1)"
    using reserve_binary_ok [of h p c b] Cons.prems by auto
  have gr: "grows {swapped p c b} h h1"
    by (rule reserve_binary_grows [OF h1]) (use Cons.prems(3) in \<open>auto simp: ready_def\<close>)
  have "\<exists>h'. reserve_loop p c bs h1 = (Inr (), h')"
  proof (rule Cons.IH)
    show "tree_wf (tree h1)" by (rule reserve_binary_wf [OF h1 Cons.prems(1)])
    show "no_faults h1" using growsD(1) [OF gr] Cons.prems(2) by (rule no_faults_same_env)
    show "\<forall>a \<in> set bs. ready (tree h1) (swapped p c a)"
      using Cons.prems(3,4) by (auto intro!: ready_grows [OF gr])
  qed (use Cons.prems(4) in auto)
  then show ?case using h1 by simp
qed simp

text \<open>A binary below another one always makes the loop fail.\<close>

lemma reserve_loop_nested:
  assumes "reserve_loop p c bs h = (Inr (), h')" "tree_wf (tree h)"
    and "\<forall>b \<in> set bs. swapped p c b \<noteq> []"
    and "a \<in> set bs" "b \<in> set bs" "strict_prefix (swapped p c a) (swapped p c b)"
  shows False
proof -
  have wf: "tree_wf (tree h')" by (rule reserve_loop_wf [OF assms(1,2)])
  obtain m s where "tree h' (swapped p c b) = Some (FileNode m s)"
    using reserve_loop_files [OF assms(1,3,5)] by blast
  from tree_wf_ancestor [OF wf this assms(6)] obtain k where "tree h' (swapped p c a) = Some (DirNode k)" ..
  then show False using reserve_loop_files [OF assms(1,3,4)] by auto
qed

section \<open>Writing the profile\<close>

lemma write_profile_eq:
  "writeLandlockProfileToHostFilesystem p c m h =
     (let q = landlockProfilePathOnHost p c in
      attempt (fs_mkdirs 0x1E8 [] (butlast (comps q)))
          (Wrap (''failed to create runtime dir for landlock profile '' @ squote q @ '': ''))
        (\<lambda>_. attempt (fs_create True 0x1A4 (comps q))
            (Wrap (''failed to create landlock profile file '' @ squote q @ '': ''))
          (\<lambda>f. attempt (fs_write f (encode_profiles m))
              (Wrap (''failed to write landlock profile JSON to file '' @ squote q @ '': ''))
            return_ok)) h)"
  unfolding writeLandlockProfileToHostFilesystem_def Let_def
    os_calls_clean [OF nri_paths_clean(3), abs_def] ..

lemma write_profile_stored:
  assumes "writeLandlockProfileToHostFilesystem p c m h = (Inr (), h')"
  shows "file_at h' (comps (landlockProfilePathOnHost p c)) = Some (encode_profiles m)"
  using assms unfolding write_profile_eq Let_def
  by (rule attempt_InrE) (erule fs.stored, simp)

lemma write_profile_frame:
  assumes "writeLandlockProfileToHostFilesystem p c m h = (r, h')"
    and "q \<noteq> comps (landlockProfilePathOnHost p c)"
  shows "file_at h' q = file_at h q"
  using assms(1) unfolding write_profile_eq Let_def
proof (cases rule: attempt_cases)
  case (failed e)
  then show ?thesis by (simp add: fs_mkdirs_file_at)
next
  case (continued u h1)
  have "file_at h' q = file_at h1 q"
    by (rule fs.stored_frame [OF continued(2)]) (use assms(2) in simp_all)
  then show ?thesis using continued(1) by (simp add: fs_mkdirs_file_at)
qed

lemma write_profile_failed:
  assumes "writeLandlockProfileToHostFilesystem p c m h = (Inl e, h')"
  shows "file_at h' (comps (landlockProfilePathOnHost p c)) = file_at h (comps (landlockProfilePathOnHost p c)) \<or>
    (\<exists>s. prefix s (encode_profiles m) \<and> file_at h' (comps (landlockProfilePathOnHost p c)) = Some s)"
  using assms unfolding write_profile_eq Let_def
proof (cases rule: attempt_cases)
  case (failed e)
  then show ?thesis by (simp add: fs_mkdirs_file_at)
next
  case (continued u h1)
  from fs.stored_failed [OF continued(2)] show ?thesis using fs_mkdirs_file_at [OF continued(1)] by auto
qed

text \<open>Making the directories, emptying the file and writing it succeed when nothing is in the way.\<close>

lemma write_profile_ok:
  assumes "tree_wf (tree h)" "ready (tree h) (comps (landlockProfilePathOnHost p c))" "no_faults h"
  shows "\<exists>h'. writeLandlockProfileToHostFilesystem p c m h = (Inr (), h')"
proof -
  let ?q = "comps (landlockProfilePathOnHost p c)"
  note nf = no_faultsD [OF assms(3)]
  obtain h1 where h1: "fs_mkdirs 0x1E8 [] (butlast ?q) h = (Inr (), h1)"
    using mkdirs_parent_ok [OF assms(2)] nf by blast
  obtain h2 where h2: "fs_create True 0x1A4 ?q h1 = (Inr ?q, h2)"
    using create_after_mkdirs [OF assms(1,2) h1] nf by blast
  have "fault h2 = fault h"
    using fs_mkdirs_frame(1) [OF h1] fs_create_frame(1) [OF h2] by (simp add: same_env_def)
  moreover obtain k s where "tree h2 ?q = Some (FileNode k s)" using fs_create_file [OF h2] by blast
  ultimately obtain h3 where "fs_write ?q (encode_profiles m) h2 = (Inr (), h3)"
    using nf by (simp add: fs_write_def fs_append_def)
  with h1 h2 show ?thesis by (simp add: write_profile_eq Let_def)
qed

lemma write_profile_env:
  assumes "writeLandlockProfileToHostFilesystem p c m h = (r, h')" "tree_wf (tree h)"
  shows "same_env h h' \<and> tree_wf (tree h')"
  using assms(1) unfolding write_profile_eq Let_def
proof (cases rule: attempt_cases)
  case (failed e)
  then show ?thesis
    using fs_mkdirs_frame(1) [OF failed(1)] fs_mkdirs_wf [OF failed(1) assms(2)] tree_wf_root [OF assms(2)]
    by simp
next
  case mkdirs: (continued u h1)
  have h1: "same_env h h1 \<and> tree_wf (tree h1)"
    using fs_mkdirs_frame(1) [OF mkdirs(1)] fs_mkdirs_wf [OF mkdirs(1) assms(2)] tree_wf_root [OF assms(2)]
    by simp
  from mkdirs(2) show ?thesis
  proof (cases rule: attempt_cases)
    case (failed e)
    then show ?thesis
      using h1 fs_create_frame(1) [OF failed(1)] fs_create_wf [OF failed(1)] same_env_trans by blast
  next
    case create: (continued f h2)
    then have h2: "same_env h h2 \<and> tree_wf (tree h2)"
      using h1 fs_create_frame(1) [OF create(1)] fs_create_wf [OF create(1)] same_env_trans by blast
    obtain x where "fs_write f (encode_profiles m) h2 = (x, h')"
      using create(2) by (cases rule: attempt_cases) auto
    then show ?thesis using h2 fs_write_frame(1) fs_write_wf same_env_trans by blast
  qed
qed

section \<open>Copying a file\<close>

lemma fileSha256_Inr:
  assumes "fileSha256 path h = Inr s" "clean_abs path"
  obtains b where "file_at h (comps path) = Some b" "s = sha256_hex b"
  using assms by (auto simp: fileSha256_def os_calls_clean split: sum.splits
      dest!: fs_open_Inr fs_read_file_at)

lemma fileSha256_ok:
  assumes "file_at h (comps path) = Some b" "clean_abs path" "tree_wf (tree h)" "no_faults h"
  shows "fileSha256 path h = Inr (sha256_hex b)"
proof -
  obtain m where m: "tree h (comps path) = Some (FileNode m b)"
    using assms(1) by (auto simp: file_at_def split: option.splits node.splits)
  then show ?thesis
    using assms(2,4) walk_found [OF assms(3) m]
    by (simp add: fileSha256_def os_calls_clean fs_open_def fs_read_def no_faultsD)
qed

lemma io_Copy_steps:
  assumes "io_Copy d s h = (r, h')"
  obtains e where "r = Inl e" "h' = h"
    | e t x where "r = Inl e" "fs_write d t h = (x, h')"
    | b where "file_at h s = Some b" "fs_write d b h = (r, h')"
proof (cases "fs_read s h")
  case (Inl e)
  show thesis
  proof (cases "file_at h s")
    case None
    then show thesis using assms Inl that(1) by (auto simp: io_Copy_def file_at_def split: option.splits node.splits)
  next
    case (Some b)
    then obtain m where "tree h s = Some (FileNode m b)"
      by (auto simp: file_at_def split: option.splits node.splits)
    then show thesis
      using assms Inl that(2) [of e "take (progress h s) b" "fst (fs_write d (take (progress h s) b) h)"]
      by (auto simp: io_Copy_def prod_eq_iff)
  qed
next
  case (Inr b)
  then show thesis using assms that(3) fs_read_file_at [OF Inr] by (simp add: io_Copy_def)
qed

lemma copy_file_steps:
  assumes "copy_file src dst h = (r, h')" "clean_abs src" "clean_abs dst"
  obtains e where "fs_mkdirs 0x1E8 [] (butlast (comps dst)) h = (Inl e, h')" "r \<noteq> Inr ()"
    | e where "fs_mkdirs 0x1E8 [] (butlast (comps dst)) h = (Inr (), h')" "r \<noteq> Inr ()"
    | h1 e where "fs_mkdirs 0x1E8 [] (butlast (comps dst)) h = (Inr (), h1)"
        "fs_create True 0x1ED (comps dst) h1 = (Inl e, h')" "r \<noteq> Inr ()"
    | h1 h2 r2 where "fs_mkdirs 0x1E8 [] (butlast (comps dst)) h = (Inr (), h1)"
        "fs_create True 0x1ED (comps dst) h1 = (Inr (comps dst), h2)"
        "io_Copy (comps dst) (comps src) h2 = (r2, h')" "r = Inr () \<longleftrightarrow> r2 = Inr ()"
proof -
  note eq = assms(1) [unfolded copy_file_def Let_def os_calls_clean [OF assms(3), abs_def]
      os_calls_clean(3) [OF assms(2)]]
  from eq show thesis
  proof (cases rule: attempt_cases)
    case (continued u h1)
    from continued(2) show thesis
    proof (cases rule: attempt_cases)
      case (failed e)
      then show thesis using continued(1) that(2) by auto
    next
      case opened: (continued s h1')
      then have s: "s = comps src" "h1' = h1" using fs_open_Inr by fastforce+
      from opened(2) show thesis
      proof (cases rule: attempt_cases)
        case (failed e)
        then show thesis using continued(1) s that(3) by auto
      next
        case created: (continued f h2)
        then have f: "f = comps dst" using fs_create_file by blast
        from created(2) show thesis
          by (cases rule: attempt_cases) (use that(4) continued(1) created(1) s f in auto)
      qed
    qed
  qed (use that(1) in auto)
qed

lemma copy_file_frame:
  assumes "copy_file src dst h = (r, h')" "clean_abs src" "clean_abs dst" "q \<noteq> comps dst"
  shows "file_at h' q = file_at h q"
  using assms(1-3)
proof (cases rule: copy_file_steps)
  case (4 h1 h2 r2)
  from 4(3) have "file_at h' q = file_at h2 q"
    by (cases rule: io_Copy_steps) (use assms(4) in \<open>auto intro: fs.put_frame\<close>)
  then show ?thesis using 4 assms(4) by (metis fs.create_frame fs_mkdirs_file_at)
qed (use assms(4) in \<open>metis fs.create_frame fs_mkdirs_file_at\<close>)+

lemma copy_file_stored:
  assumes "copy_file src dst h = (Inr (), h')" "clean_abs src" "clean_abs dst"
    and "comps src \<noteq> comps dst"
  shows "\<exists>b. file_at h (comps src) = Some b \<and> file_at h' (comps dst) = Some b"
  using assms(1-3)
proof (cases rule: copy_file_steps)
  case (4 h1 h2 r2)
  have src: "file_at h2 (comps src) = file_at h (comps src)"
    using 4 assms(4) by (metis fs.create_frame fs_mkdirs_file_at)
  have "file_at h2 (comps dst) = Some []" using fs.create_empty [OF 4(2)] by simp
  from 4(3) show ?thesis
    by (cases rule: io_Copy_steps)
      (use 4(4) src \<open>file_at h2 (comps dst) = Some []\<close> in \<open>auto dest: fs.put_append\<close>)
qed simp_all

text \<open>The two ways to succeed: equal checksums and nothing done, or the source copied.\<close>

lemma CopyFileIfDifferent_steps:
  assumes "CopyFileIfDifferent src dst h = (r, h')"
  obtains e where "r = Inl e" "h' = h"
    | sum where "fileSha256 src h = Inr sum" "fileSha256 dst h = Inr sum" "r = Inr ()" "h' = h"
    | sum where "fileSha256 src h = Inr sum" "fileSha256 dst h \<noteq> Inr sum" "copy_file src dst h = (r, h')"
proof (cases "fileSha256 src h")
  case (Inl e)
  then show thesis using assms that(1) by (auto simp: CopyFileIfDifferent_def)
next
  case src: (Inr sum)
  have "sum \<noteq> []" using src by (auto simp: fileSha256_def split: sum.splits)
  show thesis
  proof (cases "fileSha256 dst h")
    case (Inl e)
    then show thesis
      using assms src \<open>sum \<noteq> []\<close> that(1,3) by (auto simp: CopyFileIfDifferent_def split: if_splits)
  next
    case (Inr s)
    then show thesis
      using assms src that(2,3) by (auto simp: CopyFileIfDifferent_def split: if_splits)
  qed
qed

lemma copy_if_different_frame:
  assumes "CopyFileIfDifferent src dst h = (r, h')" "clean_abs src" "clean_abs dst" "q \<noteq> comps dst"
  shows "file_at h' q = file_at h q"
  using assms(1)
  by (cases rule: CopyFileIfDifferent_steps) (use assms(2-4) in \<open>simp_all add: copy_file_frame\<close>)

lemma copy_if_different_stored:
  assumes "CopyFileIfDifferent src dst h = (Inr (), h')" "clean_abs src" "clean_abs dst"
  shows "\<exists>b d. file_at h (comps src) = Some b \<and> file_at h' (comps dst) = Some d \<and>
    sha256_hex d = sha256_hex b \<and> (h' = h \<or> d = b)"
  using assms(1)
proof (cases rule: CopyFileIfDifferent_steps)
  case (2 sum)
  then show ?thesis using assms(2,3) by (metis fileSha256_Inr)
next
  case (3 sum)
  have "comps src \<noteq> comps dst"
    using 3(1,2) assms(2,3) clean_abs_comps_inject by blast
  then show ?thesis using copy_file_stored [OF 3(3) assms(2,3)] by blast
qed simp

lemma fileSha256_missing:
  "file_at h (comps path) = None \<Longrightarrow> clean_abs path \<Longrightarrow> fileSha256 path h \<noteq> Inr s"
  by (metis fileSha256_Inr option.distinct(1))

lemma copy_if_different_missing:
  assumes "CopyFileIfDifferent src dst h = (Inr (), h')" "clean_abs src" "clean_abs dst"
    and "file_at h (comps dst) = None"
  shows "file_at h' (comps dst) = file_at h (comps src)"
  using assms(1)
proof (cases rule: CopyFileIfDifferent_steps)
  case (2 sum)
  then show ?thesis using fileSha256_missing [OF assms(4,3)] by simp
next
  case (3 sum)
  have "comps src \<noteq> comps dst" using 3(1,2) assms(2,3) clean_abs_comps_inject by blast
  then show ?thesis using copy_file_stored [OF 3(3) assms(2,3)] by auto
qed simp

lemma copy_file_env:
  assumes "copy_file src dst h = (r, h')" "clean_abs src" "clean_abs dst" "tree_wf (tree h)"
  shows "same_env h h' \<and> tree_wf (tree h')"
proof -
  have mkdirs: "same_env h h1 \<and> tree_wf (tree h1)"
    if "fs_mkdirs 0x1E8 [] (butlast (comps dst)) h = (x, h1)" for x h1
    using fs_mkdirs_frame(1) [OF that] fs_mkdirs_wf [OF that assms(4)] tree_wf_root [OF assms(4)] by simp
  have create: "same_env h1 h2 \<and> tree_wf (tree h2)"
    if "fs_create True 0x1ED (comps dst) h1 = (x, h2)" "tree_wf (tree h1)" for x h1 h2
    using fs_create_frame(1) [OF that(1)] fs_create_wf [OF that] by simp
  have copy: "same_env h1 h2 \<and> tree_wf (tree h2)"
    if "io_Copy (comps dst) (comps src) h1 = (x, h2)" "tree_wf (tree h1)" for x h1 h2
    using that(1)
    by (cases rule: io_Copy_steps)
      (use that(2) in \<open>auto intro: fs_write_frame(1) fs_write_wf\<close>)
  from assms(1-3) show ?thesis
  proof (cases rule: copy_file_steps)
    case (3 h1 e)
    then show ?thesis using mkdirs [OF 3(1)] create [OF 3(2)] same_env_trans by blast
  next
    case (4 h1 h2 r2)
    then show ?thesis
      using mkdirs [OF 4(1)] create [OF 4(2)] copy [OF 4(3)] same_env_trans by blast
  qed (use mkdirs in blast)+
qed

lemma copy_if_different_env:
  assumes "CopyFileIfDifferent src dst h = (r, h')" "clean_abs src" "clean_abs dst" "tree_wf (tree h)"
  shows "same_env h h' \<and> tree_wf (tree h')"
  using assms(1)
  by (cases rule: CopyFileIfDifferent_steps) (use copy_file_env assms(2-4) in auto)

lemma copy_if_different_again:
  assumes copy: "CopyFileIfDifferent src dst h = (Inr (), h')" and paths: "clean_abs src" "clean_abs dst"
    and "tree_wf (tree h)" "no_faults h"
  shows "CopyFileIfDifferent src dst h' = (Inr (), h')"
proof -
  note env = copy_if_different_env [OF copy paths assms(4)]
  then have nf: "no_faults h'" using assms(5) no_faults_same_env by blast
  obtain b d where bd: "file_at h (comps src) = Some b" "file_at h' (comps dst) = Some d"
    "sha256_hex d = sha256_hex b"
    using copy_if_different_stored [OF copy paths] by blast
  have "\<exists>b'. file_at h' (comps src) = Some b' \<and> sha256_hex b' = sha256_hex d"
  proof (cases "src = dst")
    case False
    then have "comps src \<noteq> comps dst" using paths clean_abs_comps_inject by blast
    then show ?thesis using copy_if_different_frame [OF copy paths] bd by simp
  qed (use bd in simp)
  then have "fileSha256 src h' = Inr (sha256_hex d)"
    using fileSha256_ok paths env nf by metis
  moreover have "fileSha256 dst h' = Inr (sha256_hex d)"
    using fileSha256_ok [OF bd(2)] paths env nf by simp
  ultimately show ?thesis by (simp add: CopyFileIfDifferent_def)
qed

text \<open>A copy succeeds when no call fails, the source is a file and the destination is ready; and it
  leaves other destinations ready.\<close>

lemma copy_file_ok:
  assumes "tree_wf (tree h)" "no_faults h" "clean_abs src" "clean_abs dst" "src \<noteq> dst"
    and "file_at h (comps src) = Some b" "ready (tree h) (comps dst)"
  shows "\<exists>h'. copy_file src dst h = (Inr (), h')"
proof -
  have apart: "comps src \<noteq> comps dst" using assms(3-5) clean_abs_comps_inject by blast
  note nf = no_faultsD [OF assms(2)]
  obtain h1 where h1: "fs_mkdirs 0x1E8 [] (butlast (comps dst)) h = (Inr (), h1)"
    using mkdirs_parent_ok [OF assms(7)] nf by blast
  obtain h2 where h2: "fs_create True 0x1ED (comps dst) h1 = (Inr (comps dst), h2)"
    using create_after_mkdirs [OF assms(1,7) h1] nf by blast
  have fault: "fault h1 = fault h" "fault h2 = fault h"
    using fs_mkdirs_frame(1) [OF h1] fs_create_frame(1) [OF h2] by (simp_all add: same_env_def)
  have wf1: "tree_wf (tree h1)" using fs_mkdirs_wf [OF h1 assms(1)] tree_wf_root [OF assms(1)] by simp
  have src1: "file_at h1 (comps src) = Some b" using fs_mkdirs_file_at [OF h1] assms(6) by simp
  then obtain m where "tree h1 (comps src) = Some (FileNode m b)"
    by (auto simp: file_at_def split: option.splits node.splits)
  then have opened: "fs_open (comps src) h1 = Inr (comps src)"
    using walk_found [OF wf1] fault nf by (simp add: fs_open_def)
  have "file_at h2 (comps src) = Some b" using fs.create_frame [OF h2] src1 apart by simp
  then obtain m2 where "tree h2 (comps src) = Some (FileNode m2 b)"
    by (auto simp: file_at_def split: option.splits node.splits)
  then have read: "fs_read (comps src) h2 = Inr b" using fault nf by (simp add: fs_read_def)
  obtain k s where "tree h2 (comps dst) = Some (FileNode k s)" using fs_create_file [OF h2] by blast
  then obtain h3 where "fs_write (comps dst) b h2 = (Inr (), h3)" using fault nf by (simp add: fs_write_def fs_append_def)
  then have "io_Copy (comps dst) (comps src) h2 = (Inr (), h3)" using read by (simp add: io_Copy_def)
  then have "copy_file src dst h = (Inr (), h3)"
    using h1 h2 opened
    by (simp add: copy_file_def Let_def os_calls_clean [OF assms(4), abs_def] os_calls_clean(3) [OF assms(3)])
  then show ?thesis ..
qed

lemma copy_if_different_ok:
  assumes "tree_wf (tree h)" "no_faults h" "clean_abs src" "clean_abs dst"
    and "file_at h (comps src) = Some b" "ready (tree h) (comps dst)"
  shows "\<exists>h'. CopyFileIfDifferent src dst h = (Inr (), h')"
proof -
  note src = fileSha256_ok [OF assms(5,3,1,2)]
  show ?thesis
  proof (cases "fileSha256 dst h")
    case (Inl e)
    have "is_not_exist e"
      using ready_walk [OF assms(6)]
    proof
      assume "\<exists>m b. walk (tree h) [] (comps dst) = Inr (FileNode m b)"
      then obtain b' where "file_at h (comps dst) = Some b'"
        by (auto simp: file_at_def dest!: walk_Inr)
      then show ?thesis using fileSha256_ok [OF _ assms(4,1,2)] Inl by simp
    next
      assume "walk (tree h) [] (comps dst) = Inl ENOENT"
      then have "fileSha256 dst h = Inl (Wrap (''failed to open file '' @ squote dst @ '': '') (Errno ENOENT))"
        using no_faultsD [OF assms(2)] assms(4) by (simp add: fileSha256_def os_calls_clean fs_open_def)
      then show ?thesis using Inl by auto
    qed
    moreover have "src \<noteq> dst" using src Inl by auto
    ultimately show ?thesis
      using src Inl copy_file_ok [OF assms(1-4) _ assms(5,6)] by (simp add: CopyFileIfDifferent_def)
  next
    case (Inr s)
    then show ?thesis
      using src copy_file_ok [OF assms(1-4) _ assms(5,6)]
      by (cases "s = sha256_hex b"; cases "src = dst") (auto simp: CopyFileIfDifferent_def)
  qed
qed

lemma mkdirs_new_dir:
  assumes "fs_mkdirs perm [] (butlast p) h = (r, h')" "tree h' q = Some (DirNode m)"
  shows "tree h q = Some (DirNode m) \<or> strict_prefix q p"
proof (cases "tree h q")
  case None
  then have "q \<noteq> [] \<and> prefix q (butlast p)" using fs_mkdirs_frame(3) [OF assms(1) None] assms(2) by auto
  moreover from this obtain c where "p = butlast p @ [c]" by (metis butlast.simps(1) prefix_Nil append_butlast_last_id)
  ultimately show ?thesis by (metis strict_prefix_append prefix_order.le_less_trans not_Cons_self2)
next
  case (Some n)
  then show ?thesis using map_le_new [OF fs_mkdirs_frame(2) [OF assms(1)] Some] assms(2) by simp
qed

lemma copy_file_new_dir:
  assumes "copy_file src dst h = (r, h')" "clean_abs src" "clean_abs dst" "tree h' q = Some (DirNode m)"
  shows "tree h q = Some (DirNode m) \<or> strict_prefix q (comps dst)"
proof -
  have create: "tree h1 q = Some (DirNode m)"
    if "fs_create True 0x1ED (comps dst) h1 = (x, h2)" "tree h2 q = Some (DirNode m)" for x h1 h2
    using that by (auto simp: fs_create_def split: option.splits sum.splits node.splits if_splits)
  have copy: "tree h1 q = Some (DirNode m)"
    if "io_Copy (comps dst) (comps src) h1 = (x, h2)" "tree h2 q = Some (DirNode m)" for x h1 h2
    using that(1)
    by (cases rule: io_Copy_steps) (use that(2) in \<open>auto elim!: fs_write_append
      simp: fs_append_def split: option.splits node.splits if_splits\<close>)
  from assms(1-3) show ?thesis
  proof (cases rule: copy_file_steps)
    case (3 h1 e)
    then show ?thesis using mkdirs_new_dir create assms(4) by blast
  next
    case (4 h1 h2 r2)
    then show ?thesis using mkdirs_new_dir create copy assms(4) by blast
  qed (use mkdirs_new_dir assms(4) in blast)+
qed

lemma copy_if_different_ready:
  assumes copy: "CopyFileIfDifferent src dst h = (r, h')" "clean_abs src" "clean_abs dst"
    and rd: "ready (tree h) q" and apart: "\<not> prefix q (comps dst)" "\<not> prefix (comps dst) q"
  shows "ready (tree h') q"
proof -
  have dirs: "tree h q = Some (DirNode m)" if "tree h' q = Some (DirNode m)" for m
    using copy(1)
    by (cases rule: CopyFileIfDifferent_steps)
      (use that copy_file_new_dir [OF _ copy(2,3), of h _ h' q m] apart(1) in \<open>auto simp: strict_prefix_def\<close>)
  have files: "file_at h' ds = file_at h ds" if "prefix ds q" for ds
    using copy_if_different_frame [OF copy, of ds] that apart(2) by blast
  show ?thesis
    unfolding ready_def
  proof (intro conjI allI impI)
    show "q \<noteq> []" using rd by (simp add: ready_def)
    show "tree h' q \<noteq> Some (DirNode m)" for m using rd dirs [of m] by (auto simp: ready_def)
    fix ds m b assume ds: "strict_prefix ds q"
    then have "file_at h ds = None"
      using rd by (auto simp: ready_def file_at_def split: option.splits node.splits)
    then show "tree h' ds \<noteq> Some (FileNode m b)"
      using files [of ds] ds by (auto simp: file_at_def strict_prefix_def)
  qed
qed

lemma bin_paths [simp]:
  "clean_abs ''/seal''" "clean_abs SwapOciHookBinaryPathContainer"
  "comps (Join [''/host'', SealBinaryPathHost]) = [''host'', ''opt'', ''podlock'', ''bin'', ''seal'']"
  "comps (Join [''/host'', SwapOciHookBinaryPathHost]) =
     [''host'', ''opt'', ''podlock'', ''bin'', ''swap-oci-hook'']"
  "comps ''/seal'' = [''seal'']" "comps SwapOciHookBinaryPathContainer = [''swap-oci-hook'']"
  by code_simp+

section \<open>A container starting from nothing\<close>

text \<open>Nothing of the container is on the host yet, and its parent directories can be made.\<close>

definition fresh_container :: "host \<Rightarrow> string \<Rightarrow> string \<Rightarrow> bool" where
  "fresh_container h podID containerName \<longleftrightarrow>
     (\<forall>q. prefix (ctr_dir podID containerName) q \<longrightarrow> tree h q = None) \<and>
     (\<forall>q m b. strict_prefix q (ctr_dir podID containerName) \<longrightarrow> tree h q \<noteq> Some (FileNode m b))"

lemma fresh_ready:
  assumes "fresh_container h p c" "prefix (ctr_dir p c) q"
  shows "ready (tree h) q"
proof -
  have "q \<noteq> []" using assms(2) by (auto simp: ctr_dir_def)
  moreover have "tree h ds \<noteq> Some (FileNode m b)" if "strict_prefix ds q" for ds m b
  proof (cases "prefix (ctr_dir p c) ds")
    case False
    then have "strict_prefix ds (ctr_dir p c)"
      using that prefix_same_cases [of ds q "ctr_dir p c"] assms(2) by (auto simp: strict_prefix_def)
    then show ?thesis using assms(1) by (simp add: fresh_container_def)
  qed (use assms(1) in \<open>simp add: fresh_container_def\<close>)
  ultimately show ?thesis using assms by (simp add: ready_def fresh_container_def)
qed

lemma reserve_fresh_ok:
  assumes "proper p" "proper c" "\<forall>b \<in> set (keys m). clean_abs b" "tree_wf (tree h)" "no_faults h"
    "fresh_container h p c" "prefix_free (keys m)"
  shows "\<exists>h'. reserveSwappedBinaries p c m h = (Inr (), h')"
  unfolding reserveSwappedBinaries_def
  using assms by (intro reserve_loop_ok ballI fresh_ready)
    (auto simp: prefix_free_def comps_swappedBinaryPathOnHost swapped_dir_def)

lemma swapped_not_Nil: "proper p \<Longrightarrow> proper c \<Longrightarrow> clean_abs b \<Longrightarrow> swapped p c b \<noteq> []"
  by (simp add: comps_swappedBinaryPathOnHost swapped_dir_def)

section \<open>Properties\<close>

text \<open>A host with nothing on it and a profile map, for the witnesses.\<close>

definition host0 :: host where
  "host0 = \<lparr>tree = [[] \<mapsto> DirNode 0x1ED], wd = ''/'', umask = 0x12, fault = (\<lambda>_ _. None), progress = (\<lambda>_. 0), gone = (\<lambda>_. False)\<rparr>"

definition bins0 :: ProfileByBinary where
  "bins0 = Some [(''/usr/bin/curl'', zero_profile\<lparr>ReadOnly := [''/etc'']\<rparr>), (''/bin/sh'', zero_profile)]"

lemma host0_wf [simp]: "tree_wf (tree host0)" "no_faults host0"
  by (auto simp: host0_def no_faults_def intro!: tree_wfI split: if_splits)

lemma host0_fresh: "fresh_container host0 p c"
  by (auto simp: fresh_container_def host0_def ctr_dir_def pod_dir_def)

text \<open>Whether or not it succeeds, reserving the swapped binaries of a container changes and
  removes nothing that is on the host; all it adds is, for binaries of the profile, the empty file at
  the binary's path below the container's own swapped-binaries directory, and directories above it.\<close>

lemma reserve_confined:
  assumes "proper podID" "proper containerName" "\<forall>b \<in> set (keys m). clean_abs b"
    and "reserveSwappedBinaries podID containerName m h = (r, h')"
  shows "tree h \<subseteq>\<^sub>m tree h' \<and>
    (\<forall>q n. tree h q = None \<and> tree h' q = Some n \<longrightarrow>
       (\<exists>b \<in> set (keys m). let p = swapped_dir podID containerName @ comps b in
          q = p \<and> (\<exists>mode. n = FileNode mode []) \<or> strict_prefix q p \<and> (\<exists>mode. n = DirNode mode)))"
proof -
  have "grows (swapped podID containerName ` set (keys m)) h h'"
    by (rule reserve_loop_grows [OF assms(4) [unfolded reserveSwappedBinaries_def]])
      (use assms(1-3) swapped_not_Nil in blast)
  with assms(1-3) show ?thesis
    by (simp add: grows_def comps_swappedBinaryPathOnHost Let_def)
qed

lemma reserve_confined_witness:
  "fst (reserveSwappedBinaries ''pod1'' ''web'' bins0 host0) = Inr () \<and>
     tree host0 \<subseteq>\<^sub>m tree (snd (reserveSwappedBinaries ''pod1'' ''web'' bins0 host0))"
proof
  have names: "proper ''pod1''" "proper ''web''" "\<forall>b \<in> set (keys bins0). clean_abs b" by code_simp+
  moreover have "prefix_free (keys bins0)" by code_simp
  ultimately show "fst (reserveSwappedBinaries ''pod1'' ''web'' bins0 host0) = Inr ()"
    using reserve_fresh_ok [OF _ _ _ host0_wf host0_fresh, of "''pod1''" "''web''" bins0] by auto
  from names have "proper ''pod1''" "proper ''web''" "\<forall>b \<in> set (keys bins0). clean_abs b" by simp_all
  from reserve_confined [OF this prod.collapse [symmetric]]
  show "tree host0 \<subseteq>\<^sub>m tree (snd (reserveSwappedBinaries ''pod1'' ''web'' bins0 host0))" by blast
qed

text \<open>C27: For a container that starts from nothing, on a host where no call fails, reserving its
  swapped binaries succeeds exactly when no binary of the profile lies below another one as a path:
  the loop makes a file where the other binary needs a directory.\<close>

theorem reserve_succeeds_iff:
  assumes "proper podID" "proper containerName" "\<forall>b \<in> set (keys m). clean_abs b"
    and "tree_wf (tree h)" "no_faults h" "fresh_container h podID containerName"
  shows "fst (reserveSwappedBinaries podID containerName m h) = Inr () \<longleftrightarrow> prefix_free (keys m)"
proof
  assume ok: "fst (reserveSwappedBinaries podID containerName m h) = Inr ()"
  show "prefix_free (keys m)"
    unfolding prefix_free_def
  proof (intro ballI notI)
    fix a b assume "a \<in> set (keys m)" "b \<in> set (keys m)" "strict_prefix (comps a) (comps b)"
    then have nested: "a \<in> set (keys m)" "b \<in> set (keys m)"
      "strict_prefix (swapped podID containerName a) (swapped podID containerName b)"
      using assms(1-3) by (simp_all add: comps_swappedBinaryPathOnHost)
    obtain h' where "reserve_loop podID containerName (keys m) h = (Inr (), h')"
      using ok by (cases "reserve_loop podID containerName (keys m) h")
        (simp add: reserveSwappedBinaries_def)
    then show False
      by (rule reserve_loop_nested [OF _ assms(4) _ nested]) (use assms(1-3) swapped_not_Nil in blast)
  qed
next
  assume "prefix_free (keys m)"
  then show "fst (reserveSwappedBinaries podID containerName m h) = Inr ()"
    using reserve_fresh_ok [OF assms] by auto
qed

theorem reserve_succeeds_iff_witness:
  "fst (reserveSwappedBinaries ''pod1'' ''web'' bins0 host0) = Inr () \<and> prefix_free (keys bins0)"
proof -
  have "fst (reserveSwappedBinaries ''pod1'' ''web'' bins0 host0) = Inr () \<longleftrightarrow> prefix_free (keys bins0)"
    by (rule reserve_succeeds_iff) (code_simp, code_simp, code_simp, simp_all add: host0_fresh)
  moreover have "prefix_free (keys bins0)" by code_simp
  ultimately show ?thesis by simp
qed

text \<open>C28: After a copy that reports success the destination has the checksum of the source, and the
  very bytes of the source when the destination was missing; only the destination's content can have
  changed, also after a failure.\<close>

theorem copy_correct:
  assumes "CopyFileIfDifferent src dst h = (r, h')" "clean_abs src" "clean_abs dst"
  shows "(r = Inr () \<longrightarrow> (\<exists>b d. file_at h (comps src) = Some b \<and> file_at h' (comps dst) = Some d \<and>
        sha256_hex d = sha256_hex b \<and> (file_at h (comps dst) = None \<longrightarrow> d = b))) \<and>
    (\<forall>q. q \<noteq> comps dst \<longrightarrow> file_at h' q = file_at h q)"
proof (intro conjI impI allI)
  assume "r = Inr ()"
  with assms(1) have ok: "CopyFileIfDifferent src dst h = (Inr (), h')" by simp
  show "\<exists>b d. file_at h (comps src) = Some b \<and> file_at h' (comps dst) = Some d \<and>
      sha256_hex d = sha256_hex b \<and> (file_at h (comps dst) = None \<longrightarrow> d = b)"
    using copy_if_different_stored [OF ok assms(2,3)] copy_if_different_missing [OF ok assms(2,3)]
    by fastforce
qed (use copy_if_different_frame [OF assms] in blast)

text \<open>A host whose container image holds the \<open>seal\<close> binary.\<close>

definition host_seal :: host where
  "host_seal = host0\<lparr>tree := (tree host0)([''seal''] \<mapsto> FileNode 0x1ED ''ELF'')\<rparr>"

theorem copy_correct_witness:
  "file_at (snd (CopyFileIfDifferent ''/seal'' ''/host/seal'' host_seal)) [''host'', ''seal''] =
     Some ''ELF''"
proof -
  let ?r = "CopyFileIfDifferent ''/seal'' ''/host/seal'' host_seal"
  have paths: "clean_abs ''/seal''" "clean_abs ''/host/seal''" by code_simp+
  have c: "comps ''/host/seal'' = [''host'', ''seal'']" by code_simp
  have "comps ''/host'' = [''host'']" "Dir ''/host/seal'' = ''/host''" by code_simp+
  then have "fst ?r = Inr ()"
    using paths c
    by (simp add: CopyFileIfDifferent_def fileSha256_def os_Open_def fs_open_def fs_read_def host_seal_def
        host0_def copy_file_def os_MkdirAll_def os_Create_def fs_create_def io_Copy_def fs_write_def fs_append_def)
  moreover have "file_at host_seal [''host'', ''seal''] = None" "file_at host_seal [''seal''] = Some ''ELF''"
    by code_simp+
  ultimately show ?thesis
    using copy_correct [OF prod.collapse [symmetric] paths, of host_seal] c by auto
qed

end
