(* ===== verification/Seal_Constants.thy ===== *)
theory Seal_Constants
  imports Main
begin

text \<open>
  \<open>internal/seal/constants.go\<close>: the environment variables of \<open>seal\<close>, which the NRI plugin sets
  and \<open>seal\<close> reads.
\<close>

definition ProfileEnvVar :: string where
  "ProfileEnvVar = ''SEAL_PROFILE_PATH''"

definition LogLevelEnvVar :: string where
  "LogLevelEnvVar = ''SEAL_LOG_LEVEL''"

definition LogFormatEnvVar :: string where
  "LogFormatEnvVar = ''SEAL_LOG_FORMAT''"

definition AddLinkedLibrariesEnvVar :: string where
  "AddLinkedLibrariesEnvVar = ''SEAL_ADD_LINKED_LIBRARIES''"

definition SealEnvVarPrefix :: string where
  "SealEnvVarPrefix = ''SEAL_''"

end
