(* ===== verification/Nri_Plugin.thy ===== *)
theory Nri_Plugin
  imports Nri_Filesystem Seal_Constants
begin

text \<open>
  The NRI plugin: \<open>createContainerAdjustment\<close> of \<open>internal/nri/adjustments.go\<close> and the handlers
  \<open>CreateContainer\<close> and \<open>RemoveContainer\<close> of \<open>internal/nri/plugin.go\<close>. A nil pod or container is
  \<open>None\<close>; the getters of the NRI API answer the zero value on nil. The Kubernetes client is the
  parameter \<open>get\<close>, the answer of \<open>Client.Get\<close> for a name. An adjustment is the sequence of calls
  made on it: what \<open>AddMount\<close>, \<open>AddHooks\<close> and \<open>AddEnv\<close> do with their arguments belongs to NRI.
\<close>

section \<open>adjustments.go\<close>

record Mount =
  Destination :: string
  Source :: string
  Options :: "string list"
  Type :: string

record Hook =
  Path :: string
  Args :: "string list"

datatype adjustment_call =
    AddMount Mount
  | AddHooks "Hook list"
  | AddEnv string string

type_synonym ContainerAdjustment = "adjustment_call list"

definition mountTypeBind :: string where "mountTypeBind = ''bind''"

definition mountOptionBind :: string where "mountOptionBind = ''rbind''"

definition mountOptionPriv :: string where "mountOptionPriv = ''rprivate''"

definition hookArgBackup :: string where "hookArgBackup = ''-backup''"

definition hookArgTarget :: string where "hookArgTarget = ''-target''"

definition swapOciHookCmd :: string where "swapOciHookCmd = ''swap-oci-hook''"

lemmas adjustment_constants [simp] = mountTypeBind_def mountOptionBind_def mountOptionPriv_def hookArgBackup_def
  hookArgTarget_def swapOciHookCmd_def

definition bind_mount :: "string \<Rightarrow> string \<Rightarrow> Mount" where
  "bind_mount dst src =
     \<lparr>Destination = dst, Source = src, Options = [mountOptionPriv, mountOptionBind, ''ro''], Type = mountTypeBind\<rparr>"

definition swap_hook :: "string \<Rightarrow> Hook" where
  "swap_hook binary =
     \<lparr>Path = SwapOciHookBinaryPathHost,
      Args = [swapOciHookCmd, hookArgTarget, binary, hookArgBackup, SwappedBinaryPathInsideContainer binary]\<rparr>"

definition createContainerAdjustment ::
  "string \<Rightarrow> string \<Rightarrow> ProfileByBinary \<Rightarrow> string \<Rightarrow> ContainerAdjustment" where
  "createContainerAdjustment podID containerName profileByBinary logLevel =
     [AddMount (bind_mount SealBinaryPathContainer SealBinaryPathHost),
      AddMount (bind_mount ContainerProfilePathInsideContainer
        (landlockProfilePathOnHost podID containerName))] @
     map (\<lambda>binary. AddMount (bind_mount (SwappedBinaryPathInsideContainer binary)
         (swappedBinaryPathOnHost podID containerName binary)))
       (keys profileByBinary) @
     [AddHooks (map swap_hook (keys profileByBinary)), AddEnv LogLevelEnvVar logLevel]"

section \<open>plugin.go\<close>

record PodSandbox =
  pod_Id :: string
  pod_Name :: string
  pod_Namespace :: string
  pod_Labels :: "string go_map"

record Container =
  ctr_Name :: string

definition GetId :: "PodSandbox option \<Rightarrow> string" where
  "GetId pod = (case pod of None \<Rightarrow> [] | Some p \<Rightarrow> pod_Id p)"

definition CreateContainer ::
  "(NamespacedName \<Rightarrow> LandlockProfile result) \<Rightarrow> string \<Rightarrow> PodSandbox option \<Rightarrow> Container option \<Rightarrow>
     (ContainerAdjustment option, host) effect" where
  "CreateContainer get logLevel pod ctr h =
     (case pod of
        None \<Rightarrow> (Inl (Errorf ''pod is nil''), h)
      | Some pod \<Rightarrow>
     (case lookup (pod_Labels pod) PodProfileLabel of
        None \<Rightarrow> (Inr None, h)
      | Some profileName \<Rightarrow>
     (case ctr of
        None \<Rightarrow> (Inl (Errorf ''container is nil''), h)
      | Some ctr \<Rightarrow>
     (case get \<lparr>nn_namespace = pod_Namespace pod, nn_name = profileName\<rparr> of
        Inl e \<Rightarrow> (Inl (Wrap (''failed to get LandlockProfile '' @ squote profileName @ '': '') e), h)
      | Inr profile \<Rightarrow>
     (if ProfilesByContainer (Spec profile) = None then (Inr None, h)
      else
     (case lookup (ProfilesByContainer (Spec profile)) (ctr_Name ctr) of
        None \<Rightarrow> (Inr None, h)
      | Some profileByBinary \<Rightarrow>
          attempt (reserveSwappedBinaries (pod_Id pod) (ctr_Name ctr) profileByBinary) (\<lambda>e. e)
            (\<lambda>_. attempt
                (writeLandlockProfileToHostFilesystem (pod_Id pod) (ctr_Name ctr) profileByBinary)
                (\<lambda>e. e)
              (\<lambda>_. return_ok
                (Some (createContainerAdjustment (pod_Id pod) (ctr_Name ctr) profileByBinary logLevel))))
            h))))))"

definition RemoveContainer :: "PodSandbox option \<Rightarrow> Container option \<Rightarrow> (unit, host) effect" where
  "RemoveContainer pod ctr =
     (let dir = podlockRuntimePodDir (GetId pod) in
      attempt (os_RemoveAll dir)
          (Wrap (''failed to remove PodLock runtime dir '' @ squote dir @ '': ''))
        return_ok)"

text \<open>When the connection to the runtime is lost the plugin exits with this status.\<close>

definition OnClose :: nat where
  "OnClose = 1"

section \<open>The steps of CreateContainer\<close>

text \<open>
  Either the call decides on its arguments alone and leaves the host as it is, or there is a profile
  for the container, and the two filesystem operations follow.
\<close>

type_synonym kube_get = "NamespacedName \<Rightarrow> LandlockProfile result"

definition selected :: "kube_get \<Rightarrow> PodSandbox \<Rightarrow> Container \<Rightarrow> ProfileByBinary \<Rightarrow> bool" where
  "selected get pod ctr m \<longleftrightarrow>
     (\<exists>name profile. lookup (pod_Labels pod) PodProfileLabel = Some name \<and>
        get \<lparr>nn_namespace = pod_Namespace pod, nn_name = name\<rparr> = Inr profile \<and>
        lookup (ProfilesByContainer (Spec profile)) (ctr_Name ctr) = Some m)"

lemma CreateContainer_steps:
  assumes "CreateContainer get lvl pod ctr h = (r, h')"
  obtains e where "r = Inl e" "h' = h"
    | "r = Inr None" "h' = h"
    | p c m e where "pod = Some p" "ctr = Some c" "selected get p c m" "r = Inl e"
        "reserveSwappedBinaries (pod_Id p) (ctr_Name c) m h = (Inl e, h')"
    | p c m h1 e where "pod = Some p" "ctr = Some c" "selected get p c m" "r = Inl e"
        "reserveSwappedBinaries (pod_Id p) (ctr_Name c) m h = (Inr (), h1)"
        "writeLandlockProfileToHostFilesystem (pod_Id p) (ctr_Name c) m h1 = (Inl e, h')"
    | p c m h1 where "pod = Some p" "ctr = Some c" "selected get p c m"
        "r = Inr (Some (createContainerAdjustment (pod_Id p) (ctr_Name c) m lvl))"
        "reserveSwappedBinaries (pod_Id p) (ctr_Name c) m h = (Inr (), h1)"
        "writeLandlockProfileToHostFilesystem (pod_Id p) (ctr_Name c) m h1 = (Inr (), h')"
proof (cases "\<exists>p c m. pod = Some p \<and> ctr = Some c \<and> selected get p c m")
  case True
  then obtain p c m where sel: "pod = Some p" "ctr = Some c" "selected get p c m" by blast
  then have "attempt (reserveSwappedBinaries (pod_Id p) (ctr_Name c) m) (\<lambda>e. e)
      (\<lambda>_. attempt (writeLandlockProfileToHostFilesystem (pod_Id p) (ctr_Name c) m) (\<lambda>e. e)
        (\<lambda>_. return_ok (Some (createContainerAdjustment (pod_Id p) (ctr_Name c) m lvl)))) h = (r, h')"
    using assms by (auto simp: CreateContainer_def selected_def split: if_splits)
  then show thesis
  proof (cases rule: attempt_cases)
    case (failed e)
    then show thesis using that(3) [OF sel] by simp
  next
    case reserved: (continued u h1)
    from reserved(2) show thesis
      by (cases rule: attempt_cases) (use that(4,5) [OF sel] reserved(1) in auto)
  qed
next
  case False
  then show thesis
    using assms that(1,2)
    by (auto simp: CreateContainer_def selected_def split: option.splits sum.splits if_splits)
qed

lemma selected_unique: "selected get p c m \<Longrightarrow> selected get p c m' \<Longrightarrow> m = m'"
  by (auto simp: selected_def)

text \<open>The names Kubernetes gives and the binaries the webhook admits.\<close>

definition names_ok :: "PodSandbox \<Rightarrow> Container \<Rightarrow> bool" where
  "names_ok p c \<longleftrightarrow> proper (pod_Id p) \<and> proper (ctr_Name c)"

definition binaries_ok :: "ProfileByBinary \<Rightarrow> bool" where
  "binaries_ok m \<longleftrightarrow> (\<forall>b \<in> set (keys m). clean_abs b)"

lemma reserve_grows:
  assumes "reserveSwappedBinaries (pod_Id p) (ctr_Name c) m h = (r, h')" "names_ok p c" "binaries_ok m"
  shows "grows ((\<lambda>b. swapped_dir (pod_Id p) (ctr_Name c) @ comps b) ` set (keys m)) h h'"
proof -
  have "swapped (pod_Id p) (ctr_Name c) ` set (keys m) =
      (\<lambda>b. swapped_dir (pod_Id p) (ctr_Name c) @ comps b) ` set (keys m)"
    using assms(2,3) by (force simp: names_ok_def binaries_ok_def comps_swappedBinaryPathOnHost)
  moreover have "grows (swapped (pod_Id p) (ctr_Name c) ` set (keys m)) h h'"
    by (rule reserve_loop_grows [OF assms(1) [unfolded reserveSwappedBinaries_def]])
      (use assms(2,3) swapped_not_Nil in \<open>auto simp: names_ok_def binaries_ok_def\<close>)
  ultimately show ?thesis by simp
qed

lemma reserve_file_at:
  assumes "reserveSwappedBinaries (pod_Id p) (ctr_Name c) m h = (r, h')" "names_ok p c" "binaries_ok m"
    and "\<not> strict_prefix (ctr_dir (pod_Id p) (ctr_Name c)) q"
  shows "file_at h' q = file_at h q"
  by (rule grows_file_at [OF reserve_grows [OF assms(1-3)]])
    (use assms(4) in \<open>auto simp: swapped_dir_def\<close>)

text \<open>What any call of \<open>CreateContainer\<close> leaves alone, and the shape it keeps.\<close>

lemma CreateContainer_frame:
  assumes "CreateContainer get lvl (Some p) (Some c) h = (r, h')" "names_ok p c"
    and "\<And>m. selected get p c m \<Longrightarrow> binaries_ok m"
    and "\<not> strict_prefix (ctr_dir (pod_Id p) (ctr_Name c)) q"
  shows "file_at h' q = file_at h q"
proof -
  have q: "q \<noteq> comps (landlockProfilePathOnHost (pod_Id p) (ctr_Name c))"
    using assms(2,4) by (auto simp: names_ok_def comps_landlockProfilePathOnHost)
  from assms(1) show ?thesis
  proof (cases rule: CreateContainer_steps)
    case (3 p c m e)
    then show ?thesis using reserve_file_at assms(2-4) by simp
  next
    case (4 p c m h1 e)
    then show ?thesis using reserve_file_at assms(2-4) write_profile_frame q by simp
  next
    case (5 p c m h1)
    then show ?thesis using reserve_file_at assms(2-4) write_profile_frame q by simp
  qed simp_all
qed

lemma CreateContainer_env:
  assumes "CreateContainer get lvl (Some p) (Some c) h = (r, h')" "names_ok p c"
    and "\<And>m. selected get p c m \<Longrightarrow> binaries_ok m" and wf: "tree_wf (tree h)"
  shows "same_env h h' \<and> tree_wf (tree h')"
proof -
  have reserve: "same_env h h1 \<and> tree_wf (tree h1)"
    if "reserveSwappedBinaries (pod_Id p) (ctr_Name c) m h = (x, h1)" "selected get p c m" for x m h1
    using growsD(1) [OF reserve_grows [OF that(1) assms(2)]] assms(3) that(2)
      reserve_loop_wf [OF that(1) [unfolded reserveSwappedBinaries_def] wf] by blast
  from assms(1) show ?thesis
  proof (cases rule: CreateContainer_steps)
    case (3 p c m e)
    then show ?thesis using reserve by simp
  next
    case (4 p c m h1 e)
    then show ?thesis using reserve write_profile_env same_env_trans by blast
  next
    case (5 p c m h1)
    then show ?thesis using reserve write_profile_env same_env_trans by blast
  qed (use wf in simp_all)
qed

lemma CreateContainer_runs:
  assumes "selected get p c m" "reserveSwappedBinaries (pod_Id p) (ctr_Name c) m h = (Inr (), h1)"
    and "writeLandlockProfileToHostFilesystem (pod_Id p) (ctr_Name c) m h1 = (Inr (), h2)"
  shows "CreateContainer get lvl (Some p) (Some c) h =
    (Inr (Some (createContainerAdjustment (pod_Id p) (ctr_Name c) m lvl)), h2)"
proof -
  obtain name profile where "lookup (pod_Labels p) PodProfileLabel = Some name"
    "get \<lparr>nn_namespace = pod_Namespace p, nn_name = name\<rparr> = Inr profile"
    and l: "lookup (ProfilesByContainer (Spec profile)) (ctr_Name c) = Some m"
    using assms(1) by (auto simp: selected_def)
  moreover have "ProfilesByContainer (Spec profile) \<noteq> None" using l by (rule lookup_not_nil)
  ultimately show ?thesis using assms(2,3) by (simp add: CreateContainer_def)
qed

lemma CreateContainer_succeeds:
  assumes sel: "selected get p c m" and names: "names_ok p c" and bins: "binaries_ok m"
    and host: "tree_wf (tree h)" "no_faults h" "fresh_container h (pod_Id p) (ctr_Name c)"
    and pf: "prefix_free (keys m)"
  shows "\<exists>h'. CreateContainer get lvl (Some p) (Some c) h =
    (Inr (Some (createContainerAdjustment (pod_Id p) (ctr_Name c) m lvl)), h')"
proof -
  let ?d = "ctr_dir (pod_Id p) (ctr_Name c)"
  from names have n: "proper (pod_Id p)" "proper (ctr_Name c)" by (simp_all add: names_ok_def)
  obtain h1 where h1: "reserveSwappedBinaries (pod_Id p) (ctr_Name c) m h = (Inr (), h1)"
    using reserve_fresh_ok [OF n bins [unfolded binaries_ok_def] host pf] by blast
  note gr = reserve_grows [OF h1 names bins]
  have q: "comps (landlockProfilePathOnHost (pod_Id p) (ctr_Name c)) = ?d @ [ContainerProfileName]"
    by (rule comps_landlockProfilePathOnHost [OF n])
  have "ready (tree h1) (?d @ [ContainerProfileName])"
    by (rule ready_grows [OF gr])
      (auto simp: swapped_dir_def ContainerProfileName_def intro!: fresh_ready [OF host(3)])
  moreover have "tree_wf (tree h1)"
    by (rule reserve_loop_wf [OF h1 [unfolded reserveSwappedBinaries_def] host(1)])
  moreover have "no_faults h1" using growsD(1) [OF gr] host(2) by (rule no_faults_same_env)
  ultimately obtain h2 where
    "writeLandlockProfileToHostFilesystem (pod_Id p) (ctr_Name c) m h1 = (Inr (), h2)"
    using write_profile_ok q by metis
  then show ?thesis using CreateContainer_runs [OF sel h1] by blast
qed

text \<open>Where an adjustment was delivered, no binary of the profile lies below another one.\<close>

lemma delivered_apart:
  assumes "reserveSwappedBinaries (pod_Id p) (ctr_Name c) m h = (Inr (), h1)" "names_ok p c" "binaries_ok m"
    and "tree_wf (tree h)" "b \<in> set (keys m)" "b' \<in> set (keys m)" "prefix (comps b) (comps b')"
  shows "b = b'"
proof (rule ccontr)
  have n: "proper (pod_Id p)" "proper (ctr_Name c)" using assms(2) by (simp_all add: names_ok_def)
  have clean: "clean_abs b" if "b \<in> set (keys m)" for b using assms(3) that by (simp add: binaries_ok_def)
  assume "b \<noteq> b'"
  then have "strict_prefix (comps b) (comps b')"
    using assms(5-7) clean clean_abs_comps_inject by (auto simp: strict_prefix_def)
  then have "strict_prefix (swapped (pod_Id p) (ctr_Name c) b) (swapped (pod_Id p) (ctr_Name c) b')"
    using assms(5,6) n clean by (simp add: comps_swappedBinaryPathOnHost)
  then show False
    using reserve_loop_nested [of "pod_Id p" "ctr_Name c" "keys m" h h1 b b'] assms(1,4-6) n clean
      swapped_not_Nil by (simp add: reserveSwappedBinaries_def)
qed

section \<open>The life of a node\<close>

text \<open>
  A node runs \<open>CreateContainer\<close> and \<open>RemoveContainer\<close> in any order, for any pods and containers
  with proper names and for profiles the webhook admits; either may fail at any call. Profiles come and
  go between the calls: \<open>G\<close> are the clients that may answer, a different one for each call.
\<close>

inductive node_step :: "(kube_get \<Rightarrow> bool) \<Rightarrow> string \<Rightarrow> host \<Rightarrow> host \<Rightarrow> bool"
  for G :: "kube_get \<Rightarrow> bool" and lvl :: string where
  create: "G get \<Longrightarrow> names_ok p c \<Longrightarrow> (\<And>m. selected get p c m \<Longrightarrow> binaries_ok m) \<Longrightarrow>
     CreateContainer get lvl (Some p) (Some c) h = (r, h') \<Longrightarrow> node_step G lvl h h'"
| remove: "proper (pod_Id p) \<Longrightarrow> RemoveContainer (Some p) c h = (r, h') \<Longrightarrow> node_step G lvl h h'"

inductive_cases node_stepE: "node_step G lvl h h'"

text \<open>\<open>os.RemoveAll\<close> of a pod's directory.\<close>

lemma podlockRuntimePodDir_RemoveAll:
  assumes "proper p"
  shows "os_RemoveAll (podlockRuntimePodDir p) = fs_remove_all (pod_dir p)"
proof
  fix h
  have "podlockRuntimePodDir p = abs_path (pod_dir p)"
    using assms clean_abs_comps_inject [of "podlockRuntimePodDir p" "abs_path (pod_dir p)"]
    by (simp add: comps_podlockRuntimePodDir pod_dir_def)
  moreover have "last (split_on sep (abs_path (pod_dir p))) = p"
    using assms by (simp add: split_abs_path pod_dir_def)
  ultimately show "os_RemoveAll (podlockRuntimePodDir p) h = fs_remove_all (pod_dir p) h"
    using assms by (auto simp: os_RemoveAll_def pod_dir_def proper_def)
qed

lemma RemoveContainer_steps:
  assumes "RemoveContainer (Some p) c h = (r, h')" "proper (pod_Id p)"
  obtains e where "r = Inl e" "h' = h"
    | e where "r = Inl e" "same_env h h'"
      "tree h' = (\<lambda>q. if lost h (pod_dir (pod_Id p)) q then None else tree h q)"
    | "r = Inr ()" "same_env h h'"
      "tree h' = (\<lambda>q. if prefix (pod_dir (pod_Id p)) q then None else tree h q)"
proof -
  have ne: "pod_dir (pod_Id p) \<noteq> []" by (simp add: pod_dir_def)
  have un: "prefix (pod_dir (pod_Id p)) q \<and> q \<noteq> [] \<longleftrightarrow> prefix (pod_dir (pod_Id p)) q" for q
    using ne by auto
  from assms(1) have "attempt (fs_remove_all (pod_dir (pod_Id p)))
      (Wrap (''failed to remove PodLock runtime dir '' @ squote (podlockRuntimePodDir (pod_Id p)) @ '': ''))
      return_ok h = (r, h')"
    using assms(2) by (simp add: RemoveContainer_def Let_def GetId_def podlockRuntimePodDir_RemoveAll)
  then show thesis
    by (cases rule: attempt_cases)
      (use that ne in \<open>auto simp: fs_remove_all_def un split: option.splits if_splits\<close>)
qed

text \<open>Either way, something is removed with all below it, and only of the pod.\<close>

lemma RemoveContainer_removes:
  assumes "RemoveContainer (Some p) c h = (r, h')" "proper (pod_Id p)"
  shows "\<exists>R. same_env h h' \<and> tree h' = (\<lambda>q. if R q then None else tree h q) \<and>
    (\<forall>q. R q \<longrightarrow> prefix (pod_dir (pod_Id p)) q) \<and> (\<forall>q w. R q \<longrightarrow> R (q @ [w])) \<and>
    (r = Inr () \<longrightarrow> R = prefix (pod_dir (pod_Id p)))"
  using assms
proof (cases rule: RemoveContainer_steps)
  case (1 e)
  then show ?thesis by (intro exI [of _ "\<lambda>_. False"]) simp
next
  case (2 e)
  then show ?thesis
    using lost_below [of h "pod_dir (pod_Id p)"] lost_snoc [of h "pod_dir (pod_Id p)"]
    by (intro exI [of _ "lost h (pod_dir (pod_Id p))"]) (auto simp: strict_prefix_def)
next
  case 3
  then show ?thesis by (intro exI [of _ "prefix (pod_dir (pod_Id p))"]) simp
qed

text \<open>The invariant: the tree is a tree, no file stands where a directory of the plugin goes, and
  the files outside of the plugin's directory are those of the start.\<close>

definition podlock_shape :: "host \<Rightarrow> bool" where
  "podlock_shape h \<longleftrightarrow> (\<forall>p c q. prefix q (ctr_dir p c) \<longrightarrow> file_at h q = None)"

definition node_inv :: "host \<Rightarrow> host \<Rightarrow> bool" where
  "node_inv h0 h \<longleftrightarrow> tree_wf (tree h) \<and> same_env h0 h \<and> podlock_shape h \<and>
     (\<forall>q. \<not> prefix [''var'', ''run'', ''podlock''] q \<longrightarrow> file_at h q = file_at h0 q)"

lemma not_below_ctr_dir: "prefix q (ctr_dir p' c') \<Longrightarrow> \<not> strict_prefix (ctr_dir p c) q"
proof
  assume "prefix q (ctr_dir p' c')" "strict_prefix (ctr_dir p c) q"
  then have "length (ctr_dir p c) < length (ctr_dir p' c')"
    by (meson order_less_le_trans prefix_length_le prefix_length_less)
  then show False by (simp add: ctr_dir_def pod_dir_def)
qed

lemma outside_ctr_dir:
  "\<not> prefix [''var'', ''run'', ''podlock''] q \<Longrightarrow> \<not> prefix (pod_dir p) q"
  "\<not> prefix [''var'', ''run'', ''podlock''] q \<Longrightarrow> \<not> strict_prefix (ctr_dir p c) q"
  by (auto simp: ctr_dir_def pod_dir_def prefix_def strict_prefix_def)

lemma node_step_inv: "node_step G lvl h h' \<Longrightarrow> node_inv h0 h \<Longrightarrow> node_inv h0 h'"
proof (erule node_stepE)
  fix get p c r
  assume inv: "node_inv h0 h" and names: "names_ok p c"
    and bins: "\<And>m. selected get p c m \<Longrightarrow> binaries_ok m"
    and step: "CreateContainer get lvl (Some p) (Some c) h = (r, h')"
  from inv have wf: "tree_wf (tree h)" by (simp add: node_inv_def)
  note frame = CreateContainer_frame [OF step names bins]
  have "podlock_shape h'"
    using inv frame not_below_ctr_dir by (simp add: node_inv_def podlock_shape_def)
  then show "node_inv h0 h'"
    using CreateContainer_env [OF step names bins wf] inv frame outside_ctr_dir(2) same_env_trans
    by (simp add: node_inv_def) blast
next
  fix p :: PodSandbox and c r
  assume inv: "node_inv h0 h" and name: "proper (pod_Id p)"
    and step: "RemoveContainer (Some p) c h = (r, h')"
  obtain R where R: "same_env h h'" "tree h' = (\<lambda>q. if R q then None else tree h q)"
    "\<And>q. R q \<Longrightarrow> prefix (pod_dir (pod_Id p)) q" "\<And>q w. R q \<Longrightarrow> R (q @ [w])"
    "r = Inr () \<Longrightarrow> R = prefix (pod_dir (pod_Id p))"
    using RemoveContainer_removes [OF step name] by blast
  have files: "file_at h' q = (if R q then None else file_at h q)" for q by (simp add: R(2) file_at_def)
  have "\<not> R []" using R(3) [of "[]"] by (auto simp: pod_dir_def)
  then have "tree_wf (tree h')"
    using inv R(4) tree_wf_root [of "tree h"] tree_wf_parent [of "tree h"]
    by (intro tree_wfI) (auto simp: node_inv_def R(2) split: if_splits)
  moreover have "same_env h0 h'" using inv R(1) same_env_trans by (auto simp: node_inv_def)
  moreover have "podlock_shape h'" using inv by (simp add: node_inv_def podlock_shape_def files)
  ultimately show "node_inv h0 h'"
    using inv files R(3) outside_ctr_dir(1) by (simp add: node_inv_def) blast
qed

lemma node_reachable_inv:
  assumes "(node_step G lvl)\<^sup>*\<^sup>* h0 h" "tree_wf (tree h0)" "podlock_shape h0"
  shows "node_inv h0 h"
  using assms(1)
proof (induction rule: rtranclp_induct)
  case base
  then show ?case using assms(2,3) by (simp add: node_inv_def)
next
  case (step h h')
  then show ?case using node_step_inv by blast
qed

lemma shape_fresh:
  assumes "podlock_shape h" "tree_wf (tree h)" "tree h (ctr_dir p c) = None"
  shows "fresh_container h p c"
  unfolding fresh_container_def
proof (intro conjI allI impI)
  fix q assume q: "prefix (ctr_dir p c) q"
  show "tree h q = None"
  proof (rule ccontr)
    assume "tree h q \<noteq> None"
    then obtain n where n: "tree h q = Some n" by blast
    then have "strict_prefix (ctr_dir p c) q" using q assms(3) by (auto simp: strict_prefix_def)
    from tree_wf_ancestor [OF assms(2) n this] show False using assms(3) by simp
  qed
next
  fix q k b assume "strict_prefix q (ctr_dir p c)"
  then have "file_at h q = None" using assms(1) by (auto simp: podlock_shape_def strict_prefix_def)
  then show "tree h q \<noteq> Some (FileNode k b)" by (auto simp: file_at_def)
qed

section \<open>The store of profiles\<close>

text \<open>
  What a node is for, without paths and files: it keeps a text for each container, by pod and name.
  Creating a container may put, for that container, a prefix of the encoding of a profile selected for
  it (the whole text when the call succeeds); removing one drops the texts of its pod, or loses some of
  them when it fails.
\<close>

type_synonym profile_store = "string \<times> string \<Rightarrow> string option"

definition stored_profiles :: "host \<Rightarrow> profile_store" where
  "stored_profiles h = (\<lambda>(podID, containerName).
     if proper podID \<and> proper containerName
     then file_at h (ctr_dir podID containerName @ [ContainerProfileName]) else None)"

definition drop_pod :: "string \<Rightarrow> profile_store \<Rightarrow> profile_store" where
  "drop_pod podID v = (\<lambda>k. if fst k = podID then None else v k)"

inductive store_step :: "(kube_get \<Rightarrow> bool) \<Rightarrow> profile_store \<Rightarrow> profile_store \<Rightarrow> bool"
  for G :: "kube_get \<Rightarrow> bool" where
  skip: "store_step G v v"
| put: "G get \<Longrightarrow> selected get p c m \<Longrightarrow> prefix s (encode_profiles m) \<Longrightarrow>
     store_step G v (v((pod_Id p, ctr_Name c) \<mapsto> s))"
| drop: "store_step G v (drop_pod podID v)"
| lose: "(\<And>k. v' k = v k \<or> fst k = podID \<and> v' k = None) \<Longrightarrow> store_step G v v'"

lemma reserve_store:
  assumes "reserveSwappedBinaries (pod_Id p) (ctr_Name c) m h = (r, h')" "names_ok p c" "binaries_ok m"
  shows "stored_profiles h' = stored_profiles h"
proof -
  have "file_at h' (ctr_dir a b @ [ContainerProfileName]) = file_at h (ctr_dir a b @ [ContainerProfileName])" for a b
    by (rule grows_file_at [OF reserve_grows [OF assms]])
      (auto simp: swapped_dir_def ctr_dir_def pod_dir_def ContainerProfileName_def)
  then show ?thesis by (simp add: stored_profiles_def fun_eq_iff)
qed

lemma write_store:
  assumes "writeLandlockProfileToHostFilesystem (pod_Id p) (ctr_Name c) m h = (r, h')" "names_ok p c"
    and "file_at h' (comps (landlockProfilePathOnHost (pod_Id p) (ctr_Name c))) = v"
  shows "stored_profiles h' = (stored_profiles h)((pod_Id p, ctr_Name c) := v)"
proof -
  have names: "proper (pod_Id p)" "proper (ctr_Name c)" using assms(2) by (simp_all add: names_ok_def)
  have own: "comps (landlockProfilePathOnHost (pod_Id p) (ctr_Name c)) =
      ctr_dir (pod_Id p) (ctr_Name c) @ [ContainerProfileName]"
    using names by (rule comps_landlockProfilePathOnHost)
  have "file_at h' (ctr_dir a b @ [ContainerProfileName]) = file_at h (ctr_dir a b @ [ContainerProfileName])"
    if "(a, b) \<noteq> (pod_Id p, ctr_Name c)" for a b
    by (rule write_profile_frame [OF assms(1)]) (use that in \<open>auto simp: own ctr_dir_def pod_dir_def\<close>)
  then show ?thesis using assms(3) names by (auto simp: stored_profiles_def fun_eq_iff own)
qed

lemma create_store:
  assumes run: "CreateContainer get lvl (Some p) (Some c) h = (r, h')" and names: "names_ok p c"
    and bins: "\<And>m. selected get p c m \<Longrightarrow> binaries_ok m" and G: "G get"
  shows "store_step G (stored_profiles h) (stored_profiles h')"
    and "r = Inr (Some a) \<Longrightarrow> selected get p c m \<Longrightarrow>
      stored_profiles h' = (stored_profiles h)((pod_Id p, ctr_Name c) \<mapsto> encode_profiles m)"
proof -
  have "store_step G (stored_profiles h) (stored_profiles h') \<and> (r = Inr (Some a) \<longrightarrow> selected get p c m \<longrightarrow>
      stored_profiles h' = (stored_profiles h)((pod_Id p, ctr_Name c) \<mapsto> encode_profiles m))"
    using run
  proof (cases rule: CreateContainer_steps)
    case (3 p' c' m' e)
    then have "stored_profiles h' = stored_profiles h" using reserve_store names bins by simp
    then show ?thesis using 3(4) by (auto intro: store_step.skip)
  next
    case (4 p' c' m' h1 e)
    then have h1: "stored_profiles h1 = stored_profiles h" using reserve_store names bins by simp
    let ?q = "comps (landlockProfilePathOnHost (pod_Id p) (ctr_Name c))"
    have w: "writeLandlockProfileToHostFilesystem (pod_Id p) (ctr_Name c) m' h1 = (Inl e, h')"
      and sel: "selected get p c m'" using 4 by simp_all
    have own: "file_at h1 ?q = stored_profiles h1 (pod_Id p, ctr_Name c)"
      using names by (simp add: stored_profiles_def names_ok_def comps_landlockProfilePathOnHost)
    from write_profile_failed [OF w] have "store_step G (stored_profiles h) (stored_profiles h')"
    proof (elim disjE exE conjE)
      assume "file_at h' ?q = file_at h1 ?q"
      then have "stored_profiles h' = stored_profiles h" using write_store [OF w names] own h1 by simp
      then show ?thesis by (simp add: store_step.skip)
    next
      fix s assume "prefix s (encode_profiles m')" "file_at h' ?q = Some s"
      with write_store [OF w names] h1 show ?thesis using store_step.put [of G, OF G sel] by simp
    qed
    then show ?thesis using 4(4) by simp
  next
    case (5 p' c' m' h1)
    then have h1: "stored_profiles h1 = stored_profiles h" using reserve_store names bins by simp
    have w: "writeLandlockProfileToHostFilesystem (pod_Id p) (ctr_Name c) m' h1 = (Inr (), h')"
      and sel: "selected get p c m'" using 5 by simp_all
    from write_store [OF w names write_profile_stored [OF w]] h1
    have "stored_profiles h' = (stored_profiles h)((pod_Id p, ctr_Name c) \<mapsto> encode_profiles m')" by simp
    then show ?thesis using store_step.put [of G, OF G sel, of "encode_profiles m'"] selected_unique [OF sel, of m] by auto
  qed (auto intro: store_step.skip)
  then show "store_step G (stored_profiles h) (stored_profiles h')"
    "r = Inr (Some a) \<Longrightarrow> selected get p c m \<Longrightarrow>
      stored_profiles h' = (stored_profiles h)((pod_Id p, ctr_Name c) \<mapsto> encode_profiles m)" by blast+
qed

lemma remove_store:
  assumes "RemoveContainer (Some p) c h = (r, h')" "proper (pod_Id p)"
  shows "store_step G (stored_profiles h) (stored_profiles h')"
    and "r = Inr () \<Longrightarrow> stored_profiles h' = drop_pod (pod_Id p) (stored_profiles h)"
proof -
  obtain R where R: "same_env h h'" "tree h' = (\<lambda>q. if R q then None else tree h q)"
    "\<And>q. R q \<Longrightarrow> prefix (pod_dir (pod_Id p)) q" "\<And>q w. R q \<Longrightarrow> R (q @ [w])"
    "r = Inr () \<Longrightarrow> R = prefix (pod_dir (pod_Id p))"
    using RemoveContainer_removes [OF assms] by blast
  have files: "file_at h' q = (if R q then None else file_at h q)" for q by (simp add: R(2) file_at_def)
  have "a = pod_Id p" if "R (ctr_dir a b @ [ContainerProfileName])" for a b
    using R(3) [OF that] by (simp add: ctr_dir_def pod_dir_def)
  then show "store_step G (stored_profiles h) (stored_profiles h')"
    by (intro store_step.lose [of _ _ "pod_Id p"]) (auto simp: stored_profiles_def files split: if_splits)
  show "stored_profiles h' = drop_pod (pod_Id p) (stored_profiles h)" if "r = Inr ()"
    using R(5) [OF that] by (auto simp: stored_profiles_def drop_pod_def fun_eq_iff ctr_dir_def pod_dir_def files)
qed

lemma node_step_store: "node_step G lvl h h' \<Longrightarrow> store_step G (stored_profiles h) (stored_profiles h')"
proof (erule node_stepE)
  fix get p c r assume "G get" "names_ok p c" "\<And>m. selected get p c m \<Longrightarrow> binaries_ok m"
    "CreateContainer get lvl (Some p) (Some c) h = (r, h')"
  then show ?thesis using create_store(1) by blast
next
  fix p c r assume "proper (pod_Id p)" "RemoveContainer (Some p) c h = (r, h')"
  then show ?thesis using remove_store(1) by blast
qed

lemma node_reachable_store:
  "(node_step G lvl)\<^sup>*\<^sup>* h0 h \<Longrightarrow> (store_step G)\<^sup>*\<^sup>* (stored_profiles h0) (stored_profiles h)"
  by (induction rule: rtranclp_induct) (auto intro: rtranclp.rtrancl_into_rtrancl node_step_store)

text \<open>In the abstract store, every text is one of the start or comes from a profile of its container.\<close>

lemma store_reachable_origin:
  assumes "(store_step G)\<^sup>*\<^sup>* v0 v" "v k = Some s"
  shows "v0 k = Some s \<or> (\<exists>get p c m. G get \<and> selected get p c m \<and> k = (pod_Id p, ctr_Name c) \<and> prefix s (encode_profiles m))"
  using assms
proof (induction arbitrary: s rule: rtranclp_induct)
  case (step v v')
  from step.hyps(2) show ?case
  proof cases
    case skip
    then show ?thesis using step by blast
  next
    case (put get p c m t)
    show ?thesis
    proof (cases "k = (pod_Id p, ctr_Name c)")
      case True
      then have "s = t" using put(1) step.prems by simp
      then show ?thesis using True put(2-4) by blast
    next
      case False
      then have "v k = Some s" using put(1) step.prems by simp
      then show ?thesis by (rule step.IH)
    qed
  next
    case (lose podID)
    then have "v k = Some s" using step.prems by (metis option.distinct(1))
    then show ?thesis by (rule step.IH)
  next
    case (drop podID)
    then have "v k = Some s" using step.prems by (simp add: drop_pod_def split: if_splits)
    then show ?thesis by (rule step.IH)
  qed
qed simp

section \<open>Properties\<close>

text \<open>A pod and a profile, for the witnesses.\<close>

definition pod0 :: PodSandbox where
  "pod0 = \<lparr>pod_Id = ''pod1'', pod_Name = ''nginx'', pod_Namespace = ''default'',
     pod_Labels = Some [(PodProfileLabel, ''nginx-profile'')]\<rparr>"

definition web0 :: Container where
  "web0 = \<lparr>ctr_Name = ''web''\<rparr>"

definition profile0 :: LandlockProfile where
  "profile0 = \<lparr>Name = ''nginx-profile'', Namespace = ''default'', Labels = None, Finalizers = [],
     DeletionTimestamp = None, Spec = \<lparr>ProfilesByContainer = Some [(''web'', bins0)]\<rparr>\<rparr>"

definition get0 :: "NamespacedName \<Rightarrow> LandlockProfile result" where
  "get0 k = (if k = \<lparr>nn_namespace = ''default'', nn_name = ''nginx-profile''\<rparr> then Inr profile0
             else Inl (Remote ''not found''))"

lemma fixture0 [simp]: "selected get0 pod0 web0 bins0" "names_ok pod0 web0" "binaries_ok bins0"
  "prefix_free (keys bins0)"
proof -
  show "selected get0 pod0 web0 bins0"
    by (simp add: selected_def pod0_def web0_def get0_def profile0_def)
  show "names_ok pod0 web0" "binaries_ok bins0" "prefix_free (keys bins0)" by code_simp+
qed

lemma binaries0: "selected get0 pod0 web0 m \<Longrightarrow> binaries_ok m"
  using selected_unique [OF fixture0(1), of m] fixture0(3) by simp

lemma create0: "\<exists>h'. CreateContainer get0 ''info'' (Some pod0) (Some web0) host0 =
    (Inr (Some (createContainerAdjustment ''pod1'' ''web'' bins0 ''info'')), h')"
  using CreateContainer_succeeds [OF fixture0(1-3) host0_wf host0_fresh fixture0(4), of "''info''"]
  by (simp add: pod0_def web0_def)

text \<open>C8: When \<open>CreateContainer\<close> answers an adjustment, the host is ready for it: the profile file
  holds the JSON text of the container's profile, every bind mount but the one of the \<open>seal\<close> binary
  has a file of the host as its source, and every binary of the profile has its mount and its
  \<open>swap-oci-hook\<close>.\<close>

theorem create_container_delivers:
  assumes "CreateContainer get logLevel (Some p) (Some c) h = (Inr (Some a), h')"
    and "names_ok p c" "selected get p c m" "binaries_ok m"
  shows "file_at h' (ctr_dir (pod_Id p) (ctr_Name c) @ [ContainerProfileName]) = Some (encode_profiles m) \<and>
    (\<forall>mt. AddMount mt \<in> set a \<longrightarrow> Source mt = SealBinaryPathHost \<or> file_at h' (comps (Source mt)) \<noteq> None) \<and>
    (\<forall>b \<in> set (keys m).
       AddMount (bind_mount (SwappedBinaryPathInsideContainer b)
         (swappedBinaryPathOnHost (pod_Id p) (ctr_Name c) b)) \<in> set a \<and>
       (\<exists>hs. AddHooks hs \<in> set a \<and> swap_hook b \<in> set hs))"
  using assms(1)
proof (cases rule: CreateContainer_steps)
  case (5 p' c' m' h1)
  then have m: "m' = m" using assms(3) selected_unique by blast
  with 5 have a: "a = createContainerAdjustment (pod_Id p) (ctr_Name c) m logLevel" by simp
  have n: "proper (pod_Id p)" "proper (ctr_Name c)" using assms(2) by (simp_all add: names_ok_def)
  let ?q = "comps (landlockProfilePathOnHost (pod_Id p) (ctr_Name c))"
  have profile: "file_at h' ?q = Some (encode_profiles m)"
    using 5 m by (auto intro: write_profile_stored)
  have reserved: "file_at h' (swapped (pod_Id p) (ctr_Name c) b) \<noteq> None" if b: "b \<in> set (keys m)" for b
  proof -
    have "swapped (pod_Id p) (ctr_Name c) b = swapped_dir (pod_Id p) (ctr_Name c) @ comps b"
      using b n assms(4) by (simp add: binaries_ok_def comps_swappedBinaryPathOnHost)
    then have "swapped (pod_Id p) (ctr_Name c) b \<noteq> ?q"
      using n by (simp add: comps_landlockProfilePathOnHost swapped_dir_def ContainerProfileName_def)
    then have "file_at h' (swapped (pod_Id p) (ctr_Name c) b) = file_at h1 (swapped (pod_Id p) (ctr_Name c) b)"
      using write_profile_frame 5 by auto
    moreover have "\<exists>k s. tree h1 (swapped (pod_Id p) (ctr_Name c) b) = Some (FileNode k s)"
      using reserve_loop_files [of "pod_Id p" "ctr_Name c" "keys m" h h1 b] 5 m b n assms(4) swapped_not_Nil
      by (simp add: reserveSwappedBinaries_def binaries_ok_def)
    ultimately show ?thesis by (auto simp: file_at_def)
  qed
  have "Source mt = SealBinaryPathHost \<or> file_at h' (comps (Source mt)) \<noteq> None" if "AddMount mt \<in> set a" for mt
    using that profile reserved by (auto simp: a createContainerAdjustment_def bind_mount_def)
  then show ?thesis
    using profile n by (auto simp: a createContainerAdjustment_def comps_landlockProfilePathOnHost)
qed simp_all

theorem create_container_delivers_witness:
  "\<exists>a h'. CreateContainer get0 ''info'' (Some pod0) (Some web0) host0 = (Inr (Some a), h') \<and>
     file_at h' (ctr_dir ''pod1'' ''web'' @ [ContainerProfileName]) = Some (encode_profiles bins0)"
proof -
  obtain a h' where created: "CreateContainer get0 ''info'' (Some pod0) (Some web0) host0 = (Inr (Some a), h')"
    using create0 by blast
  from create_container_delivers [OF this fixture0(2,1,3)] show ?thesis
    using created by (auto simp: pod0_def web0_def)
qed

text \<open>The shape of the calls on an adjustment.\<close>

definition mount_typed :: "string \<Rightarrow> string \<Rightarrow> Mount \<Rightarrow> bool" where
  "mount_typed podID containerName mt \<longleftrightarrow>
     Type mt = ''bind'' \<and> set (Options mt) = {''rbind'', ''rprivate'', ''ro''} \<and>
     clean_abs (Destination mt) \<and> strict_prefix [''.podlock''] (comps (Destination mt)) \<and>
     clean_abs (Source mt) \<and>
     (Source mt = SealBinaryPathHost \<or> strict_prefix (ctr_dir podID containerName) (comps (Source mt)))"

definition hook_typed :: "Hook \<Rightarrow> bool" where
  "hook_typed hk \<longleftrightarrow> Path hk = SwapOciHookBinaryPathHost \<and>
     (case Args hk of
        [cmd, t, target, b, backup] \<Rightarrow> cmd = ''swap-oci-hook'' \<and> t = ''-target'' \<and> b = ''-backup'' \<and>
          clean_abs target \<and> clean_abs backup \<and> strict_prefix [''.podlock''] (comps backup)
      | _ \<Rightarrow> False)"

fun call_typed :: "string \<Rightarrow> string \<Rightarrow> adjustment_call \<Rightarrow> bool" where
  "call_typed podID containerName (AddMount mt) = mount_typed podID containerName mt"
| "call_typed podID containerName (AddHooks hs) = list_all hook_typed hs"
| "call_typed podID containerName (AddEnv k v) = (k = LogLevelEnvVar)"

text \<open>C9: Every adjustment is well formed. Whatever profile of clean binaries it is made for, it consists of
  read-only bind mounts from clean absolute paths of the host, \<open>seal\<close> or files of that very container,
  to clean absolute paths below \<open>/.podlock\<close>, of hooks that call \<open>swap-oci-hook\<close> with a target and a
  backup path below \<open>/.podlock\<close>, and of the log level's variable.\<close>

theorem adjustment_well_typed:
  assumes "CreateContainer get logLevel (Some p) (Some c) h = (Inr (Some a), h')"
    and "names_ok p c" "selected get p c m" "binaries_ok m"
  shows "list_all (call_typed (pod_Id p) (ctr_Name c)) a"
  using assms(1)
proof (cases rule: CreateContainer_steps)
  case (5 p' c' m' h1)
  then have "m' = m" using assms(3) selected_unique by blast
  with 5 have a: "a = createContainerAdjustment (pod_Id p) (ctr_Name c) m logLevel" by simp
  have n: "proper (pod_Id p)" "proper (ctr_Name c)" using assms(2) by (simp_all add: names_ok_def)
  have clean: "clean_abs b" if "b \<in> set (keys m)" for b using assms(4) that by (simp add: binaries_ok_def)
  have fixed: "comps SealBinaryPathContainer = [''.podlock'', ''bin'', ''seal'']"
    "comps ContainerProfilePathInsideContainer = [''.podlock'', ContainerProfileName]"
    by (simp_all add: SealBinaryPathContainer_def ContainerProfilePathInsideContainer_def comps_Join)
  have swapped: "strict_prefix [''.podlock''] (comps (SwappedBinaryPathInsideContainer b))"
    "strict_prefix (ctr_dir (pod_Id p) (ctr_Name c)) (swapped (pod_Id p) (ctr_Name c) b)"
    if "b \<in> set (keys m)" for b
    using clean [OF that] n
    by (simp_all add: comps_SwappedBinaryPathInsideContainer comps_swappedBinaryPathOnHost swapped_dir_def)
  have seal: "clean_abs SealBinaryPathHost" "clean_abs SealBinaryPathContainer"
    "clean_abs ContainerProfilePathInsideContainer" by code_simp+
  show ?thesis
    using n clean swapped seal
    by (auto simp: a createContainerAdjustment_def list_all_iff mount_typed_def hook_typed_def bind_mount_def
        swap_hook_def fixed comps_landlockProfilePathOnHost)
qed simp_all

theorem adjustment_well_typed_witness:
  "list_all (call_typed ''pod1'' ''web'') (createContainerAdjustment ''pod1'' ''web'' bins0 ''info'')"
proof -
  obtain h' where created: "CreateContainer get0 ''info'' (Some pod0) (Some web0) host0 =
      (Inr (Some (createContainerAdjustment ''pod1'' ''web'' bins0 ''info'')), h')"
    using create0 by blast
  from adjustment_well_typed [OF created fixture0(2,1,3)] show ?thesis by (simp add: pod0_def web0_def)
qed

text \<open>C10: No mount of an adjustment hides another one: of two different mounts, neither destination is
  the other or lies below it, so every swapped binary and the profile stay reachable at their paths.\<close>

theorem adjustment_no_shadowing:
  assumes "CreateContainer get logLevel (Some p) (Some c) h = (Inr (Some a), h')"
    and "names_ok p c" "selected get p c m" "binaries_ok m" "tree_wf (tree h)"
    and "AddMount mt \<in> set a" "AddMount mt' \<in> set a" "mt \<noteq> mt'"
  shows "\<not> prefix (comps (Destination mt)) (comps (Destination mt'))"
  using assms(1)
proof (cases rule: CreateContainer_steps)
  case (5 p' c' m' h1)
  then have m: "m' = m" using assms(3) selected_unique by blast
  with 5 have a: "a = createContainerAdjustment (pod_Id p) (ctr_Name c) m logLevel" by simp
  have n: "proper (pod_Id p)" "proper (ctr_Name c)" using assms(2) by (simp_all add: names_ok_def)
  have clean: "clean_abs b" if "b \<in> set (keys m)" for b using assms(4) that by (simp add: binaries_ok_def)
  have apart: "b = b'" if "b \<in> set (keys m)" "b' \<in> set (keys m)" "prefix (comps b) (comps b')" for b b'
    using delivered_apart [OF _ assms(2,4,5) that] 5 m by simp
  have dests: "comps SealBinaryPathContainer = [''.podlock'', ''bin'', ''seal'']"
    "comps ContainerProfilePathInsideContainer = [''.podlock'', ContainerProfileName]"
    by (simp_all add: SealBinaryPathContainer_def ContainerProfilePathInsideContainer_def comps_Join)
  show ?thesis
    using assms(6-8)
    by (auto simp: a createContainerAdjustment_def bind_mount_def dests
        comps_SwappedBinaryPathInsideContainer clean ContainerProfileName_def dest: apart)
qed simp_all

theorem adjustment_no_shadowing_witness:
  "\<not> prefix (comps (SwappedBinaryPathInsideContainer ''/bin/sh''))
     (comps (SwappedBinaryPathInsideContainer ''/usr/bin/curl''))"
proof -
  obtain h' where created: "CreateContainer get0 ''info'' (Some pod0) (Some web0) host0 =
      (Inr (Some (createContainerAdjustment ''pod1'' ''web'' bins0 ''info'')), h')"
    using create0 by blast
  have "\<not> prefix (comps (Destination (bind_mount (SwappedBinaryPathInsideContainer ''/bin/sh'')
        (swappedBinaryPathOnHost ''pod1'' ''web'' ''/bin/sh''))))
      (comps (Destination (bind_mount (SwappedBinaryPathInsideContainer ''/usr/bin/curl'')
        (swappedBinaryPathOnHost ''pod1'' ''web'' ''/usr/bin/curl''))))"
  proof (rule adjustment_no_shadowing [OF created fixture0(2,1,3) host0_wf(1)])
    have "SwappedBinaryPathInsideContainer ''/bin/sh'' \<noteq> SwappedBinaryPathInsideContainer ''/usr/bin/curl''"
      by code_simp
    then show "bind_mount (SwappedBinaryPathInsideContainer ''/bin/sh'')
          (swappedBinaryPathOnHost ''pod1'' ''web'' ''/bin/sh'') \<noteq>
        bind_mount (SwappedBinaryPathInsideContainer ''/usr/bin/curl'')
          (swappedBinaryPathOnHost ''pod1'' ''web'' ''/usr/bin/curl'')"
      by (simp add: bind_mount_def)
  qed (simp_all add: createContainerAdjustment_def bins0_def)
  then show ?thesis by (simp add: bind_mount_def)
qed

text \<open>C25: Fail closed. For a pod with the PodLock label, a container whose profile cannot be fetched or
  has an entry in the fetched profile is never let through unchanged: the answer is an error or an
  adjustment.\<close>

theorem create_container_fail_closed:
  assumes "lookup (pod_Labels p) PodProfileLabel = Some name"
    and "\<And>profile. get \<lparr>nn_namespace = pod_Namespace p, nn_name = name\<rparr> = Inr profile \<Longrightarrow>
      lookup (ProfilesByContainer (Spec profile)) (ctr_Name c) \<noteq> None"
  shows "fst (CreateContainer get logLevel (Some p) (Some c) h) \<noteq> Inr None"
proof
  let ?k = "\<lparr>nn_namespace = pod_Namespace p, nn_name = name\<rparr>"
  assume none: "fst (CreateContainer get logLevel (Some p) (Some c) h) = Inr None"
  show False
  proof (cases "get ?k")
    case (Inl e)
    then show False using none assms(1) by (simp add: CreateContainer_def)
  next
    case (Inr profile)
    then obtain m where m: "lookup (ProfilesByContainer (Spec profile)) (ctr_Name c) = Some m"
      using assms(2) by blast
    then have "selected get p c m" using assms(1) Inr by (auto simp: selected_def)
    then show False
      using none assms(1) Inr m lookup_not_nil [OF m]
      by (auto simp: CreateContainer_def attempt_def split: prod.splits sum.splits)
  qed
qed

theorem create_container_fail_closed_witness:
  "fst (CreateContainer get0 ''info'' (Some (pod0\<lparr>pod_Labels := Some [(PodProfileLabel, ''gone'')]\<rparr>))
     (Some web0) host0) \<noteq> Inr None"
  by (rule create_container_fail_closed [of _ "''gone''"]) (simp_all add: get0_def)

text \<open>C39: Removing a container of a pod removes everything PodLock keeps for the whole pod, the other
  containers of the pod included, and nothing else; when it fails, what is missing afterwards is of that
  pod too, and every other file and directory is as it was.\<close>

theorem remove_container_exact:
  assumes "RemoveContainer (Some p) c h = (r, h')" "proper (pod_Id p)"
  shows "(r = Inr () \<longrightarrow> tree h' = (\<lambda>q. if prefix (pod_dir (pod_Id p)) q then None else tree h q)) \<and>
    (\<forall>q. tree h' q = tree h q \<or> strict_prefix (pod_dir (pod_Id p)) q \<and> tree h' q = None \<or>
       r = Inr () \<and> q = pod_dir (pod_Id p))"
  using assms
proof (cases rule: RemoveContainer_steps)
  case (2 e)
  then show ?thesis using lost_below [of h "pod_dir (pod_Id p)"] by auto
qed (auto simp: strict_prefix_def)

theorem remove_container_exact_witness:
  "\<exists>h h'. file_at h (ctr_dir ''pod1'' ''web'' @ [ContainerProfileName]) = Some (encode_profiles bins0) \<and>
     RemoveContainer (Some pod0) (Some \<lparr>ctr_Name = ''sidecar''\<rparr>) h = (Inr (), h') \<and>
     file_at h' (ctr_dir ''pod1'' ''web'' @ [ContainerProfileName]) = None"
proof -
  obtain h a where created: "CreateContainer get0 ''info'' (Some pod0) (Some web0) host0 = (Inr (Some a), h)"
    using create0 by blast
  from created have stored: "file_at h (ctr_dir ''pod1'' ''web'' @ [ContainerProfileName]) = Some (encode_profiles bins0)"
  proof (cases rule: CreateContainer_steps)
    case (5 p c m h1)
    then show ?thesis
      using selected_unique [OF fixture0(1), of m] write_profile_stored
        comps_landlockProfilePathOnHost [of "''pod1''" "''web''"] fixture0(2)
      by (fastforce simp: pod0_def web0_def names_ok_def)
  qed simp_all
  have env: "same_env host0 h \<and> tree_wf (tree h)"
    by (rule CreateContainer_env [OF created fixture0(2) binaries0]) simp_all
  have "walk (tree h) [] (pod_dir ''pod1'') \<noteq> Inl ENOTDIR"
  proof -
    obtain k s where "tree h (ctr_dir ''pod1'' ''web'' @ [ContainerProfileName]) = Some (FileNode k s)"
      using stored by (auto simp: file_at_def split: option.splits node.splits)
    from tree_wf_ancestor [OF conjunct2 [OF env] this, of "pod_dir ''pod1''"]
    obtain d where "tree h (pod_dir ''pod1'') = Some (DirNode d)" by (auto simp: ctr_dir_def)
    from walk_found [OF conjunct2 [OF env] this] show ?thesis by simp
  qed
  moreover have "fault h Sys_remove (pod_dir ''pod1'') = None"
    using env by (simp add: same_env_def host0_def)
  ultimately have "\<exists>h'. RemoveContainer (Some pod0) (Some \<lparr>ctr_Name = ''sidecar''\<rparr>) h = (Inr (), h')"
    using podlockRuntimePodDir_RemoveAll [of "''pod1''"] fixture0(2)
    by (simp add: RemoveContainer_def Let_def GetId_def pod0_def names_ok_def attempt_def fs_remove_all_def)
      (simp add: pod_dir_def)
  then obtain h' where removed: "RemoveContainer (Some pod0) (Some \<lparr>ctr_Name = ''sidecar''\<rparr>) h = (Inr (), h')" ..
  have "tree h' (ctr_dir ''pod1'' ''web'' @ [ContainerProfileName]) = None"
    using remove_container_exact [OF removed] fixture0(2)
    by (simp add: names_ok_def) (simp add: pod0_def ctr_dir_def)
  then show ?thesis using stored removed by (auto simp: file_at_def)
qed

text \<open>C40: With no pod (nil), the handler removes the data of every pod of the node.\<close>

theorem remove_container_nil_pod:
  assumes "RemoveContainer None c h = (Inr (), h')"
  shows "tree h' = (\<lambda>q. if prefix [''var'', ''run'', ''podlock''] q then None else tree h q)"
proof -
  have dir: "podlockRuntimePodDir (GetId None) = abs_path [''var'', ''run'', ''podlock'']"
    by (simp add: GetId_def podlockRuntimePodDir_def Join_abs)
  have "last (split_on sep (abs_path [''var'', ''run'', ''podlock''])) = ''podlock''"
    by (simp add: split_abs_path)
  then have "fs_remove_all [''var'', ''run'', ''podlock''] h = (Inr (), h')"
    using assms by (auto simp: RemoveContainer_def Let_def dir os_RemoveAll_def attempt_def
        split: prod.splits sum.splits)
  then show ?thesis by (auto simp: fs_remove_all_def fun_eq_iff split: option.splits if_splits)
qed

theorem remove_container_nil_pod_witness:
  "\<exists>h'. RemoveContainer None None (host0\<lparr>tree := (tree host0)([''var''] \<mapsto> DirNode 0, [''var'', ''run''] \<mapsto> DirNode 0,
       [''var'', ''run'', ''podlock''] \<mapsto> DirNode 0, [''var'', ''run'', ''podlock'', ''p''] \<mapsto> DirNode 0)\<rparr>) = (Inr (), h') \<and>
     tree h' [''var'', ''run'', ''podlock'', ''p''] = None"
proof -
  let ?h = "host0\<lparr>tree := (tree host0)([''var''] \<mapsto> DirNode 0, [''var'', ''run''] \<mapsto> DirNode 0,
    [''var'', ''run'', ''podlock''] \<mapsto> DirNode 0, [''var'', ''run'', ''podlock'', ''p''] \<mapsto> DirNode 0)\<rparr>"
  have dir: "podlockRuntimePodDir (GetId None) = ''/var/run/podlock''" by code_simp
  have parts: "IsAbs ''/var/run/podlock''" "comps ''/var/run/podlock'' = [''var'', ''run'', ''podlock'']"
    "last (split_on sep ''/var/run/podlock'') \<noteq> ''.''" by code_simp+
  obtain h' where removed: "RemoveContainer None None ?h = (Inr (), h')"
    using parts by (auto simp: RemoveContainer_def Let_def dir os_RemoveAll_def fs_remove_all_def
        host0_def attempt_def)
  from remove_container_nil_pod [OF this] show ?thesis using removed by auto
qed

text \<open>C11: Over any sequence of creations and removals of containers, any of which may fail at any call,
  the file tree stays a tree and every file outside of \<open>/var/run/podlock\<close> keeps its content.\<close>

theorem node_safety:
  assumes "(node_step G logLevel)\<^sup>*\<^sup>* h0 h" "tree_wf (tree h0)" "podlock_shape h0"
  shows "tree_wf (tree h) \<and> podlock_shape h \<and>
    (\<forall>q. \<not> prefix [''var'', ''run'', ''podlock''] q \<longrightarrow> file_at h q = file_at h0 q)"
  using node_reachable_inv [OF assms] by (simp add: node_inv_def)

lemma host0_shape [simp]: "podlock_shape host0"
  by (auto simp: podlock_shape_def file_at_def host0_def)

lemma step0: "node_step (\<lambda>get. get = get0) ''info'' host0 (snd (CreateContainer get0 ''info'' (Some pod0) (Some web0) host0))"
  by (rule node_step.create [OF refl fixture0(2) binaries0 prod.collapse [symmetric]])

theorem node_safety_witness:
  "tree_wf (tree (snd (CreateContainer get0 ''info'' (Some pod0) (Some web0) host0)))"
proof -
  have "(node_step (\<lambda>get. get = get0) ''info'')\<^sup>*\<^sup>* host0 (snd (CreateContainer get0 ''info'' (Some pod0) (Some web0) host0))"
    using step0 by (rule r_into_rtranclp)
  from node_safety [OF this host0_wf(1) host0_shape] show ?thesis by simp
qed

text \<open>C5: The node implements a store of profiles. Seen through the profile files, any run of creations
  and removals is a run of an abstract store that puts (a prefix of) the encoded profile of a container
  under its pod and name, or drops the entries of a pod; a creation that answers an adjustment puts
  exactly the encoded profile; so every profile file found on a node was there from the start or was
  made from a profile that one of the clients selected for that very pod and container.\<close>

theorem node_refines_store:
  assumes "(node_step G logLevel)\<^sup>*\<^sup>* h0 h" "G get" "names_ok p c" "selected get p c m" "binaries_ok m"
  shows "(store_step G)\<^sup>*\<^sup>* (stored_profiles h0) (stored_profiles h) \<and>
    (\<forall>k s. stored_profiles h k = Some s \<longrightarrow> stored_profiles h0 k = Some s \<or>
       (\<exists>get p c m. G get \<and> selected get p c m \<and> k = (pod_Id p, ctr_Name c) \<and> prefix s (encode_profiles m))) \<and>
    (\<forall>a h'. CreateContainer get logLevel (Some p) (Some c) h = (Inr (Some a), h') \<longrightarrow>
       stored_profiles h' = (stored_profiles h)((pod_Id p, ctr_Name c) \<mapsto> encode_profiles m))"
proof (intro conjI allI impI)
  show reach: "(store_step G)\<^sup>*\<^sup>* (stored_profiles h0) (stored_profiles h)"
    by (rule node_reachable_store [OF assms(1)])
  fix k s assume "stored_profiles h k = Some s"
  with reach show "stored_profiles h0 k = Some s \<or>
      (\<exists>get p c m. G get \<and> selected get p c m \<and> k = (pod_Id p, ctr_Name c) \<and> prefix s (encode_profiles m))"
    by (rule store_reachable_origin)
next
  fix a h' assume created: "CreateContainer get logLevel (Some p) (Some c) h = (Inr (Some a), h')"
  have "binaries_ok m'" if "selected get p c m'" for m' using selected_unique [OF assms(4) that] assms(5) by simp
  from create_store(2) [where G = G, OF created assms(3) this assms(2) refl assms(4)]
  show "stored_profiles h' = (stored_profiles h)((pod_Id p, ctr_Name c) \<mapsto> encode_profiles m)" .
qed

theorem node_refines_store_witness:
  "\<exists>h. (node_step (\<lambda>get. get = get0) ''info'')\<^sup>*\<^sup>* host0 h \<and>
     stored_profiles h = (stored_profiles host0)((''pod1'', ''web'') \<mapsto> encode_profiles bins0)"
proof -
  obtain a h where created: "CreateContainer get0 ''info'' (Some pod0) (Some web0) host0 = (Inr (Some a), h)"
    using create0 by blast
  have "(node_step (\<lambda>get. get = get0) ''info'')\<^sup>*\<^sup>* host0 h"
    using step0 created by (simp add: r_into_rtranclp)
  moreover have start: "(node_step (\<lambda>get. get = get0) ''info'')\<^sup>*\<^sup>* host0 host0" by simp
  have "stored_profiles h = (stored_profiles host0)((pod_Id pod0, ctr_Name web0) \<mapsto> encode_profiles bins0)"
    using node_refines_store [OF start refl fixture0(2,1,3)] created by blast
  ultimately show ?thesis by (auto simp: pod0_def web0_def)
qed

text \<open>C12: Liveness. In every state such a sequence leads to, on a host where calls do not fail, a
  container the host has nothing of is given its adjustment, when no binary of its profile lies below
  another one.\<close>

theorem node_create_live:
  assumes "(node_step G logLevel)\<^sup>*\<^sup>* h0 h" "tree_wf (tree h0)" "podlock_shape h0" "no_faults h0"
    and "names_ok p c" "selected get p c m" "binaries_ok m" "prefix_free (keys m)"
    and "tree h (ctr_dir (pod_Id p) (ctr_Name c)) = None"
  shows "\<exists>h'. CreateContainer get logLevel (Some p) (Some c) h =
    (Inr (Some (createContainerAdjustment (pod_Id p) (ctr_Name c) m logLevel)), h')"
proof -
  from node_reachable_inv [OF assms(1-3)] have inv: "tree_wf (tree h)" "same_env h0 h" "podlock_shape h"
    by (simp_all add: node_inv_def)
  show ?thesis
    using CreateContainer_succeeds [OF assms(6,5,7) inv(1) no_faults_same_env [OF inv(2) assms(4)]
        shape_fresh [OF inv(3,1) assms(9)] assms(8)] .
qed

theorem node_create_live_witness:
  "\<exists>h'. CreateContainer get0 ''info'' (Some pod0) (Some web0)
       (snd (RemoveContainer (Some pod0) (Some web0) host0)) =
     (Inr (Some (createContainerAdjustment ''pod1'' ''web'' bins0 ''info'')), h')"
proof -
  let ?h = "snd (RemoveContainer (Some pod0) (Some web0) host0)"
  have removed: "RemoveContainer (Some pod0) (Some web0) host0 =
      (fst (RemoveContainer (Some pod0) (Some web0) host0), ?h)" by simp
  have proper: "proper (pod_Id pod0)" using fixture0(2) by (simp add: names_ok_def)
  have reach: "(node_step (\<lambda>get. get = get0) ''info'')\<^sup>*\<^sup>* host0 ?h"
    by (rule r_into_rtranclp) (rule node_step.remove [OF proper removed])
  have absent: "tree host0 (ctr_dir (pod_Id pod0) (ctr_Name web0)) = None"
    by (simp add: host0_def ctr_dir_def)
  from removed proper have "tree ?h (ctr_dir (pod_Id pod0) (ctr_Name web0)) = None"
    by (cases rule: RemoveContainer_steps) (use absent in simp_all)
  from node_create_live [OF reach host0_wf(1) host0_shape host0_wf(2) fixture0(2,1,3,4) this]
  show ?thesis by (simp add: pod0_def web0_def)
qed

end
