(* ===== verification/Go_Flag.thy ===== *)
theory Go_Flag
  imports Go_Strings
begin

text \<open>
  Package \<open>flag\<close>: \<open>FlagSet.Parse\<close> with the flags the commands define. A flag has a name, says
  whether it is boolean, and sets a value in the record of the command's variables (\<open>'c\<close>).
  Messages of the package are kept without the escapes of \<open>%q\<close>; \<open>ErrHelp\<close> is the error of an
  undefined \<open>-h\<close> or \<open>-help\<close>.
\<close>

record 'c flag =
  flag_name :: string
  flag_bool :: bool
  flag_set :: "string \<Rightarrow> 'c \<Rightarrow> 'c result"

definition ErrHelp :: go_error where
  "ErrHelp = Errorf ''flag: help requested''"

definition find_flag :: "'c flag list \<Rightarrow> string \<Rightarrow> 'c flag option" where
  "find_flag fs name = find (\<lambda>f. flag_name f = name) fs"

text \<open>\<open>strconv.ParseBool\<close>.\<close>

definition ParseBool :: "string \<Rightarrow> bool option" where
  "ParseBool s =
     (if s \<in> {''1'', ''t'', ''T'', ''true'', ''TRUE'', ''True''} then Some True
      else if s \<in> {''0'', ''f'', ''F'', ''false'', ''FALSE'', ''False''} then Some False
      else None)"

definition BoolVar :: "string \<Rightarrow> (bool \<Rightarrow> 'c \<Rightarrow> 'c) \<Rightarrow> 'c flag" where
  "BoolVar name upd =
     \<lparr>flag_name = name, flag_bool = True,
      flag_set = (\<lambda>v c. case ParseBool v of None \<Rightarrow> Inl (Errorf ''parse error'') | Some b \<Rightarrow> Inr (upd b c))\<rparr>"

definition StringVar :: "string \<Rightarrow> (string \<Rightarrow> 'c \<Rightarrow> 'c) \<Rightarrow> 'c flag" where
  "StringVar name upd = \<lparr>flag_name = name, flag_bool = False, flag_set = (\<lambda>v c. Inr (upd v c))\<rparr>"

text \<open>\<open>flagSet.Var\<close> with a \<open>flag.Value\<close> of the code.\<close>

definition Var :: "string \<Rightarrow> (string \<Rightarrow> 'c \<Rightarrow> 'c result) \<Rightarrow> 'c flag" where
  "Var name upd = \<lparr>flag_name = name, flag_bool = False, flag_set = upd\<rparr>"

text \<open>
  How one argument reads: not a flag (parsing stops before it), the terminator \<open>--\<close> (parsing stops
  after it), bad syntax, or a name with, after the first \<open>=\<close> but not as first character, a value.
\<close>

datatype flag_arg = NotFlag | Terminator | BadSyntax | Flag string "string option"

definition flag_body :: "string \<Rightarrow> flag_arg" where
  "flag_body name =
     (if name = [] \<or> hd name = CHR ''-'' \<or> hd name = CHR ''='' then BadSyntax
      else case cut ''='' name of
             Some (n, v) \<Rightarrow> Flag n (Some v)
           | None \<Rightarrow> Flag name None)"

definition read_flag :: "string \<Rightarrow> flag_arg" where
  "read_flag s =
     (if length s < 2 \<or> hd s \<noteq> CHR ''-'' then NotFlag
      else if s ! 1 = CHR ''-'' then
        (if length s = 2 then Terminator else flag_body (drop 2 s))
      else flag_body (drop 1 s))"

definition not_defined :: "string \<Rightarrow> go_error" where
  "not_defined name =
     (if name = ''help'' \<or> name = ''h'' then ErrHelp
      else Errorf (''flag provided but not defined: -'' @ name))"

definition invalid_value :: "bool \<Rightarrow> string \<Rightarrow> string \<Rightarrow> go_error" where
  "invalid_value b name v =
     Errorf ((if b then ''invalid boolean value '' else ''invalid value '') @ v @ '' for flag -'' @ name)"

text \<open>The value is the variables and the arguments left over.\<close>

fun parse_flags :: "'c flag list \<Rightarrow> string list \<Rightarrow> 'c \<Rightarrow> ('c \<times> string list) result" where
  "parse_flags fs [] c = Inr (c, [])"
| "parse_flags fs (s # args) c =
     (case read_flag s of
        NotFlag \<Rightarrow> Inr (c, s # args)
      | Terminator \<Rightarrow> Inr (c, args)
      | BadSyntax \<Rightarrow> Inl (Errorf (''bad flag syntax: '' @ s))
      | Flag name v \<Rightarrow>
          (case find_flag fs name of
             None \<Rightarrow> Inl (not_defined name)
           | Some f \<Rightarrow>
               if flag_bool f then
                 (case flag_set f (case v of None \<Rightarrow> ''true'' | Some x \<Rightarrow> x) c of
                    Inl e \<Rightarrow> Inl (invalid_value True name (case v of None \<Rightarrow> ''true'' | Some x \<Rightarrow> x))
                  | Inr c' \<Rightarrow> parse_flags fs args c')
               else
                 (case v of
                    Some x \<Rightarrow>
                      (case flag_set f x c of
                         Inl e \<Rightarrow> Inl (invalid_value False name x)
                       | Inr c' \<Rightarrow> parse_flags fs args c')
                  | None \<Rightarrow>
                      (case args of
                         [] \<Rightarrow> Inl (Errorf (''flag needs an argument: -'' @ name))
                       | x # args' \<Rightarrow>
                           (case flag_set f x c of
                              Inl e \<Rightarrow> Inl (invalid_value False name x)
                            | Inr c' \<Rightarrow> parse_flags fs args' c')))))"

section \<open>Flags written the usual way\<close>

text \<open>A name that can follow the dash.\<close>

definition plain_name :: "string \<Rightarrow> bool" where
  "plain_name n \<longleftrightarrow> n \<noteq> [] \<and> hd n \<noteq> CHR ''-'' \<and> CHR ''='' \<notin> set n"

lemma flag_body_plain: "plain_name n \<Longrightarrow> flag_body n = Flag n None"
  by (cases n) (auto simp: flag_body_def plain_name_def cut_char_None [THEN iffD2] simp del: cut.simps)

lemma read_flag_plain: "plain_name n \<Longrightarrow> read_flag (CHR ''-'' # n) = Flag n None"
  using flag_body_plain [of n] by (cases n) (auto simp: plain_name_def read_flag_def)

lemma read_flag_stop: "s = [] \<or> hd s \<noteq> CHR ''-'' \<Longrightarrow> read_flag s = NotFlag"
  by (auto simp: read_flag_def)

text \<open>\<open>-name value\<close>, whatever the value.\<close>

lemma parse_flags_value:
  assumes "plain_name n" "find_flag fs n = Some f" "\<not> flag_bool f" "flag_set f v c = Inr c'"
  shows "parse_flags fs ((CHR ''-'' # n) # v # args) c = parse_flags fs args c'"
  using assms by (simp add: read_flag_plain)

lemma parse_flags_bool:
  assumes "plain_name n" "find_flag fs n = Some f" "flag_bool f" "flag_set f ''true'' c = Inr c'"
  shows "parse_flags fs ((CHR ''-'' # n) # args) c = parse_flags fs args c'"
  using assms by (simp add: read_flag_plain)

lemma parse_flags_undefined:
  assumes "plain_name n" "find_flag fs n = None"
  shows "parse_flags fs ((CHR ''-'' # n) # args) c = Inl (not_defined n)"
  using assms by (simp add: read_flag_plain)

text \<open>What every flag but one keeps, a command line without that flag keeps.\<close>

lemma find_flag_in: "find_flag fs n = Some f \<Longrightarrow> f \<in> set fs \<and> flag_name f = n"
  by (auto simp: find_flag_def find_Some_iff)

lemma parse_flags_keeps:
  assumes keep: "\<And>f v c c'. f \<in> set fs \<Longrightarrow> flag_name f \<noteq> n \<Longrightarrow> flag_set f v c = Inr c' \<Longrightarrow> P c \<Longrightarrow> P c'"
  shows "parse_flags fs args c = Inr (c', rest) \<Longrightarrow> P c \<Longrightarrow>
    (\<And>a x. a \<in> set args \<Longrightarrow> read_flag a \<noteq> Flag n x) \<Longrightarrow> P c'"
proof (induction args arbitrary: c rule: length_induct)
  case (1 args)
  note IH = 1(1) [rule_format]
  show ?case
  proof (cases args)
    case Nil
    then show ?thesis using 1(2,3) by simp
  next
    case (Cons s ss)
    show ?thesis
    proof (cases "read_flag s")
      case (Flag m v)
      with 1(4) [of s v] Cons have m: "m \<noteq> n" by auto
      obtain f where f: "find_flag fs m = Some f" using 1(2) Cons Flag by (auto split: option.splits)
      have step: "P c'" if "flag_set f x c = Inr c1" "parse_flags fs as c1 = Inr (c', rest)"
        "length as < length args" "set as \<subseteq> set args" for x c1 as
        by (rule IH [OF that(3,2)]) (use keep [of f x c c1] find_flag_in [OF f] m 1(3,4) that in auto)
      show ?thesis
        using 1(2) Cons Flag f step [of _ _ ss] step [of _ _ "tl ss"]
        by (auto split: if_splits option.splits sum.splits list.splits)
    qed (use 1(2,3) Cons in auto)
  qed
qed

end
