(* ===== verification/Swap_Hook.thy ===== *)
theory Swap_Hook
  imports Nri_Plugin Go_Flag
begin

text \<open>
  \<open>cmd/swap-oci-hook/main.go\<close>: the OCI hook that puts the \<open>seal\<close> binary over a binary of the
  container and keeps the binary reachable at its backup path. The system calls of
  \<open>golang.org/x/sys/unix\<close> are the parameter \<open>mount_api\<close>; \<open>mount_laws\<close> is what mount_setattr(2)'s
  family documents of them, for an observation \<open>sees\<close> (the object a path shows) and \<open>held\<close> (the
  object an open tree holds). Closing the file descriptors at the end changes neither.
\<close>

section \<open>The system calls\<close>

record 'm mount_api =
  OpenTree :: "string \<Rightarrow> (nat, 'm) effect"
  MoveMount :: "nat \<Rightarrow> string \<Rightarrow> (unit, 'm) effect"
  Chroot :: "string \<Rightarrow> (unit, 'm) effect"

text \<open>
  \<open>open_tree\<close> with \<open>OPEN_TREE_CLONE\<close> gives a fresh descriptor that holds what the path shows now, and
  changes no path. \<open>move_mount\<close> makes a path show what the descriptor holds and touches only that
  path and what lies below it. A failed call changes nothing that is seen or held.
\<close>

definition open_tree_law :: "'m mount_api \<Rightarrow> ('m \<Rightarrow> string \<Rightarrow> 'o) \<Rightarrow> ('m \<Rightarrow> nat \<Rightarrow> 'o option) \<Rightarrow> bool" where
  "open_tree_law api sees held \<longleftrightarrow>
     (\<forall>p s r s'. OpenTree api p s = (r, s') \<longrightarrow>
        sees s' = sees s \<and>
        (case r of
           Inl e \<Rightarrow> held s' = held s
         | Inr fd \<Rightarrow> held s fd = None \<and> held s' = (held s)(fd \<mapsto> sees s p)))"

definition move_mount_law :: "'m mount_api \<Rightarrow> ('m \<Rightarrow> string \<Rightarrow> 'o) \<Rightarrow> ('m \<Rightarrow> nat \<Rightarrow> 'o option) \<Rightarrow> bool" where
  "move_mount_law api sees held \<longleftrightarrow>
     (\<forall>fd p s r s'. MoveMount api fd p s = (r, s') \<longrightarrow>
        (case r of
           Inl e \<Rightarrow> sees s' = sees s \<and> held s' = held s
         | Inr u \<Rightarrow>
             held s fd = Some (sees s' p) \<and>
             (\<forall>q. \<not> prefix (comps p) (comps q) \<longrightarrow> sees s' q = sees s q) \<and>
             (\<forall>fd'. fd' \<noteq> fd \<longrightarrow> held s' fd' = held s fd')))"

definition mount_laws :: "'m mount_api \<Rightarrow> ('m \<Rightarrow> string \<Rightarrow> 'o) \<Rightarrow> ('m \<Rightarrow> nat \<Rightarrow> 'o option) \<Rightarrow> bool" where
  "mount_laws api sees held \<longleftrightarrow> open_tree_law api sees held \<and> move_mount_law api sees held"

lemma open_treeD:
  assumes "mount_laws api sees held" "OpenTree api p s = (Inr fd, s')"
  shows "sees s' = sees s" "held s fd = None" "held s' = (held s)(fd \<mapsto> sees s p)"
  using assms unfolding mount_laws_def open_tree_law_def by force+

lemma move_mountD:
  assumes "mount_laws api sees held" "MoveMount api fd p s = (Inr u, s')"
  shows "held s fd = Some (sees s' p)"
    "\<not> prefix (comps p) (comps q) \<Longrightarrow> sees s' q = sees s q"
    "fd' \<noteq> fd \<Longrightarrow> held s' fd' = held s fd'"
  using assms unfolding mount_laws_def move_mount_law_def by force+

lemma mount_failD:
  assumes "mount_laws api sees held"
  shows "OpenTree api p s = (Inl e, s') \<Longrightarrow> sees s' = sees s"
    and "MoveMount api fd p s = (Inl e, s') \<Longrightarrow> sees s' = sees s"
  using assms unfolding mount_laws_def open_tree_law_def move_mount_law_def by force+

section \<open>main.go\<close>

definition performOverMounts :: "'m mount_api \<Rightarrow> string \<Rightarrow> string \<Rightarrow> (unit, 'm) effect" where
  "performOverMounts api target backup =
     attempt (OpenTree api SealBinaryPathContainer) (Wrap ''open_tree failed for seal binary: '')
       (\<lambda>sealFd. attempt (OpenTree api target) (Wrap ''open_tree failed for target: '')
         (\<lambda>targetFd. attempt (MoveMount api targetFd backup) (Wrap ''move_mount failed for backup '')
           (\<lambda>_. attempt (MoveMount api sealFd target) (Wrap ''move_mount failed for target: '')
             return_ok)))"

record hook_vars =
  hv_target :: string
  hv_backup :: string

definition hook_flags :: "hook_vars flag list" where
  "hook_flags =
     [StringVar ''target'' (\<lambda>v c. c\<lparr>hv_target := v\<rparr>), StringVar ''backup'' (\<lambda>v c. c\<lparr>hv_backup := v\<rparr>)]"

text \<open>The value is the exit status; \<open>flag.Parse\<close> exits with 2 on an error and 0 on a request for help.\<close>

definition hook_main :: "'m mount_api \<Rightarrow> string list \<Rightarrow> 'm \<Rightarrow> nat \<times> 'm" where
  "hook_main api args s =
     (case parse_flags hook_flags args \<lparr>hv_target = [], hv_backup = []\<rparr> of
        Inl e \<Rightarrow> (if e = ErrHelp then 0 else 2, s)
      | Inr (c, rest) \<Rightarrow>
          if hv_target c = [] \<or> hv_backup c = [] then (1, s)
          else (case Chroot api ''.'' s of
                  (Inl e, s1) \<Rightarrow> (1, s1)
                | (Inr u, s1) \<Rightarrow>
                    (case performOverMounts api (hv_target c) (hv_backup c) s1 of
                       (Inl e, s2) \<Rightarrow> (1, s2)
                     | (Inr v, s2) \<Rightarrow> (0, s2))))"

text \<open>The command line the plugin puts into the adjustment is the one the hook understands: run with
  the arguments of a binary's hook, the program enters the container's root and swaps exactly that
  binary with its backup path, and exits with 0 only when the swap succeeded.\<close>

lemma hook_main_swap:
  assumes "binary \<noteq> []"
  shows "hook_main api (tl (Args (swap_hook binary))) s =
    (case Chroot api ''.'' s of
       (Inl e, s1) \<Rightarrow> (1, s1)
     | (Inr u, s1) \<Rightarrow>
         (case performOverMounts api binary (SwappedBinaryPathInsideContainer binary) s1 of
            (Inl e, s2) \<Rightarrow> (1, s2)
          | (Inr v, s2) \<Rightarrow> (0, s2)))"
proof -
  have target: "plain_name ''target''" "find_flag hook_flags ''target'' = Some (hd hook_flags)"
    and backup: "plain_name ''backup''" "find_flag hook_flags ''backup'' = Some (last hook_flags)"
    by (simp_all add: plain_name_def find_flag_def hook_flags_def StringVar_def)
  have "parse_flags hook_flags (tl (Args (swap_hook binary))) \<lparr>hv_target = [], hv_backup = []\<rparr> =
      Inr (\<lparr>hv_target = binary, hv_backup = SwappedBinaryPathInsideContainer binary\<rparr>, [])"
    using parse_flags_value [OF target] parse_flags_value [OF backup]
    by (simp add: swap_hook_def hook_flags_def StringVar_def del: parse_flags.simps(2))
  then show ?thesis using assms by (simp add: hook_main_def split: prod.splits sum.splits)
qed

section \<open>One swap\<close>

lemma performOverMounts_Inr:
  assumes laws: "mount_laws api sees held"
    and swap: "performOverMounts api target backup s = (Inr u, s')"
    and apart: "\<not> prefix (comps target) (comps backup)"
  shows "sees s' target = sees s SealBinaryPathContainer"
    and "sees s' backup = sees s target"
    and "\<not> prefix (comps target) (comps q) \<Longrightarrow> \<not> prefix (comps backup) (comps q) \<Longrightarrow> sees s' q = sees s q"
proof -
  from swap obtain sealFd s1 targetFd s2 x s3 y where
    o1: "OpenTree api SealBinaryPathContainer s = (Inr sealFd, s1)" and
    o2: "OpenTree api target s1 = (Inr targetFd, s2)" and
    m1: "MoveMount api targetFd backup s2 = (Inr x, s3)" and
    m2: "MoveMount api sealFd target s3 = (Inr y, s')"
    unfolding performOverMounts_def by (elim attempt_InrE) auto
  note o1 = open_treeD [OF laws o1] and o2 = open_treeD [OF laws o2]
  note m1 = move_mountD [OF laws m1] and m2 = move_mountD [OF laws m2]
  have "targetFd \<noteq> sealFd" using o1(3) o2(2) by auto
  then have "held s3 sealFd = Some (sees s SealBinaryPathContainer)"
    using m1(3) [of sealFd] o2(3) o1(3) by simp
  then show "sees s' target = sees s SealBinaryPathContainer" using m2(1) by simp
  have "sees s3 backup = sees s target" using m1(1) o2(3) o1(1) by simp
  then show "sees s' backup = sees s target" using m2(2) apart by simp
  show "\<not> prefix (comps target) (comps q) \<Longrightarrow> \<not> prefix (comps backup) (comps q) \<Longrightarrow> sees s' q = sees s q"
    using m1(2) [of q] m2(2) [of q] o1(1) o2(1) by simp
qed

lemma performOverMounts_Inl:
  assumes laws: "mount_laws api sees held"
    and swap: "performOverMounts api target backup s = (Inl e, s')"
    and apart: "\<not> prefix (comps backup) (comps q)"
  shows "sees s' q = sees s q"
  using swap unfolding performOverMounts_def
proof (cases rule: attempt_cases)
  case (failed e')
  then show ?thesis using mount_failD(1) [OF laws] by metis
next
  case 1: (continued sealFd s1)
  from 1(2) show ?thesis
  proof (cases rule: attempt_cases)
    case (failed e')
    then show ?thesis using mount_failD(1) [OF laws failed(1)] open_treeD(1) [OF laws 1(1)] by simp
  next
    case 2: (continued targetFd s2)
    have s2: "sees s2 = sees s" using open_treeD(1) [OF laws] 1(1) 2(1) by metis
    from 2(2) show ?thesis
    proof (cases rule: attempt_cases)
      case (failed e')
      then show ?thesis using mount_failD(2) [OF laws failed(1)] s2 by simp
    next
      case 3: (continued x s3)
      have s3: "sees s3 q = sees s q" using move_mountD(2) [OF laws 3(1) apart] s2 by simp
      from 3(2) show ?thesis
        by (cases rule: attempt_cases) (use mount_failD(2) [OF laws] s3 in auto)
    qed
  qed
qed

section \<open>Properties\<close>

text \<open>A mount table for the witnesses: what each path shows, and the open trees.\<close>

type_synonym mount_table = "(string \<Rightarrow> string) \<times> string list"

definition table_api :: "mount_table mount_api" where
  "table_api =
     \<lparr>OpenTree = (\<lambda>p (v, l). (Inr (length l), (v, l @ [v p]))),
      MoveMount = (\<lambda>fd p (v, l).
        if fd < length l then (Inr (), (v(p := l ! fd), l)) else (Inl (Errno EINVAL), (v, l))),
      Chroot = (\<lambda>p s. (Inr (), s))\<rparr>"

definition table_sees :: "mount_table \<Rightarrow> string \<Rightarrow> string" where
  "table_sees s = fst s"

definition table_held :: "mount_table \<Rightarrow> nat \<Rightarrow> string option" where
  "table_held s fd = (if fd < length (snd s) then Some (snd s ! fd) else None)"

lemma table_laws: "mount_laws table_api table_sees table_held"
  unfolding mount_laws_def
proof
  show "open_tree_law table_api table_sees table_held"
    by (auto simp: open_tree_law_def table_api_def table_sees_def table_held_def fun_eq_iff nth_append)
  show "move_mount_law table_api table_sees table_held"
    by (auto simp: move_mount_law_def table_api_def table_sees_def table_held_def split: if_splits)
qed

text \<open>C32: A swap that fails, at whichever call, leaves the binary in place: the target still shows what
  it showed, and so does every path that is not at or below the backup.\<close>

theorem swap_failure_safe:
  assumes "mount_laws api sees held" "performOverMounts api target backup s = (Inl e, s')"
    and "\<not> prefix (comps backup) (comps q)"
  shows "sees s' q = sees s q"
  using assms by (rule performOverMounts_Inl)

text \<open>A table on which the second \<open>move_mount\<close> fails.\<close>

definition failing_api :: "mount_table mount_api" where
  "failing_api = table_api\<lparr>MoveMount := (\<lambda>fd p s.
     if fd = 0 then (Inl (Errno EINVAL), s) else MoveMount table_api fd p s)\<rparr>"

lemma failing_laws: "mount_laws failing_api table_sees table_held"
  using table_laws
  by (auto simp: mount_laws_def open_tree_law_def move_mount_law_def failing_api_def split: if_splits)

theorem swap_failure_safe_witness:
  "\<exists>e s'. performOverMounts failing_api ''/bin/sh'' ''/.podlock/swapped-binaries/bin/sh'' (\<lambda>p. p, []) = (Inl e, s') \<and>
     fst s' ''/bin/sh'' = ''/bin/sh''"
proof -
  obtain e s' where run:
    "performOverMounts failing_api ''/bin/sh'' ''/.podlock/swapped-binaries/bin/sh'' (\<lambda>p. p, []) = (Inl e, s')"
    by (simp add: performOverMounts_def failing_api_def table_api_def attempt_def)
  have "\<not> prefix (comps ''/.podlock/swapped-binaries/bin/sh'') (comps ''/bin/sh'')" by code_simp
  from swap_failure_safe [OF failing_laws run this] show ?thesis
    using run by (auto simp: table_sees_def)
qed

end
