(* ===== verification/Container_Setup.thy ===== *)
theory Container_Setup
  imports Swap_Hook
begin

text \<open>
  From the adjustment of \<open>CreateContainer\<close> to the container the user's program starts in: the
  runtime runs the hooks of the adjustment, each of which swaps one binary. A hook is a process of
  its own, which starts with the root of the host and the container's root as working directory, and
  sees the paths of the container only once it has entered it. \<open>view\<close> is what the container's paths
  show, \<open>sees\<close> what those of the running process do.
\<close>

section \<open>The runtime\<close>

text \<open>
  \<open>start\<close> is what the runtime does to start a process and \<open>inside\<close> tells whether the running process has
  entered the container. Starting a process and entering the container mount nothing, and mounting
  does not leave the container.
\<close>

definition enter_laws :: "'m mount_api \<Rightarrow> ('m \<Rightarrow> 'm) \<Rightarrow> ('m \<Rightarrow> bool) \<Rightarrow> ('m \<Rightarrow> string \<Rightarrow> 'o) \<Rightarrow>
    ('m \<Rightarrow> string \<Rightarrow> 'o) \<Rightarrow> bool" where
  "enter_laws api start inside view sees \<longleftrightarrow>
     (\<forall>s. view (start s) = view s) \<and>
     (\<forall>s u s'. Chroot api ''.'' (start s) = (Inr u, s') \<longrightarrow> view s' = view s \<and> inside s') \<and>
     (\<forall>s. inside s \<longrightarrow> sees s = view s) \<and>
     (\<forall>p s r s'. inside s \<and> OpenTree api p s = (r, s') \<longrightarrow> inside s') \<and>
     (\<forall>fd p s r s'. inside s \<and> MoveMount api fd p s = (r, s') \<longrightarrow> inside s')"

lemma enterD:
  assumes "enter_laws api start inside view sees"
  shows "Chroot api ''.'' (start s) = (Inr u, s') \<Longrightarrow> view s' = view s"
    and "Chroot api ''.'' (start s) = (Inr u, s') \<Longrightarrow> inside s'"
    and "inside s \<Longrightarrow> sees s = view s"
    and "inside s \<Longrightarrow> OpenTree api p s = (r, s') \<Longrightarrow> inside s'"
    and "inside s \<Longrightarrow> MoveMount api fd p s = (x, s') \<Longrightarrow> inside s'"
  using assms unfolding enter_laws_def by blast+

text \<open>The hooks of an adjustment in their order. The runtime gives up at the first that does not end
  with status 0.\<close>

fun hooks_of :: "ContainerAdjustment \<Rightarrow> Hook list" where
  "hooks_of [] = []"
| "hooks_of (AddHooks hs # a) = hs @ hooks_of a"
| "hooks_of (AddMount mt # a) = hooks_of a"
| "hooks_of (AddEnv k v # a) = hooks_of a"

fun run_hooks :: "(string \<Rightarrow> string list \<Rightarrow> 'm \<Rightarrow> nat \<times> 'm) \<Rightarrow> Hook list \<Rightarrow> 'm \<Rightarrow> bool \<times> 'm" where
  "run_hooks run [] s = (True, s)"
| "run_hooks run (hk # hks) s =
     (case run (Path hk) (Args hk) s of
        (status, s') \<Rightarrow> if status = 0 then run_hooks run hks s' else (False, s'))"

text \<open>\<open>copyBinaries\<close> has put the hook program at the path the adjustment names.\<close>

definition runs_swap_hook :: "'m mount_api \<Rightarrow> ('m \<Rightarrow> 'm) \<Rightarrow> (string \<Rightarrow> string list \<Rightarrow> 'm \<Rightarrow> nat \<times> 'm) \<Rightarrow> bool" where
  "runs_swap_hook api start run \<longleftrightarrow>
     (\<forall>args s. run SwapOciHookBinaryPathHost args s = hook_main api (tl args) (start s))"

definition runtime_laws :: "'m mount_api \<Rightarrow> ('m \<Rightarrow> 'm) \<Rightarrow> ('m \<Rightarrow> bool) \<Rightarrow> ('m \<Rightarrow> string \<Rightarrow> 'o) \<Rightarrow>
    ('m \<Rightarrow> string \<Rightarrow> 'o) \<Rightarrow> ('m \<Rightarrow> nat \<Rightarrow> 'o option) \<Rightarrow> (string \<Rightarrow> string list \<Rightarrow> 'm \<Rightarrow> nat \<times> 'm) \<Rightarrow> bool" where
  "runtime_laws api start inside view sees held run \<longleftrightarrow>
     mount_laws api sees held \<and> enter_laws api start inside view sees \<and> runs_swap_hook api start run"

text \<open>
  \<open>text_of\<close> is what a file object reads as. The runtime makes the mounts of an adjustment before it runs the
  hooks: each destination then shows what the source is on the host. \<open>ctr\<close> is the container's file
  system as the program finds it, and reads as what the paths show after the hooks.
\<close>

definition mounts_made :: "('o \<Rightarrow> string option) \<Rightarrow> ContainerAdjustment \<Rightarrow> host \<Rightarrow> (string \<Rightarrow> 'o) \<Rightarrow> bool" where
  "mounts_made text_of a h v \<longleftrightarrow>
     (\<forall>mt t. AddMount mt \<in> set a \<and> file_at h (comps (Source mt)) = Some t \<longrightarrow>
        text_of (v (Destination mt)) = Some t)"

definition reads_as :: "('o \<Rightarrow> string option) \<Rightarrow> (string \<Rightarrow> 'o) \<Rightarrow> host \<Rightarrow> bool" where
  "reads_as text_of v ctr \<longleftrightarrow>
     (\<forall>path t. clean_abs path \<and> text_of (v path) = Some t \<longrightarrow>
        (\<exists>f. fs_open (comps path) ctr = Inr f \<and> fs_read f ctr = Inr t))"

definition container_set_up :: "('o \<Rightarrow> string option) \<Rightarrow> ('m \<Rightarrow> string \<Rightarrow> 'o) \<Rightarrow>
    (string \<Rightarrow> string list \<Rightarrow> 'm \<Rightarrow> nat \<times> 'm) \<Rightarrow> ContainerAdjustment \<Rightarrow> host \<Rightarrow> 'm \<Rightarrow> host \<Rightarrow> bool" where
  "container_set_up text_of view run a h s ctr \<longleftrightarrow>
     mounts_made text_of a h (view s) \<and>
     (\<exists>s'. run_hooks run (hooks_of a) s = (True, s') \<and> reads_as text_of (view s') ctr)"

lemma hooks_of_append [simp]: "hooks_of (a @ b) = hooks_of a @ hooks_of b"
  by (induction a rule: hooks_of.induct) simp_all

lemma hooks_of_mounts [simp]: "hooks_of (map (\<lambda>x. AddMount (f x)) xs) = []"
  by (induction xs) simp_all

lemma hooks_of_adjustment [simp]:
  "hooks_of (createContainerAdjustment podID containerName m logLevel) = map swap_hook (keys m)"
  by (simp add: createContainerAdjustment_def)

section \<open>Swaps of what a container shows\<close>

text \<open>
  What one swap does to what the paths show, and what the swaps of several binaries do one after the
  other.
\<close>

definition swap_view :: "string \<Rightarrow> (string \<Rightarrow> 'o) \<Rightarrow> (string \<Rightarrow> 'o) \<Rightarrow> bool" where
  "swap_view b v v' \<longleftrightarrow>
     v' b = v SealBinaryPathContainer \<and> v' (SwappedBinaryPathInsideContainer b) = v b \<and>
     (\<forall>q. \<not> prefix (comps b) (comps q) \<and> \<not> prefix (comps (SwappedBinaryPathInsideContainer b)) (comps q) \<longrightarrow>
        v' q = v q)"

inductive swap_views :: "string list \<Rightarrow> (string \<Rightarrow> 'o) \<Rightarrow> (string \<Rightarrow> 'o) \<Rightarrow> bool" where
  none: "swap_views [] v v"
| more: "swap_view b v v1 \<Longrightarrow> swap_views bs v1 v' \<Longrightarrow> swap_views (b # bs) v v'"

text \<open>A binary that is not part of PodLock's own directory in the container.\<close>

definition outside_data_dir :: "string \<Rightarrow> bool" where
  "outside_data_dir b \<longleftrightarrow> clean_abs b \<and> comps b \<noteq> [] \<and> hd (comps b) \<noteq> ''.podlock''"

lemma outside_apart:
  assumes "outside_data_dir b"
  shows "\<not> prefix (comps b) (''.podlock'' # xs)" "\<not> prefix (''.podlock'' # xs) (comps b)"
  using assms by (cases "comps b"; auto simp: outside_data_dir_def)+

lemma outside_swapped:
  assumes "outside_data_dir b"
  shows "comps (SwappedBinaryPathInsideContainer b) = ''.podlock'' # ''swapped-binaries'' # comps b"
  using assms by (simp add: outside_data_dir_def comps_SwappedBinaryPathInsideContainer)

lemma data_dir_comps:
  "comps SealBinaryPathContainer = [''.podlock'', ''bin'', ''seal'']"
  "comps ContainerProfilePathInsideContainer = [''.podlock'', ''profile.json'']"
  by code_simp+

text \<open>The paths of two binaries, neither below the other, do not meet.\<close>

definition apart :: "string \<Rightarrow> string \<Rightarrow> bool" where
  "apart b q \<longleftrightarrow>
     \<not> prefix (comps b) (comps q) \<and> \<not> prefix (comps (SwappedBinaryPathInsideContainer b)) (comps q)"

lemma swap_viewD:
  assumes "swap_view b v v'"
  shows "v' b = v SealBinaryPathContainer" "v' (SwappedBinaryPathInsideContainer b) = v b"
    "apart b q \<Longrightarrow> v' q = v q"
  using assms by (simp_all add: swap_view_def apart_def)

lemma apart_binaries:
  assumes "outside_data_dir b" "outside_data_dir b'" "\<not> prefix (comps b) (comps b')"
  shows "apart b b'" "apart b (SwappedBinaryPathInsideContainer b')"
  using assms(3) outside_apart [OF assms(1)] outside_apart [OF assms(2)]
  unfolding apart_def outside_swapped [OF assms(1)] outside_swapped [OF assms(2)] by simp_all

lemma apart_data_dir:
  assumes "outside_data_dir b"
  shows "apart b SealBinaryPathContainer" "apart b ContainerProfilePathInsideContainer"
  using outside_apart(1) [OF assms] unfolding apart_def outside_swapped [OF assms] data_dir_comps by simp_all

lemma swap_views_frame:
  assumes "swap_views bs v v'"
  shows "\<forall>b \<in> set bs. apart b q \<Longrightarrow> v' q = v q"
  using assms
proof (induction rule: swap_views.induct)
  case (more b v v1 bs v')
  then show ?case using swap_viewD(3) [OF more.hyps(1), of q] by simp
qed simp

lemma swap_views_swaps:
  assumes "swap_views bs v v'"
  shows "\<forall>b \<in> set bs. outside_data_dir b \<Longrightarrow> pairwise (\<lambda>a b. \<not> prefix (comps a) (comps b)) (set bs) \<Longrightarrow>
    distinct bs \<Longrightarrow>
    \<forall>b \<in> set bs. v' b = v SealBinaryPathContainer \<and> v' (SwappedBinaryPathInsideContainer b) = v b"
  using assms
proof (induction rule: swap_views.induct)
  case (more b v v1 bs v')
  have out: "outside_data_dir b" and outs: "\<forall>a \<in> set bs. outside_data_dir a" using more.prems(1) by auto
  have away: "apart a b" "apart a (SwappedBinaryPathInsideContainer b)" "apart b a" if "a \<in> set bs" for a
  proof -
    have "a \<noteq> b" "outside_data_dir a" using that more.prems(3) outs by auto
    then have "\<not> prefix (comps a) (comps b)" "\<not> prefix (comps b) (comps a)"
      using that more.prems(2) by (simp_all add: pairwise_insert)
    with \<open>outside_data_dir a\<close> show "apart a b" "apart a (SwappedBinaryPathInsideContainer b)" "apart b a"
      using out by (simp_all add: apart_binaries)
  qed
  have "v' b = v1 b" "v' (SwappedBinaryPathInsideContainer b) = v1 (SwappedBinaryPathInsideContainer b)"
    using swap_views_frame [OF more.hyps(2)] away(1,2) by simp_all
  moreover have "v1 a = v a" if "a \<in> set bs" for a using swap_viewD(3) [OF more.hyps(1) away(3) [OF that]] .
  moreover have "v1 SealBinaryPathContainer = v SealBinaryPathContainer"
    by (rule swap_viewD(3) [OF more.hyps(1) apart_data_dir(1) [OF out]])
  moreover have "pairwise (\<lambda>a b. \<not> prefix (comps a) (comps b)) (set bs)"
    using more.prems(2) by (simp add: pairwise_insert)
  ultimately show ?case
    using more.IH outs more.prems(3) swap_viewD(1,2) [OF more.hyps(1)] by simp
qed simp

section \<open>The hooks of a container\<close>

lemma performOverMounts_inside:
  assumes laws: "enter_laws api start inside view sees"
    and "performOverMounts api target backup s = (Inr u, s')" "inside s"
  shows "inside s'"
proof -
  from assms(2) obtain sealFd s1 targetFd s2 x s3 y where
    "OpenTree api SealBinaryPathContainer s = (Inr sealFd, s1)" "OpenTree api target s1 = (Inr targetFd, s2)"
    "MoveMount api targetFd backup s2 = (Inr x, s3)" "MoveMount api sealFd target s3 = (Inr y, s')"
    unfolding performOverMounts_def by (elim attempt_InrE) auto
  then show ?thesis using assms(3) enterD(4,5) [OF laws] by metis
qed

text \<open>A hook that ends with status 0 has swapped its binary.\<close>

lemma swap_hook_swaps:
  assumes laws: "runtime_laws api start inside view sees held run" and run: "run (Path (swap_hook b)) (Args (swap_hook b)) s = (0, s')"
    and b: "clean_abs b" "\<not> prefix (comps b) (comps (SwappedBinaryPathInsideContainer b))"
  shows "swap_view b (view s) (view s')"
proof -
  have mount: "mount_laws api sees held" and enter: "enter_laws api start inside view sees"
    and hook: "runs_swap_hook api start run" using laws by (simp_all add: runtime_laws_def)
  have "b \<noteq> []" using b(1) by auto
  moreover have "hook_main api (tl (Args (swap_hook b))) (start s) = (0, s')"
    using hook run by (simp add: runs_swap_hook_def swap_hook_def)
  ultimately obtain u s1 v where c: "Chroot api ''.'' (start s) = (Inr u, s1)"
    and swap: "performOverMounts api b (SwappedBinaryPathInsideContainer b) s1 = (Inr v, s')"
    by (auto simp: hook_main_swap split: prod.splits sum.splits)
  note s1 = enterD(1,2) [OF enter c]
  have "sees s1 = view s" using enterD(3) [OF enter s1(2)] s1(1) by simp
  moreover have "sees s' = view s'"
    by (rule enterD(3) [OF enter performOverMounts_inside [OF enter swap s1(2)]])
  ultimately show ?thesis using performOverMounts_Inr [OF mount swap b(2)] by (auto simp: swap_view_def)
qed

lemma run_hooks_swaps:
  assumes laws: "runtime_laws api start inside view sees held run"
  shows "run_hooks run (map swap_hook bs) s = (True, s') \<Longrightarrow> \<forall>b \<in> set bs. outside_data_dir b \<Longrightarrow>
    swap_views bs (view s) (view s')"
proof (induction bs arbitrary: s)
  case Nil
  then show ?case by (simp add: swap_views.none)
next
  case (Cons b bs)
  from Cons.prems(1) obtain s1 where
    one: "run (Path (swap_hook b)) (Args (swap_hook b)) s = (0, s1)" and
    rest: "run_hooks run (map swap_hook bs) s1 = (True, s')" by (auto split: prod.splits if_splits)
  have b: "outside_data_dir b" using Cons.prems(2) by simp
  then have "clean_abs b" "\<not> prefix (comps b) (comps (SwappedBinaryPathInsideContainer b))"
    using outside_apart(1) by (simp_all add: outside_swapped) (simp add: outside_data_dir_def)
  from swap_hook_swaps [OF laws one this] Cons.IH [OF rest] Cons.prems(2) show ?case
    by (auto intro: swap_views.more)
qed

text \<open>The hooks of a delivered adjustment.\<close>

lemma delivered_swaps:
  assumes "CreateContainer get logLevel (Some p) (Some c) h = (Inr (Some a), h')" "names_ok p c"
    and "selected get p c m" "map_wf m" "tree_wf (tree h)" "\<forall>b \<in> set (keys m). outside_data_dir b"
    and "runtime_laws api start inside view sees held run" "run_hooks run (hooks_of a) s = (True, s')"
  shows "(\<forall>b \<in> set (keys m). view s' b = view s SealBinaryPathContainer \<and>
      view s' (SwappedBinaryPathInsideContainer b) = view s b) \<and>
    view s' SealBinaryPathContainer = view s SealBinaryPathContainer \<and>
    view s' ContainerProfilePathInsideContainer = view s ContainerProfilePathInsideContainer \<and>
    (\<forall>q. (\<forall>b \<in> set (keys m). \<not> prefix (comps b) (comps q) \<and>
       \<not> prefix (comps (SwappedBinaryPathInsideContainer b)) (comps q)) \<longrightarrow> view s' q = view s q)"
  using assms(1)
proof (cases rule: CreateContainer_steps)
  case (5 p' c' m' h1)
  then have m: "m' = m" using assms(3) selected_unique by blast
  have "binaries_ok m" using assms(6) by (simp add: binaries_ok_def outside_data_dir_def)
  then have "pairwise (\<lambda>a b. \<not> prefix (comps a) (comps b)) (set (keys m))"
    using delivered_apart [OF _ assms(2) _ assms(5)] 5 m by (auto simp: pairwise_def)
  moreover have swaps: "swap_views (keys m) (view s) (view s')"
    using run_hooks_swaps [OF assms(7)] assms(6,8) 5 m by simp
  moreover have "distinct (keys m)" using assms(4) by (simp add: map_wf_def)
  ultimately have "\<forall>b \<in> set (keys m). view s' b = view s SealBinaryPathContainer \<and>
      view s' (SwappedBinaryPathInsideContainer b) = view s b"
    using swap_views_swaps assms(6) by blast
  then show ?thesis
    using swap_views_frame [OF swaps] apart_data_dir assms(6) by (simp add: apart_def)
qed simp_all

text \<open>So the profile that was written on the host is the one the container has after its hooks.\<close>

lemma delivered_profile:
  assumes "CreateContainer get logLevel (Some p) (Some c) h = (Inr (Some a), h')" "names_ok p c"
    and "selected get p c m" "map_wf m" "tree_wf (tree h)" "\<forall>b \<in> set (keys m). outside_data_dir b"
    and "runtime_laws api start inside view sees held run" "container_set_up text_of view run a h' s ctr"
  shows "\<exists>f. fs_open (comps ContainerProfilePathInsideContainer) ctr = Inr f \<and>
    fs_read f ctr = Inr (encode_profiles m)"
proof -
  let ?path = ContainerProfilePathInsideContainer
  let ?mt = "bind_mount ?path (landlockProfilePathOnHost (pod_Id p) (ctr_Name c))"
  obtain s' where made: "mounts_made text_of a h' (view s)" and hooks: "run_hooks run (hooks_of a) s = (True, s')"
    and reads: "reads_as text_of (view s') ctr"
    using assms(8) unfolding container_set_up_def by blast
  from assms(1) have "AddMount ?mt \<in> set a \<and> file_at h' (comps (Source ?mt)) = Some (encode_profiles m)"
  proof (cases rule: CreateContainer_steps)
    case (5 p' c' m' h1)
    then have "m' = m" using assms(3) selected_unique by blast
    with 5 show ?thesis
      by (auto simp: createContainerAdjustment_def bind_mount_def intro: write_profile_stored)
  qed simp_all
  then have "text_of (view s ?path) = Some (encode_profiles m)"
    using made unfolding mounts_made_def by (fastforce simp: bind_mount_def)
  moreover have "view s' ?path = view s ?path" using delivered_swaps [OF assms(1-7) hooks] by blast
  moreover have "clean_abs ?path" by code_simp
  ultimately show ?thesis using reads unfolding reads_as_def by simp
qed

text \<open>
  A profile may name PodLock's own files as binaries, and the webhook admits it. The hook of such a
  binary works on them: here it leaves \<open>seal\<close> where the profile of the container was.
\<close>

lemma data_dir_binary_hides_profile:
  assumes "runtime_laws api start inside view sees held run"
    and "run_hooks run (hooks_of (createContainerAdjustment podID containerName
      (Some [(ContainerProfilePathInsideContainer, profile)]) logLevel)) s = (True, s')"
  shows "view s' ContainerProfilePathInsideContainer = view s SealBinaryPathContainer"
proof -
  let ?b = ContainerProfilePathInsideContainer
  have "run (Path (swap_hook ?b)) (Args (swap_hook ?b)) s = (0, s')"
    using assms(2) by (simp add: keys_def split: prod.splits if_splits)
  moreover have "clean_abs ?b" "\<not> prefix (comps ?b) (comps (SwappedBinaryPathInsideContainer ?b))"
    by code_simp+
  ultimately show ?thesis using swap_hook_swaps [OF assms(1)] swap_viewD(1) by blast
qed

section \<open>Properties\<close>

text \<open>
  A runtime for the witness: what the host's paths and the container's paths show, whether the running
  process has entered the container, and its open trees.
\<close>

record two_roots =
  tr_host :: "string \<Rightarrow> string"
  tr_ctr :: "string \<Rightarrow> string"
  tr_inside :: bool
  tr_trees :: "string list"

definition tr_sees :: "two_roots \<Rightarrow> string \<Rightarrow> string" where
  "tr_sees s = (if tr_inside s then tr_ctr s else tr_host s)"

definition tr_held :: "two_roots \<Rightarrow> nat \<Rightarrow> string option" where
  "tr_held s fd = (if fd < length (tr_trees s) then Some (tr_trees s ! fd) else None)"

definition tr_start :: "two_roots \<Rightarrow> two_roots" where
  "tr_start s = s\<lparr>tr_inside := False, tr_trees := []\<rparr>"

definition tr_move :: "string \<Rightarrow> string \<Rightarrow> two_roots \<Rightarrow> two_roots" where
  "tr_move p x s = (if tr_inside s then s\<lparr>tr_ctr := (tr_ctr s)(p := x)\<rparr> else s\<lparr>tr_host := (tr_host s)(p := x)\<rparr>)"

definition tr_api :: "two_roots mount_api" where
  "tr_api =
     \<lparr>OpenTree = (\<lambda>p s. (Inr (length (tr_trees s)), s\<lparr>tr_trees := tr_trees s @ [tr_sees s p]\<rparr>)),
      MoveMount = (\<lambda>fd p s. if fd < length (tr_trees s) then (Inr (), tr_move p (tr_trees s ! fd) s)
        else (Inl (Errno EINVAL), s)),
      Chroot = (\<lambda>p s. (Inr (), s\<lparr>tr_inside := True\<rparr>))\<rparr>"

definition tr_run :: "string \<Rightarrow> string list \<Rightarrow> two_roots \<Rightarrow> nat \<times> two_roots" where
  "tr_run path args s =
     (if path = SwapOciHookBinaryPathHost then hook_main tr_api (tl args) (tr_start s) else (127, s))"

lemma tr_laws:
  "runtime_laws tr_api tr_start tr_inside tr_ctr tr_sees tr_held tr_run"
proof -
  have "open_tree_law tr_api tr_sees tr_held" "move_mount_law tr_api tr_sees tr_held"
    by (auto simp: open_tree_law_def move_mount_law_def tr_api_def tr_sees_def tr_held_def tr_move_def fun_eq_iff
        nth_append split: if_splits)
  moreover have "enter_laws tr_api tr_start tr_inside tr_ctr tr_sees"
    by (auto simp: enter_laws_def tr_api_def tr_sees_def tr_start_def tr_move_def split: if_splits)
  moreover have "runs_swap_hook tr_api tr_start tr_run" by (simp add: runs_swap_hook_def tr_run_def)
  ultimately show ?thesis by (simp add: runtime_laws_def mount_laws_def)
qed

text \<open>What the container's paths show after the hooks.\<close>

fun tr_swap :: "string list \<Rightarrow> (string \<Rightarrow> string) \<Rightarrow> string \<Rightarrow> string" where
  "tr_swap [] v = v"
| "tr_swap (b # bs) v =
     tr_swap bs (v(SwappedBinaryPathInsideContainer b := v b, b := v SealBinaryPathContainer))"

lemma tr_swap_two:
  assumes "distinct [a, b, SwappedBinaryPathInsideContainer a, SwappedBinaryPathInsideContainer b,
    SealBinaryPathContainer]"
  shows "tr_swap [a, b] (\<lambda>p. p) = (\<lambda>path.
    if path = a \<or> path = b then SealBinaryPathContainer
    else if path = SwappedBinaryPathInsideContainer a then a
    else if path = SwappedBinaryPathInsideContainer b then b else path)"
  using assms by (auto simp: fun_eq_iff)

lemma tr_run_hook:
  assumes "b \<noteq> []"
  shows "\<exists>s'. tr_run (Path (swap_hook b)) (Args (swap_hook b)) s = (0, s') \<and> tr_host s' = tr_host s \<and>
    tr_ctr s' = tr_swap [b] (tr_ctr s)"
proof -
  have "Path (swap_hook b) = SwapOciHookBinaryPathHost" by (simp add: swap_hook_def)
  then show ?thesis
    using hook_main_swap [OF assms, of tr_api "tr_start s"]
    by (simp add: tr_run_def tr_api_def performOverMounts_def tr_move_def tr_start_def tr_sees_def del: One_nat_def)
qed

lemma tr_run_hooks:
  "\<forall>b \<in> set bs. b \<noteq> [] \<Longrightarrow> \<exists>s'. run_hooks tr_run (map swap_hook bs) s = (True, s') \<and> tr_host s' = tr_host s \<and>
    tr_ctr s' = tr_swap bs (tr_ctr s)"
proof (induction bs arbitrary: s)
  case (Cons b bs)
  obtain s1 where "tr_run (Path (swap_hook b)) (Args (swap_hook b)) s = (0, s1)" "tr_host s1 = tr_host s"
    "tr_ctr s1 = tr_swap [b] (tr_ctr s)"
    using tr_run_hook [of b s] Cons.prems by auto
  then show ?case using Cons.IH [of s1] Cons.prems by (simp add: fun_upd_def)
qed simp



end
