(* ===== verification/Go_Process.thy ===== *)
theory Go_Process
  imports Go_Json
begin

text \<open>
  The process environment of package \<open>os\<close>, as the list of its \<open>key=value\<close> strings, and the decimal
  conversions of \<open>strconv\<close>.
\<close>

section \<open>The environment\<close>

definition split_env :: "string \<Rightarrow> (string \<times> string) option" where
  "split_env kv = cut ''='' kv"

text \<open>\<open>os.Environ\<close>: of several entries for a key the first one stays; empty entries go.\<close>

fun os_Environ_from :: "string list \<Rightarrow> string list \<Rightarrow> string list" where
  "os_Environ_from seen [] = []"
| "os_Environ_from seen (kv # kvs) =
     (case split_env kv of
        None \<Rightarrow> (if kv = [] then [] else [kv]) @ os_Environ_from seen kvs
      | Some (k, v) \<Rightarrow>
          if k \<in> set seen then os_Environ_from seen kvs
          else kv # os_Environ_from (k # seen) kvs)"

definition os_Environ :: "string list \<Rightarrow> string list" where
  "os_Environ env = os_Environ_from [] env"

text \<open>\<open>os.LookupEnv\<close> and \<open>os.Getenv\<close>: the first entry of the key.\<close>

fun os_LookupEnv :: "string list \<Rightarrow> string \<Rightarrow> string option" where
  "os_LookupEnv [] key = None"
| "os_LookupEnv (kv # kvs) key =
     (case split_env kv of
        Some (k, v) \<Rightarrow> if k = key then Some v else os_LookupEnv kvs key
      | None \<Rightarrow> os_LookupEnv kvs key)"

definition os_Getenv :: "string list \<Rightarrow> string \<Rightarrow> string" where
  "os_Getenv env key = (case os_LookupEnv env key of None \<Rightarrow> [] | Some v \<Rightarrow> v)"

lemma split_env_key: "split_env kv = Some (k, v) \<Longrightarrow> kv = k @ ''='' @ v"
  unfolding split_env_def by (rule cut_Some)

lemma LookupEnv_append:
  "os_LookupEnv (xs @ ys) key =
     (case os_LookupEnv xs key of None \<Rightarrow> os_LookupEnv ys key | Some v \<Rightarrow> Some v)"
  by (induction xs) (auto split: option.splits)

lemma LookupEnv_filter_Environ:
  assumes "\<And>kv k v. split_env kv = Some (k, v) \<Longrightarrow> P kv \<longleftrightarrow> Q k"
  shows "os_LookupEnv (filter P (os_Environ_from seen env)) key =
    (if key \<in> set seen \<or> \<not> Q key then None else os_LookupEnv env key)"
proof (induction seen env rule: os_Environ_from.induct)
  case (2 seen kv kvs)
  then show ?case using assms by (auto split: option.splits)
qed simp

section \<open>Decimal numbers\<close>

text \<open>\<open>strconv.Atoi\<close> of a sign and digits.\<close>

definition Atoi :: "string \<Rightarrow> int option" where
  "Atoi s =
     (if s = [] then None
      else
        let digits = (if hd s = CHR ''-'' \<or> hd s = CHR ''+'' then tl s else s);
            n = foldl (\<lambda>n c. 10 * n + (int (byte c) - 48)) 0 digits;
            v = (if hd s = CHR ''-'' then - n else n)
        in if digits \<noteq> [] \<and> list_all digit digits \<and> - (2 ^ 63) \<le> v \<and> v < 2 ^ 63 then Some v else None)"

text \<open>\<open>strconv.Itoa\<close>.\<close>

fun nat_digits :: "nat \<Rightarrow> string" where
  "nat_digits n = (if n < 10 then [char_of (48 + n)] else nat_digits (n div 10) @ [char_of (48 + n mod 10)])"

declare nat_digits.simps [simp del]

definition Itoa :: "int \<Rightarrow> string" where
  "Itoa i = (if i < 0 then CHR ''-'' # nat_digits (nat (- i)) else nat_digits (nat i))"

lemma byte_digit [simp]: "n < 10 \<Longrightarrow> byte (char_of (48 + n)) = 48 + n"
  by (simp add: byte_def)

lemma nat_digits_ok:
  "nat_digits n \<noteq> [] \<and> list_all digit (nat_digits n) \<and>
     foldl (\<lambda>n c. 10 * n + (int (byte c) - 48)) 0 (nat_digits n) = int n"
proof (induction n rule: nat_digits.induct)
  case (1 n)
  show ?case
  proof (cases "n < 10")
    case True
    then show ?thesis by (simp add: nat_digits.simps [of n] digit_def)
  next
    case False
    have "n mod 10 < 10" by simp
    then show ?thesis
      using 1 [OF False] False by (simp add: nat_digits.simps [of n] digit_def) presburger
  qed
qed

lemma digit_not_sign: "digit c \<Longrightarrow> c \<noteq> CHR ''-'' \<and> c \<noteq> CHR ''+''"
  by (auto simp: digit_def byte_def)

text \<open>What \<open>Itoa\<close> writes, \<open>Atoi\<close> reads, over the 64-bit range.\<close>

lemma Atoi_Itoa:
  assumes "- (2 ^ 63) \<le> i" "i < 2 ^ 63"
  shows "Atoi (Itoa i) = Some i"
proof (cases "i < 0")
  case True
  then show ?thesis using assms nat_digits_ok [of "nat (- i)"] by (simp add: Atoi_def Itoa_def Let_def)
next
  case False
  obtain c cs where c: "nat_digits (nat i) = c # cs" using nat_digits_ok [of "nat i"] by (cases "nat_digits (nat i)") auto
  then have "c \<noteq> CHR ''-''" "c \<noteq> CHR ''+''" using nat_digits_ok [of "nat i"] digit_not_sign [of c] by simp_all
  then show ?thesis using False assms nat_digits_ok [of "nat i"] c by (simp add: Atoi_def Itoa_def Let_def)
qed

end
