(* ===== verification/Cmdutil_Log.thy ===== *)
theory Cmdutil_Log
  imports Go_Process
begin

text \<open>\<open>internal/cmdutil/log.go\<close>, with the reading of level names by package \<open>slog\<close>.\<close>

text \<open>
  \<open>slog.Level.UnmarshalText\<close>: a name, in any case, and an optional offset \<open>+n\<close> or \<open>-n\<close>.
  \<open>strings.ToUpper\<close> matters here for ASCII letters and for the dotless i (U+0131), whose capital
  is \<open>I\<close>. Levels are 64-bit signed integers.
\<close>

fun to_upper :: "string \<Rightarrow> string" where
  "to_upper [] = []"
| "to_upper (a # s) =
     (if a = CHR 0xC4 \<and> s \<noteq> [] \<and> hd s = CHR 0xB1 then CHR ''I'' # to_upper (tl s)
      else (if 97 \<le> byte a \<and> byte a \<le> 122 then char_of (byte a - 32) else a) # to_upper s)"

definition wrap64 :: "int \<Rightarrow> int" where
  "wrap64 n = signed_take_bit 63 n"

definition level_value :: "string \<Rightarrow> int option" where
  "level_value name =
     (let u = to_upper name in
      if u = ''DEBUG'' then Some (- 4)
      else if u = ''INFO'' then Some 0
      else if u = ''WARN'' then Some 4
      else if u = ''ERROR'' then Some 8
      else None)"

definition UnmarshalText :: "string \<Rightarrow> int result" where
  "UnmarshalText s =
     (let name = takeWhile (\<lambda>c. c \<noteq> CHR ''+'' \<and> c \<noteq> CHR ''-'') s;
          rest = dropWhile (\<lambda>c. c \<noteq> CHR ''+'' \<and> c \<noteq> CHR ''-'') s
      in case (if rest = [] then Some 0 else Atoi rest) of
           None \<Rightarrow> Inl (Wrap ''slog: level string: '' (Errorf ''strconv.Atoi: parsing error''))
         | Some offset \<Rightarrow>
             (case level_value name of
                None \<Rightarrow> Inl (Wrap ''slog: level string: '' (Errorf ''unknown name''))
              | Some l \<Rightarrow> Inr (wrap64 (l + offset))))"

definition ParseLogLevel :: "string \<Rightarrow> int result" where
  "ParseLogLevel s =
     (case UnmarshalText s of
        Inl e \<Rightarrow> Inl (Wrap (''unable to parse log level: '' @ s @ '', error: '') e)
      | Inr level \<Rightarrow> Inr level)"

text \<open>The names the commands use as their defaults.\<close>

lemma ParseLogLevel_names [simp]:
  "ParseLogLevel ''INFO'' = Inr 0" "ParseLogLevel ''info'' = Inr 0" "ParseLogLevel ''debug'' = Inr (- 4)"
  by code_simp+

end
