(* ===== verification/Seal_Cli.thy ===== *)
theory Seal_Cli
  imports Go_Flag Nri_Paths Profile_Codec Seal_Constants Cmdutil_Log
begin

text \<open>
  The command line of \<open>seal\<close>: \<open>cmd/seal/cli.go\<close>, \<open>config.go\<close> and \<open>env.go\<close>. The
  files are those of a \<open>host\<close>. A \<open>sets.Set\<close> is a set; its \<open>UnsortedList\<close> is the parameter
  \<open>unsorted\<close>, of which only \<open>set (unsorted S) = S\<close> is ever used. The usage text and the log are not
  kept.
\<close>

section \<open>env.go\<close>

definition sealedProcessEnv :: "string list \<Rightarrow> string list" where
  "sealedProcessEnv env =
     filter (\<lambda>kv. case split_env kv of None \<Rightarrow> False | Some (key, v) \<Rightarrow> \<not> HasPrefix key SealEnvVarPrefix)
       (os_Environ env)"

section \<open>Log formats\<close>

definition LogFormatJSON :: string where "LogFormatJSON = ''json''"

definition LogFormatText :: string where "LogFormatText = ''text''"

definition LogFormatFlag_Set :: "string \<Rightarrow> string result" where
  "LogFormatFlag_Set v =
     (if v = LogFormatJSON \<or> v = LogFormatText then Inr v
      else if v = [] then Inr LogFormatJSON
      else Inl (Errorf (''invalid log format: '' @ v)))"

text \<open>The handler of the logger with its least level; an error stands for the exit with status 1.\<close>

datatype log_handler = TintHandler int | JSONHandler int

definition setupLogger :: "string \<Rightarrow> string \<Rightarrow> log_handler result" where
  "setupLogger logLevel logFormat =
     (case ParseLogLevel logLevel of
        Inl e \<Rightarrow> Inl e
      | Inr slogLevel \<Rightarrow>
          Inr (if logFormat = LogFormatText then TintHandler (- 4) else JSONHandler slogLevel))"

section \<open>The configuration\<close>

record config =
  cfg_addLinkedLibraries :: bool
  cfg_profilePath :: string
  cfg_binary :: string
  cfg_binaryToRun :: string
  cfg_binaryArgs :: "string list"
  cfg_logLevel :: string
  cfg_logFormat :: string
  cfg_roPaths :: "string list"
  cfg_rxPaths :: "string list"
  cfg_rwPaths :: "string list"
  cfg_rwxPaths :: "string list"

text \<open>The form of the configuration in the log.\<close>

datatype slog_value = SlogBool bool | SlogString string | SlogAny "string list"

definition LogValue :: "config \<Rightarrow> (string \<times> slog_value) list" where
  "LogValue c =
     [(''addLinkedLibraries'', SlogBool (cfg_addLinkedLibraries c)),
      (''profilePath'', SlogString (cfg_profilePath c)),
      (''binary'', SlogString (cfg_binary c)),
      (''binaryToRun'', SlogString (cfg_binaryToRun c)),
      (''binaryArgs'', SlogAny (cfg_binaryArgs c)),
      (''logLevel'', SlogString (cfg_logLevel c)),
      (''logFormat'', SlogString (cfg_logFormat c)),
      (''roPaths'', SlogAny (cfg_roPaths c)),
      (''rxPaths'', SlogAny (cfg_rxPaths c)),
      (''rwPaths'', SlogAny (cfg_rwPaths c)),
      (''rwxPaths'', SlogAny (cfg_rwxPaths c))]"

text \<open>It leaves nothing out.\<close>

lemma LogValue_inject: "LogValue c = LogValue c' \<longleftrightarrow> c = c'"
  by (auto simp: LogValue_def intro: config.equality)

definition profileFromPath :: "host \<Rightarrow> string \<Rightarrow> string \<Rightarrow> Profile result" where
  "profileFromPath h path binary =
     (case os_Open path h of
        Inl e \<Rightarrow> Inl (Wrap (''cannot open profile '' @ squote path @ '': '') e)
      | Inr f \<Rightarrow>
          (case (case fs_read f h of Inl e \<Rightarrow> Inl e | Inr b \<Rightarrow> decode_profiles b) of
             Inl e \<Rightarrow> Inl (Wrap (''cannot unmarshal contents of profile file '' @ squote path @ '': '') e)
           | Inr profilesByBinary \<Rightarrow>
               (case lookup profilesByBinary binary of
                  None \<Rightarrow> Inl (Errorf (''cannot find profile for '' @ squote binary))
                | Some profile \<Rightarrow> Inr profile)))"

definition buildProfile :: "host \<Rightarrow> config \<Rightarrow> Profile result" where
  "buildProfile h c =
     (if cfg_profilePath c \<noteq> [] then profileFromPath h (cfg_profilePath c) (cfg_binary c)
      else Inr \<lparr>ReadOnly = cfg_roPaths c, ReadWrite = cfg_rwPaths c, ReadExec = cfg_rxPaths c,
                ReadWriteExec = cfg_rwxPaths c\<rparr>)"

section \<open>Finding the binary\<close>

text \<open>\<open>exec.LookPath\<close>. A file can be executed when it is no directory and an execute bit is set, as
  for a process of root.\<close>

definition findExecutable :: "host \<Rightarrow> string \<Rightarrow> unit result" where
  "findExecutable h path =
     (case os_Stat path h of
        Inl e \<Rightarrow> Inl e
      | Inr (DirNode m) \<Rightarrow> Inl (Errno EISDIR)
      | Inr (FileNode m b) \<Rightarrow> if m AND 0x49 \<noteq> 0 then Inr () else Inl (Errno EACCES))"

definition ErrNotFound :: go_error where
  "ErrNotFound = Errorf ''executable file not found in $PATH''"

definition ErrDot :: go_error where
  "ErrDot = Errorf ''cannot run executable found relative to current directory''"

definition SplitList :: "string \<Rightarrow> string list" where
  "SplitList path = (if path = [] then [] else split_on CHR '':'' path)"

fun look_dirs :: "host \<Rightarrow> string \<Rightarrow> string list \<Rightarrow> string result" where
  "look_dirs h name [] = Inl (Wrap (name @ '': '') ErrNotFound)"
| "look_dirs h name (dir0 # dirs) =
     (let dir = (if dir0 = [] then ''.'' else dir0); path = Join [dir, name] in
      case findExecutable h path of
        Inl e \<Rightarrow> look_dirs h name dirs
      | Inr u \<Rightarrow> if \<not> IsAbs path then Inl (Wrap (name @ '': '') ErrDot) else Inr path)"

definition LookPath :: "host \<Rightarrow> string list \<Rightarrow> string \<Rightarrow> string result" where
  "LookPath h env name =
     (if name \<in> {[], ''.'', ''..''} then Inl (Wrap (name @ '': '') ErrNotFound)
      else if sep \<in> set name then
        (case findExecutable h name of Inl e \<Rightarrow> Inl (Wrap (name @ '': '') e) | Inr u \<Rightarrow> Inr name)
      else look_dirs h name (SplitList (os_Getenv env ''PATH'')))"

definition resolveBinaryPath :: "host \<Rightarrow> string list \<Rightarrow> string \<Rightarrow> string result" where
  "resolveBinaryPath h env binary =
     (if Base binary = binary then
        (case LookPath h env binary of
           Inl e \<Rightarrow> Inl (Wrap ''could not find binary in PATH: '' e)
         | Inr binaryPath \<Rightarrow> Inr binaryPath)
      else if IsLocal binary then
        (case Abs (os_Getwd h) binary of
           Inl e \<Rightarrow> Inl (Wrap (''could not determine absolute path of binary '' @ squote binary @ '': '') e)
         | Inr absPath \<Rightarrow> Inr absPath)
      else Inr (Clean binary))"

section \<open>The two modes\<close>

definition wrapperMoode :: "string list \<Rightarrow> string \<Rightarrow> string list \<Rightarrow> config result" where
  "wrapperMoode env binary binaryArgs =
     (let profilePath0 = os_Getenv env ProfileEnvVar;
          profilePath = (if profilePath0 = [] then ContainerProfilePathInsideContainer else profilePath0);
          logLevel0 = os_Getenv env LogLevelEnvVar;
          logLevel = (if logLevel0 = [] then ''INFO'' else logLevel0);
          logFormat0 = os_Getenv env LogFormatEnvVar;
          logFormat = (if logFormat0 = [] then LogFormatJSON else logFormat0);
          addLinkedLibraries = (os_Getenv env AddLinkedLibrariesEnvVar \<noteq> []);
          binaryToRun = SwappedBinaryPathInsideContainer binary
      in Inr \<lparr>cfg_addLinkedLibraries = addLinkedLibraries, cfg_profilePath = profilePath,
              cfg_binary = binary, cfg_binaryToRun = binaryToRun, cfg_binaryArgs = binaryArgs,
              cfg_logLevel = logLevel, cfg_logFormat = logFormat, cfg_roPaths = [], cfg_rxPaths = [],
              cfg_rwPaths = [], cfg_rwxPaths = []\<rparr>)"

text \<open>The variables of \<open>nativeMode\<close> the flags set.\<close>

record native_vars =
  nv_logLevel :: string
  nv_logFormat :: string
  nv_ro :: "string set"
  nv_rx :: "string set"
  nv_rw :: "string set"
  nv_rwx :: "string set"
  nv_ldd :: bool

definition StringSetFlag_Set :: "string \<Rightarrow> string set \<Rightarrow> string set" where
  "StringSetFlag_Set v values = insert v values"

definition native_flags :: "native_vars flag list" where
  "native_flags =
     [Var ''ro'' (\<lambda>v c. Inr (c\<lparr>nv_ro := StringSetFlag_Set v (nv_ro c)\<rparr>)),
      Var ''rx'' (\<lambda>v c. Inr (c\<lparr>nv_rx := StringSetFlag_Set v (nv_rx c)\<rparr>)),
      Var ''rw'' (\<lambda>v c. Inr (c\<lparr>nv_rw := StringSetFlag_Set v (nv_rw c)\<rparr>)),
      Var ''rwx'' (\<lambda>v c. Inr (c\<lparr>nv_rwx := StringSetFlag_Set v (nv_rwx c)\<rparr>)),
      StringVar ''log-level'' (\<lambda>v c. c\<lparr>nv_logLevel := v\<rparr>),
      Var ''log-format''
        (\<lambda>v c. case LogFormatFlag_Set v of Inl e \<Rightarrow> Inl e | Inr f \<Rightarrow> Inr (c\<lparr>nv_logFormat := f\<rparr>)),
      BoolVar ''ldd'' (\<lambda>b c. c\<lparr>nv_ldd := b\<rparr>)]"

definition native_vars0 :: native_vars where
  "native_vars0 =
     \<lparr>nv_logLevel = ''info'', nv_logFormat = [], nv_ro = {}, nv_rx = {}, nv_rw = {}, nv_rwx = {},
      nv_ldd = False\<rparr>"

text \<open>The arguments around the first \<open>--\<close>: the flags, and the binary with its arguments.\<close>

definition split_args :: "string list \<Rightarrow> string list \<times> string \<times> string list" where
  "split_args args =
     (let flagArgs = takeWhile (\<lambda>a. a \<noteq> ''--'') args in
      case dropWhile (\<lambda>a. a \<noteq> ''--'') args of
        s # b # bs \<Rightarrow> (flagArgs, b, bs)
      | _ \<Rightarrow> (flagArgs, [], []))"

definition nativeMode ::
  "(string set \<Rightarrow> string list) \<Rightarrow> host \<Rightarrow> string list \<Rightarrow> string list \<Rightarrow> config result" where
  "nativeMode unsorted h env args =
     (let (flagArgs, binary, binaryArgs) = split_args args in
      case parse_flags native_flags flagArgs native_vars0 of
        Inl e \<Rightarrow> Inl (Wrap ''could not parse flags: '' e)
      | Inr (v, rest) \<Rightarrow>
          (let roPaths = unsorted (nv_ro v);
               rxPaths = unsorted (nv_rx v);
               rwPaths = unsorted (nv_rw v);
               rwxPaths = unsorted (nv_rwx v);
               profilePath = os_Getenv env ProfileEnvVar;
               logLevel = (if os_Getenv env LogLevelEnvVar \<noteq> [] then os_Getenv env LogLevelEnvVar
                           else nv_logLevel v);
               addLinkedLibraries = (os_Getenv env AddLinkedLibrariesEnvVar \<noteq> [] \<or> nv_ldd v);
               logFormat = (if os_Getenv env LogFormatEnvVar \<noteq> [] then os_Getenv env LogFormatEnvVar
                            else nv_logFormat v)
           in if (length roPaths > 0 \<or> length rxPaths > 0 \<or> length rwPaths > 0 \<or> length rwxPaths > 0) \<and>
                profilePath \<noteq> []
              then Inl (Errorf ''cannot use --profile together with --ro, --rx, --rw, or --rwx'')
              else if binary = []
              then Inl (Errorf ''no binary specified to run; use -- to separate flags and binary'')
              else (case resolveBinaryPath h env binary of
                      Inl e \<Rightarrow> Inl e
                    | Inr binaryAbsolutePath \<Rightarrow>
                        Inr \<lparr>cfg_addLinkedLibraries = addLinkedLibraries, cfg_profilePath = profilePath,
                             cfg_binary = binaryAbsolutePath, cfg_binaryToRun = binaryAbsolutePath,
                             cfg_binaryArgs = binaryArgs, cfg_logLevel = logLevel,
                             cfg_logFormat = logFormat, cfg_roPaths = roPaths, cfg_rxPaths = rxPaths,
                             cfg_rwPaths = rwPaths, cfg_rwxPaths = rwxPaths\<rparr>)))"

text \<open>\<open>os.Args\<close> is the program's name and its arguments.\<close>

definition parseFlags ::
  "(string set \<Rightarrow> string list) \<Rightarrow> host \<Rightarrow> string list \<Rightarrow> string \<Rightarrow> string list \<Rightarrow> config result" where
  "parseFlags unsorted h env arg0 args =
     (if Base arg0 = ''seal'' then nativeMode unsorted h env args
      else case Abs (os_Getwd h) arg0 of
             Inl e \<Rightarrow>
               Inl (Wrap (''could not determine absolute path of binary '' @ squote arg0 @ '': '') e)
           | Inr binary \<Rightarrow> wrapperMoode env binary args)"

section \<open>Clean paths\<close>

lemma clean_step_words: "c \<in> set (clean_step r st w) \<Longrightarrow> c \<in> set st \<or> c = w \<and> w \<noteq> []"
proof -
  assume c: "c \<in> set (clean_step r st w)"
  have "clean_step r st w = st \<or> clean_step r st w = tl st \<or> clean_step r st w = [] \<or> (clean_step r st w = w # st \<or> clean_step r st w = [w]) \<and> w \<noteq> []"
    by (cases st) simp_all
  then show ?thesis using c by (cases st) (auto simp del: clean_step.simps)
qed

definition word :: "string \<Rightarrow> bool" where
  "word c \<longleftrightarrow> sep \<notin> set c \<and> c \<noteq> []"

lemma clean_step_word:
  "\<forall>c \<in> set st. word c \<Longrightarrow> sep \<notin> set w \<Longrightarrow> \<forall>c \<in> set (clean_step r st w). word c"
  using clean_step_words [of _ r st w] unfolding word_def by blast

lemma foldl_clean_words:
  "\<forall>w \<in> set ws. sep \<notin> set w \<Longrightarrow> \<forall>c \<in> set st. word c \<Longrightarrow>
     \<forall>c \<in> set (foldl (clean_step r) st ws). word c"
proof (induction ws arbitrary: st)
  case (Cons w ws)
  have "\<forall>c \<in> set (clean_step r st w). word c" by (rule clean_step_word) (use Cons.prems in simp_all)
  then show ?case using Cons.IH [of "clean_step r st w"] Cons.prems(1) by (simp del: clean_step.simps)
qed simp

lemma clean_comps_words:
  "\<forall>w \<in> set ws. sep \<notin> set w \<Longrightarrow> \<forall>c \<in> set (clean_comps r ws). word c"
  using foldl_clean_words [of ws "[]" r] by (simp add: clean_comps_def)

lemma IsAbs_Clean: "IsAbs (Clean p) \<longleftrightarrow> IsAbs p"
proof (cases "p = [] \<or> IsAbs p")
  case True
  then show ?thesis by (auto simp: Clean_def)
next
  case False
  let ?cs = "clean_comps False (split_on sep p)"
  have words: "\<forall>c \<in> set ?cs. word c"
    by (rule clean_comps_words) (use split_on_no_sep_elems in blast)
  have "\<not> IsAbs (join_with [sep] ?cs)" if ne: "?cs \<noteq> []"
  proof -
    obtain c cs where cs: "?cs = c # cs" using ne by (cases ?cs) auto
    obtain x xs where c: "c = x # xs" "x \<noteq> sep" using words cs by (cases c) (auto simp: word_def)
    show ?thesis unfolding cs c using c(2) by (cases cs) auto
  qed
  then show ?thesis using False by (simp add: Clean_def Let_def)
qed

lemma clean_abs_Clean: "IsAbs p \<Longrightarrow> clean_abs (Clean p)"
  by (simp add: Clean_abs)

lemma Join_abs_clean: "IsAbs (Join es) \<Longrightarrow> clean_abs (Join es)"
  by (cases "dropWhile (\<lambda>e. e = []) es") (simp_all add: Join_def IsAbs_Clean clean_abs_Clean)

lemma look_dirs_abs: "look_dirs h name dirs = Inr p \<Longrightarrow> clean_abs p"
proof (induction h name dirs rule: look_dirs.induct)
  case (2 h name dir0 dirs)
  show ?case
  proof (cases "findExecutable h (Join [if dir0 = [] then ''.'' else dir0, name])")
    case (Inl e)
    then show ?thesis using 2 by (simp add: Let_def)
  next
    case (Inr u)
    then show ?thesis using 2(2) by (auto simp: Let_def split: if_splits dest: Join_abs_clean)
  qed
qed simp

lemma Base_self_sep: "Base b = b \<Longrightarrow> sep \<in> set b \<Longrightarrow> b = [sep]"
proof -
  assume b: "Base b = b" "sep \<in> set b"
  have "sep \<notin> set (last (split_on sep (strip_seps b)))"
    by (rule split_on_no_sep_elems [of _ sep "strip_seps b"]) simp
  then show ?thesis using b by (auto simp: Base_def Let_def split: if_splits)
qed

lemma LookPath_abs:
  assumes "LookPath h env b = Inr p" "Base b = b"
  shows "clean_abs p"
proof (cases "sep \<in> set b")
  case True
  then have "p = abs_path []"
    using assms Base_self_sep by (auto simp: LookPath_def abs_path_def split: sum.splits if_splits)
  then show ?thesis using clean_abs_abs_path [of "[]"] by simp
next
  case False
  then show ?thesis
    using assms(1) look_dirs_abs by (auto simp: LookPath_def split: if_splits)
qed

section \<open>Flags\<close>

definition flag_pairs :: "string \<Rightarrow> string list \<Rightarrow> string list" where
  "flag_pairs name ps = concat (map (\<lambda>p. [CHR ''-'' # name, p]) ps)"

lemma flag_pairs_simps [simp]:
  "flag_pairs name [] = []" "flag_pairs name (p # ps) = (CHR ''-'' # name) # p # flag_pairs name ps"
  by (simp_all add: flag_pairs_def)

text \<open>One lemma for the four flags: a flag whose setter always succeeds, set once for each value.\<close>

lemma parse_flag_pairs:
  assumes "plain_name name" "find_flag fs name = Some f" "\<not> flag_bool f"
    and "\<And>v c. flag_set f v c = Inr (upd v c)"
  shows "parse_flags fs (flag_pairs name ps @ rest) c = parse_flags fs rest (fold upd ps c)"
proof (induction ps arbitrary: c)
  case (Cons p ps)
  have "parse_flags fs ((CHR ''-'' # name) # p # flag_pairs name ps @ rest) c =
      parse_flags fs (flag_pairs name ps @ rest) (upd p c)"
    by (rule parse_flags_value [OF assms(1-4)])
  then show ?case using Cons.IH by (simp del: parse_flags.simps)
qed simp

lemma native_flag_found:
  "find_flag native_flags ''ro'' = Some (native_flags ! 0)"
  "find_flag native_flags ''rx'' = Some (native_flags ! 1)"
  "find_flag native_flags ''rw'' = Some (native_flags ! 2)"
  "find_flag native_flags ''rwx'' = Some (native_flags ! 3)"
  by (simp_all add: find_flag_def native_flags_def Var_def StringVar_def BoolVar_def)

lemma native_flag_sets:
  "flag_set (native_flags ! 0) v c = Inr (c\<lparr>nv_ro := insert v (nv_ro c)\<rparr>)"
  "flag_set (native_flags ! 1) v c = Inr (c\<lparr>nv_rx := insert v (nv_rx c)\<rparr>)"
  "flag_set (native_flags ! 2) v c = Inr (c\<lparr>nv_rw := insert v (nv_rw c)\<rparr>)"
  "flag_set (native_flags ! 3) v c = Inr (c\<lparr>nv_rwx := insert v (nv_rwx c)\<rparr>)"
  "\<not> flag_bool (native_flags ! 0)" "\<not> flag_bool (native_flags ! 1)"
  "\<not> flag_bool (native_flags ! 2)" "\<not> flag_bool (native_flags ! 3)"
  by (simp_all add: native_flags_def Var_def StringSetFlag_Set_def)

lemma fold_sets:
  "fold (\<lambda>v c. c\<lparr>nv_ro := insert v (nv_ro c)\<rparr>) ps c = c\<lparr>nv_ro := set ps \<union> nv_ro c\<rparr>"
  "fold (\<lambda>v c. c\<lparr>nv_rx := insert v (nv_rx c)\<rparr>) ps c = c\<lparr>nv_rx := set ps \<union> nv_rx c\<rparr>"
  "fold (\<lambda>v c. c\<lparr>nv_rw := insert v (nv_rw c)\<rparr>) ps c = c\<lparr>nv_rw := set ps \<union> nv_rw c\<rparr>"
  "fold (\<lambda>v c. c\<lparr>nv_rwx := insert v (nv_rwx c)\<rparr>) ps c = c\<lparr>nv_rwx := set ps \<union> nv_rwx c\<rparr>"
  by (induction ps arbitrary: c; simp)+

definition path_flags ::
  "string list \<Rightarrow> string list \<Rightarrow> string list \<Rightarrow> string list \<Rightarrow> string list" where
  "path_flags ro rx rw rwx =
     flag_pairs ''ro'' ro @ flag_pairs ''rx'' rx @ flag_pairs ''rw'' rw @ flag_pairs ''rwx'' rwx"

lemma plain_names: "plain_name ''ro''" "plain_name ''rx''" "plain_name ''rw''" "plain_name ''rwx''"
  by (simp_all add: plain_name_def)

lemma parse_path_flags:
  "parse_flags native_flags (path_flags ro rx rw rwx) native_vars0 =
     Inr (native_vars0\<lparr>nv_ro := set ro, nv_rx := set rx, nv_rw := set rw, nv_rwx := set rwx\<rparr>, [])"
proof -
  note pairs = parse_flag_pairs [OF plain_names(1) native_flag_found(1) native_flag_sets(5) native_flag_sets(1)]
    parse_flag_pairs [OF plain_names(2) native_flag_found(2) native_flag_sets(6) native_flag_sets(2)]
    parse_flag_pairs [OF plain_names(3) native_flag_found(3) native_flag_sets(7) native_flag_sets(3)]
    parse_flag_pairs [OF plain_names(4) native_flag_found(4) native_flag_sets(8) native_flag_sets(4),
      where rest = "[]"]
  show ?thesis
    using pairs(4) [of rwx]
    by (simp add: path_flags_def pairs fold_sets native_vars0_def del: parse_flags.simps(2))
qed

lemma split_args_at:
  assumes "''--'' \<notin> set flags"
  shows "split_args (flags @ ''--'' # b # bs) = (flags, b, bs)"
proof -
  have "takeWhile (\<lambda>a. a \<noteq> ''--'') (flags @ ''--'' # b # bs) = flags"
    "dropWhile (\<lambda>a. a \<noteq> ''--'') (flags @ ''--'' # b # bs) = ''--'' # b # bs"
    using assms by (auto simp: takeWhile_append dropWhile_append takeWhile_eq_all_conv)
  then show ?thesis by (simp add: split_args_def)
qed

lemma path_flags_no_separator:
  "\<forall>p \<in> set (ro @ rx @ rw @ rwx). p \<noteq> ''--'' \<Longrightarrow> ''--'' \<notin> set (path_flags ro rx rw rwx)"
  by (auto simp: path_flags_def flag_pairs_def)

lemma native_mode_config:
  assumes "\<forall>p \<in> set (ro @ rx @ rw @ rwx). p \<noteq> ''--''"
    and "os_Getenv env ProfileEnvVar = []" "binary \<noteq> []" "resolveBinaryPath h env binary = Inr path"
  shows "nativeMode unsorted h env (path_flags ro rx rw rwx @ ''--'' # binary # args) =
    Inr \<lparr>cfg_addLinkedLibraries = (os_Getenv env AddLinkedLibrariesEnvVar \<noteq> []), cfg_profilePath = [],
         cfg_binary = path, cfg_binaryToRun = path, cfg_binaryArgs = args,
         cfg_logLevel = (if os_Getenv env LogLevelEnvVar \<noteq> [] then os_Getenv env LogLevelEnvVar else ''info''),
         cfg_logFormat = os_Getenv env LogFormatEnvVar,
         cfg_roPaths = unsorted (set ro), cfg_rxPaths = unsorted (set rx),
         cfg_rwPaths = unsorted (set rw), cfg_rwxPaths = unsorted (set rwx)\<rparr>"
  using split_args_at [OF path_flags_no_separator [OF assms(1)]] assms(2-4)
  by (simp add: nativeMode_def parse_path_flags Let_def) (simp add: native_vars0_def)

section \<open>Properties\<close>

text \<open>The restricted program sees the environment of \<open>seal\<close> without the variables that configure
  \<open>seal\<close>: a variable with the prefix \<open>SEAL_\<close> is unset, every other one has the value it had.\<close>

lemma sealed_env_lookup:
  "os_LookupEnv (sealedProcessEnv env) key =
     (if HasPrefix key SealEnvVarPrefix then None else os_LookupEnv env key)"
proof -
  let ?P = "\<lambda>kv. case split_env kv of None \<Rightarrow> False | Some (key, v) \<Rightarrow> \<not> HasPrefix key SealEnvVarPrefix"
  have "os_LookupEnv (filter ?P (os_Environ_from [] env)) key =
      (if key \<in> set [] \<or> \<not> \<not> HasPrefix key SealEnvVarPrefix then None else os_LookupEnv env key)"
    by (rule LookupEnv_filter_Environ) simp
  then show ?thesis by (simp add: sealedProcessEnv_def os_Environ_def)
qed

text \<open>\<open>resolveBinaryPath\<close> answers a clean absolute path, the form of the keys of a profile, with one
  exception: a relative path that leaves the working directory is only cleaned and stays relative.\<close>

lemma resolve_binary_absolute:
  assumes "clean_abs (wd h)" "resolveBinaryPath h env binary = Inr p"
  shows "clean_abs p \<or> (\<not> IsAbs binary \<and> \<not> IsLocal binary \<and> p = Clean binary)"
proof (cases "Base binary = binary")
  case True
  then show ?thesis
    using assms(2) LookPath_abs by (auto simp: resolveBinaryPath_def split: sum.splits)
next
  case False
  show ?thesis
  proof (cases "IsLocal binary")
    case True
    moreover from True have "\<not> IsAbs binary" by (auto simp: IsLocal_def)
    ultimately have "p = Join [wd h, binary]"
      using False assms(2) by (simp add: resolveBinaryPath_def Abs_def os_Getwd_def split: option.splits)
    then show ?thesis using assms(1) by simp
  next
    case nonlocal: False
    then have "p = Clean binary" using False assms(2) by (simp add: resolveBinaryPath_def)
    then show ?thesis using nonlocal clean_abs_Clean by auto
  qed
qed

text \<open>A host with one program, for the witnesses.\<close>

definition cli_host :: host where
  "cli_host = \<lparr>tree = [[] \<mapsto> DirNode 0x1ED, [''bin''] \<mapsto> DirNode 0x1ED, [''bin'', ''ls''] \<mapsto> FileNode 0x1ED ''ELF''],
     wd = ''/home'', umask = 0, fault = (\<lambda>_ _. None), progress = (\<lambda>_. 0), gone = (\<lambda>_. False)\<rparr>"

lemma resolve_binary_absolute_witness:
  "resolveBinaryPath cli_host [] ''tools/run'' = Inr ''/home/tools/run'' \<and> clean_abs ''/home/tools/run''"
proof -
  have wd: "clean_abs (wd cli_host)" by code_simp
  have run: "resolveBinaryPath cli_host [] ''tools/run'' = Inr ''/home/tools/run''" by code_simp
  have "IsLocal ''tools/run''" by code_simp
  with resolve_binary_absolute [OF wd run] run show ?thesis by blast
qed

text \<open>\<open>seal\<close> called as \<open>seal -ro .. -rx .. -rw .. -rwx .. -- binary args\<close>, any number of times each,
  restricts the binary to exactly the given paths and hands it exactly the given arguments.\<close>

lemma native_mode_flags:
  assumes "\<And>S. finite S \<Longrightarrow> set (unsorted S) = S"
    and "\<forall>p \<in> set (ro @ rx @ rw @ rwx). p \<noteq> ''--''"
    and "os_Getenv env ProfileEnvVar = []" "binary \<noteq> []" "resolveBinaryPath h env binary = Inr path"
  shows "\<exists>c profile. nativeMode unsorted h env (path_flags ro rx rw rwx @ ''--'' # binary # args) = Inr c \<and>
    cfg_binary c = path \<and> cfg_binaryToRun c = path \<and> cfg_binaryArgs c = args \<and>
    buildProfile h c = Inr profile \<and>
    set (ReadOnly profile) = set ro \<and> set (ReadExec profile) = set rx \<and>
    set (ReadWrite profile) = set rw \<and> set (ReadWriteExec profile) = set rwx"
  using assms(1) by (simp add: native_mode_config [OF assms(2-5)] buildProfile_def)

lemma native_mode_flags_witness:
  "\<exists>c profile. nativeMode list_of_set cli_host []
       (path_flags [''/etc'', ''/usr''] [] [''/tmp''] [] @ ''--'' # ''/bin/ls'' # [''-l'']) = Inr c \<and>
     cfg_binary c = ''/bin/ls'' \<and> cfg_binaryArgs c = [''-l''] \<and> buildProfile cli_host c = Inr profile \<and>
     set (ReadOnly profile) = {''/etc'', ''/usr''}"
proof -
  have "os_Getenv [] ProfileEnvVar = []" "''/bin/ls'' \<noteq> ([] :: string)"
    "resolveBinaryPath cli_host [] ''/bin/ls'' = Inr ''/bin/ls''" by code_simp+
  from native_mode_flags [OF set_list_of_set _ this, of "[''/etc'', ''/usr'']" "[]" "[''/tmp'']" "[]" "[''-l'']"]
  show ?thesis by auto
qed

text \<open>What follows the binary is never read as options of \<open>seal\<close>: it changes nothing of the
  configuration but the arguments the binary gets.\<close>

lemma native_args_untouched:
  assumes "''--'' \<notin> set flags"
  shows "nativeMode unsorted h env (flags @ ''--'' # binary # args) =
    (case nativeMode unsorted h env (flags @ [''--'', binary]) of
       Inl e \<Rightarrow> Inl e
     | Inr c \<Rightarrow> Inr (c\<lparr>cfg_binaryArgs := args\<rparr>))"
proof -
  note split = split_args_at [OF assms, of binary args] split_args_at [OF assms, of binary "[]"]
  show ?thesis
  proof (cases "parse_flags native_flags flags native_vars0")
    case (Inl e)
    then show ?thesis using split by (simp add: nativeMode_def)
  next
    case (Inr x)
    then show ?thesis
      using split by (cases x; cases "resolveBinaryPath h env binary") (simp_all add: nativeMode_def Let_def)
  qed
qed

end
