(* ===== verification/Seal_Rules.thy ===== *)
theory Seal_Rules
  imports Api_Types Go_Os "HOL-Library.Word"
begin

text \<open>
  \<open>internal/seal/rules.go\<close>: from a profile and the binary to run to the Landlock rules. The access
  rights are the constants of go-landlock's \<open>syscall\<close> package, the parameter \<open>ll\<close>; the kernel
  documents them as different single bits (\<open>rights_distinct\<close>). A rule is the call
  \<open>landlock.PathAccess(access, paths...)\<close> that makes it.
\<close>

type_synonym AccessFSSet = "64 word"

record access_rights =
  AccessFSExecute :: AccessFSSet
  AccessFSWriteFile :: AccessFSSet
  AccessFSReadFile :: AccessFSSet
  AccessFSReadDir :: AccessFSSet
  AccessFSRemoveDir :: AccessFSSet
  AccessFSRemoveFile :: AccessFSSet
  AccessFSMakeChar :: AccessFSSet
  AccessFSMakeDir :: AccessFSSet
  AccessFSMakeReg :: AccessFSSet
  AccessFSMakeSock :: AccessFSSet
  AccessFSMakeFifo :: AccessFSSet
  AccessFSMakeBlock :: AccessFSSet
  AccessFSMakeSym :: AccessFSSet
  AccessFSRefer :: AccessFSSet
  AccessFSTruncate :: AccessFSSet

unbundle bit_operations_syntax

definition accessFileR :: "access_rights \<Rightarrow> AccessFSSet" where
  "accessFileR ll = AccessFSReadFile ll"

definition accessFileRX :: "access_rights \<Rightarrow> AccessFSSet" where
  "accessFileRX ll = AccessFSExecute ll OR AccessFSReadFile ll"

definition accessFileRW :: "access_rights \<Rightarrow> AccessFSSet" where
  "accessFileRW ll = accessFileR ll OR AccessFSWriteFile ll OR AccessFSTruncate ll"

definition accessFileRWX :: "access_rights \<Rightarrow> AccessFSSet" where
  "accessFileRWX ll = accessFileRX ll OR accessFileRW ll"

definition accessDirR :: "access_rights \<Rightarrow> AccessFSSet" where
  "accessDirR ll = AccessFSReadDir ll OR accessFileR ll"

definition accessDirRX :: "access_rights \<Rightarrow> AccessFSSet" where
  "accessDirRX ll = accessFileRX ll OR accessDirR ll"

definition accessDirRW :: "access_rights \<Rightarrow> AccessFSSet" where
  "accessDirRW ll =
     accessDirR ll OR accessFileRW ll OR AccessFSRemoveDir ll OR AccessFSRemoveFile ll OR
     AccessFSMakeChar ll OR AccessFSMakeDir ll OR AccessFSMakeReg ll OR AccessFSMakeSock ll OR
     AccessFSMakeFifo ll OR AccessFSMakeBlock ll OR AccessFSMakeSym ll OR AccessFSRefer ll"

definition accessDirRWX :: "access_rights \<Rightarrow> AccessFSSet" where
  "accessDirRWX ll = accessDirRX ll OR accessDirRW ll"

datatype Rule = PathAccess AccessFSSet "string list"

section \<open>rules.go\<close>

text \<open>\<open>os.Stat\<close> sorts the entries; one that cannot be looked at is skipped with a warning.\<close>

fun split_entries :: "host \<Rightarrow> string list \<Rightarrow> string list \<times> string list" where
  "split_entries h [] = ([], [])"
| "split_entries h (path # paths) =
     (let (files, dirs) = split_entries h paths in
      case os_Stat path h of
        Inl e \<Rightarrow> (files, dirs)
      | Inr (DirNode m) \<Rightarrow> (files, path # dirs)
      | Inr (FileNode m b) \<Rightarrow> (path # files, dirs))"

definition processPaths :: "host \<Rightarrow> string list \<Rightarrow> AccessFSSet \<Rightarrow> AccessFSSet \<Rightarrow> Rule list" where
  "processPaths h paths dirAccessMode fileAccessMode =
     (let (files, dirs) = split_entries h paths in
      (if length files > 0 then [PathAccess fileAccessMode files] else []) @
      (if length dirs > 0 then [PathAccess dirAccessMode dirs] else []))"

definition ProfileToLandlockRules :: "access_rights \<Rightarrow> host \<Rightarrow> Profile \<Rightarrow> Rule list" where
  "ProfileToLandlockRules ll h profile =
     processPaths h (ReadOnly profile) (accessDirR ll) (accessFileR ll) @
     processPaths h (ReadWrite profile) (accessDirRW ll) (accessFileRW ll) @
     processPaths h (ReadExec profile) (accessDirRX ll) (accessFileRX ll) @
     processPaths h (ReadWriteExec profile) (accessDirRWX ll) (accessFileRWX ll)"

definition RulesForBinaryToRun ::
  "access_rights \<Rightarrow> host \<Rightarrow> string \<Rightarrow> bool \<Rightarrow> (string \<Rightarrow> string list result) \<Rightarrow> Rule list result" where
  "RulesForBinaryToRun ll h binaryPath addLinkedLibraries discoverLinkedLibsFn =
     (if addLinkedLibraries then
        (case discoverLinkedLibsFn binaryPath of
           Inl e \<Rightarrow> Inl e
         | Inr linkedLibs \<Rightarrow>
             Inr (processPaths h ([binaryPath] @ linkedLibs) (accessDirRX ll) (accessFileRX ll)))
      else Inr (processPaths h [binaryPath] (accessDirRX ll) (accessFileRX ll)))"

section \<open>What the rules grant\<close>

text \<open>\<open>grants rules path access\<close>: some rule names the path with exactly this access.\<close>

definition grants :: "Rule list \<Rightarrow> string \<Rightarrow> AccessFSSet \<Rightarrow> bool" where
  "grants rules path a \<longleftrightarrow> (\<exists>ps. PathAccess a ps \<in> set rules \<and> path \<in> set ps)"

definition is_dir :: "host \<Rightarrow> string \<Rightarrow> bool" where
  "is_dir h p \<longleftrightarrow> (\<exists>m. os_Stat p h = Inr (DirNode m))"

definition is_file :: "host \<Rightarrow> string \<Rightarrow> bool" where
  "is_file h p \<longleftrightarrow> (\<exists>m b. os_Stat p h = Inr (FileNode m b))"

lemma split_entries_eq: "split_entries h ps = (filter (is_file h) ps, filter (is_dir h) ps)"
  by (induction h ps rule: split_entries.induct)
    (auto simp: is_file_def is_dir_def Let_def split: sum.splits node.splits)

lemma grants_append [simp]: "grants (xs @ ys) p a \<longleftrightarrow> grants xs p a \<or> grants ys p a"
  by (auto simp: grants_def)

lemma grants_processPaths:
  "grants (processPaths h ps d f) p a \<longleftrightarrow> p \<in> set ps \<and> (is_file h p \<and> a = f \<or> is_dir h p \<and> a = d)"
  by (auto simp: grants_def processPaths_def split_entries_eq filter_empty_conv)

lemma is_file_not_dir: "is_file h p \<Longrightarrow> \<not> is_dir h p"
  by (auto simp: is_file_def is_dir_def)

text \<open>The access a list of the profile means for an entry of its kind.\<close>

definition entry_access :: "host \<Rightarrow> string \<Rightarrow> AccessFSSet \<Rightarrow> AccessFSSet \<Rightarrow> AccessFSSet option" where
  "entry_access h p d f = (if is_dir h p then Some d else if is_file h p then Some f else None)"

lemma grants_entry:
  "grants (processPaths h ps d f) p a \<longleftrightarrow> p \<in> set ps \<and> entry_access h p d f = Some a"
  using is_file_not_dir by (auto simp: grants_processPaths entry_access_def)

lemma grants_profile:
  "grants (ProfileToLandlockRules ll h profile) p a \<longleftrightarrow>
     p \<in> set (ReadOnly profile) \<and> entry_access h p (accessDirR ll) (accessFileR ll) = Some a \<or>
     p \<in> set (ReadWrite profile) \<and> entry_access h p (accessDirRW ll) (accessFileRW ll) = Some a \<or>
     p \<in> set (ReadExec profile) \<and> entry_access h p (accessDirRX ll) (accessFileRX ll) = Some a \<or>
     p \<in> set (ReadWriteExec profile) \<and> entry_access h p (accessDirRWX ll) (accessFileRWX ll) = Some a"
  by (simp add: ProfileToLandlockRules_def grants_entry)

lemma grants_mono:
  assumes "p \<le> q" "grants (ProfileToLandlockRules ll h p) path a"
  shows "grants (ProfileToLandlockRules ll h q) path a"
  using assms(2) unfolding grants_profile using assms(1) by (auto simp: less_eq_Profile_ext_def)

section \<open>The rights\<close>

definition right_fields :: "(access_rights \<Rightarrow> AccessFSSet) list" where
  "right_fields =
     [AccessFSExecute, AccessFSWriteFile, AccessFSReadFile, AccessFSReadDir, AccessFSRemoveDir,
      AccessFSRemoveFile, AccessFSMakeChar, AccessFSMakeDir, AccessFSMakeReg, AccessFSMakeSock,
      AccessFSMakeFifo, AccessFSMakeBlock, AccessFSMakeSym, AccessFSRefer, AccessFSTruncate]"

text \<open>Each right is one bit, and no two are the same bit.\<close>

definition rights_distinct :: "access_rights \<Rightarrow> bool" where
  "rights_distinct ll \<longleftrightarrow>
     (\<exists>ns. map (\<lambda>f. f ll) right_fields = map (\<lambda>n. push_bit n 1) ns \<and> distinct ns \<and> (\<forall>n \<in> set ns. n < 64))"

definition linux_rights :: access_rights where
  "linux_rights =
     \<lparr>AccessFSExecute = 0x1, AccessFSWriteFile = 0x2, AccessFSReadFile = 0x4, AccessFSReadDir = 0x8,
      AccessFSRemoveDir = 0x10, AccessFSRemoveFile = 0x20, AccessFSMakeChar = 0x40,
      AccessFSMakeDir = 0x80, AccessFSMakeReg = 0x100, AccessFSMakeSock = 0x200,
      AccessFSMakeFifo = 0x400, AccessFSMakeBlock = 0x800, AccessFSMakeSym = 0x1000,
      AccessFSRefer = 0x2000, AccessFSTruncate = 0x4000\<rparr>"

lemma linux_rights_distinct: "rights_distinct linux_rights"
  unfolding rights_distinct_def
  by (rule exI [of _ "[0..<15]"]) (simp add: right_fields_def linux_rights_def upt_rec)

lemma single_bits_disjoint: "n \<noteq> m \<Longrightarrow> push_bit n (1 :: 'a :: len word) AND push_bit m 1 = 0"
  by (rule bit_word_eqI) (auto simp: bit_simps)

lemma length_right_fields: "length right_fields = 15"
  by (simp add: right_fields_def)

lemma rights_disjoint:
  assumes "rights_distinct ll" "i < 15" "j < 15" "i \<noteq> j"
  shows "(right_fields ! i) ll AND (right_fields ! j) ll = 0"
proof -
  obtain ns where ns: "map (\<lambda>f. f ll) right_fields = map (\<lambda>n. push_bit n 1) ns" "distinct ns"
    using assms(1) unfolding rights_distinct_def by blast
  have len: "length ns = 15" using arg_cong [OF ns(1), of length] by (simp add: length_right_fields)
  have bit: "(right_fields ! k) ll = push_bit (ns ! k) 1" if "k < 15" for k
  proof -
    have "(right_fields ! k) ll = map (\<lambda>f. f ll) right_fields ! k"
      using that by (simp add: length_right_fields)
    also have "\<dots> = push_bit (ns ! k) 1" unfolding ns(1) using that len by simp
    finally show ?thesis .
  qed
  have "ns ! i \<noteq> ns ! j" using ns(2) assms(2-4) len by (simp add: nth_eq_iff_index_eq)
  then show ?thesis unfolding bit [OF assms(2)] bit [OF assms(3)] by (rule single_bits_disjoint)
qed

text \<open>
  The rights by their place in the list above: reading and executing are 2, 3 and 0; all others
  change the file system; a file can only be granted 0, 1, 2 and 14.
\<close>

definition has_right :: "access_rights \<Rightarrow> nat \<Rightarrow> AccessFSSet \<Rightarrow> bool" where
  "has_right ll j a \<longleftrightarrow> a AND (right_fields ! j) ll \<noteq> 0"

definition may_write :: "access_rights \<Rightarrow> AccessFSSet \<Rightarrow> bool" where
  "may_write ll a \<longleftrightarrow> (\<exists>j \<in> set (1 # [4..<15]). has_right ll j a)"

definition may_execute :: "access_rights \<Rightarrow> AccessFSSet \<Rightarrow> bool" where
  "may_execute ll a \<longleftrightarrow> has_right ll 0 a"

definition only_for_dirs :: "access_rights \<Rightarrow> AccessFSSet \<Rightarrow> bool" where
  "only_for_dirs ll a \<longleftrightarrow> (\<exists>j \<in> set [3..<14]. has_right ll j a)"

lemma has_right_OR: "has_right ll j (a OR b) \<longleftrightarrow> has_right ll j a \<or> has_right ll j b"
proof -
  have "(a OR b) AND c = 0 \<longleftrightarrow> a AND c = 0 \<and> b AND c = 0" for c :: AccessFSSet
    by (auto simp: bit_eq_iff bit_simps)
  then show ?thesis by (simp add: has_right_def)
qed

lemma has_right_field:
  assumes "rights_distinct ll" "i < 15" "j < 15" "i \<noteq> j"
  shows "\<not> has_right ll j ((right_fields ! i) ll)"
  using rights_disjoint [OF assms] by (simp add: has_right_def)

lemma field_nth:
  "AccessFSExecute = right_fields ! 0" "AccessFSWriteFile = right_fields ! 1"
  "AccessFSReadFile = right_fields ! 2" "AccessFSReadDir = right_fields ! 3"
  "AccessFSRemoveDir = right_fields ! 4" "AccessFSRemoveFile = right_fields ! 5"
  "AccessFSMakeChar = right_fields ! 6" "AccessFSMakeDir = right_fields ! 7"
  "AccessFSMakeReg = right_fields ! 8" "AccessFSMakeSock = right_fields ! 9"
  "AccessFSMakeFifo = right_fields ! 10" "AccessFSMakeBlock = right_fields ! 11"
  "AccessFSMakeSym = right_fields ! 12" "AccessFSRefer = right_fields ! 13"
  "AccessFSTruncate = right_fields ! 14"
  by (simp_all add: right_fields_def)

lemma read_only_rights:
  assumes "rights_distinct ll"
  shows "\<not> may_write ll (accessDirR ll)" "\<not> may_write ll (accessFileR ll)"
    "\<not> may_write ll (accessDirRX ll)" "\<not> may_write ll (accessFileRX ll)"
  using has_right_field [OF assms]
  by (auto simp: may_write_def accessDirR_def accessFileR_def accessDirRX_def accessFileRX_def
      has_right_OR field_nth)

lemma no_exec_rights:
  assumes "rights_distinct ll"
  shows "\<not> may_execute ll (accessDirR ll)" "\<not> may_execute ll (accessFileR ll)"
    "\<not> may_execute ll (accessDirRW ll)" "\<not> may_execute ll (accessFileRW ll)"
  using has_right_field [OF assms]
  by (simp_all add: may_execute_def accessDirR_def accessFileR_def accessDirRW_def accessFileRW_def
      has_right_OR field_nth)

lemma file_rights:
  assumes "rights_distinct ll"
  shows "\<not> only_for_dirs ll (accessFileR ll)" "\<not> only_for_dirs ll (accessFileRX ll)"
    "\<not> only_for_dirs ll (accessFileRW ll)" "\<not> only_for_dirs ll (accessFileRWX ll)"
  using has_right_field [OF assms]
  by (auto simp: only_for_dirs_def accessFileR_def accessFileRX_def accessFileRW_def accessFileRWX_def
      has_right_OR field_nth)

lemma RulesForBinaryToRun_Inr:
  assumes "RulesForBinaryToRun ll h b ldd discover = Inr rules"
  obtains libs where "rules = processPaths h (b # libs) (accessDirRX ll) (accessFileRX ll)"
    "libs = [] \<or> ldd \<and> discover b = Inr libs"
  using assms by (auto simp: RulesForBinaryToRun_def split: if_splits sum.splits)

lemma entry_access_cases: "entry_access h p d f = Some a \<Longrightarrow> is_dir h p \<and> a = d \<or> is_file h p \<and> a = f"
  by (auto simp: entry_access_def split: if_splits)

text \<open>The lists behind a right of a run.\<close>

lemma run_rules_write:
  assumes "rights_distinct ll"
    and "grants (ProfileToLandlockRules ll h profile @ processPaths h bs (accessDirRX ll) (accessFileRX ll)) path a"
    and "may_write ll a"
  shows "path \<in> set (ReadWrite profile) \<union> set (ReadWriteExec profile)"
  using assms(2,3) read_only_rights [OF assms(1)]
  unfolding grants_append grants_profile grants_entry by (auto dest!: entry_access_cases)

lemma run_rules_execute:
  assumes "rights_distinct ll"
    and "grants (ProfileToLandlockRules ll h profile @ processPaths h bs (accessDirRX ll) (accessFileRX ll)) path a"
    and "may_execute ll a"
  shows "path \<in> set (ReadExec profile) \<union> set (ReadWriteExec profile) \<union> set bs"
  using assms(2,3) no_exec_rights [OF assms(1)]
  unfolding grants_append grants_profile grants_entry by (auto dest!: entry_access_cases)

lemma run_rules_file:
  assumes "rights_distinct ll"
    and "grants (ProfileToLandlockRules ll h profile @ processPaths h bs (accessDirRX ll) (accessFileRX ll)) path a"
    and "is_file h path"
  shows "\<not> only_for_dirs ll a"
  using assms(2,3) file_rights [OF assms(1)] is_file_not_dir [OF assms(3)]
  unfolding grants_append grants_profile grants_entry by (auto dest!: entry_access_cases)

section \<open>Properties\<close>

text \<open>C22: The rules of a profile grant exactly what it says: a path that can be looked up gets the
  access of each list that names it, the directory variant for a directory and the file variant for
  anything else, and no other path gets any; a path that cannot be looked up gets none.\<close>

theorem profile_rules_exact:
  "grants (ProfileToLandlockRules ll h profile) path a \<longleftrightarrow>
     (is_dir h path \<and>
        (path \<in> set (ReadOnly profile) \<and> a = accessDirR ll \<or>
         path \<in> set (ReadWrite profile) \<and> a = accessDirRW ll \<or>
         path \<in> set (ReadExec profile) \<and> a = accessDirRX ll \<or>
         path \<in> set (ReadWriteExec profile) \<and> a = accessDirRWX ll)) \<or>
     (is_file h path \<and>
        (path \<in> set (ReadOnly profile) \<and> a = accessFileR ll \<or>
         path \<in> set (ReadWrite profile) \<and> a = accessFileRW ll \<or>
         path \<in> set (ReadExec profile) \<and> a = accessFileRX ll \<or>
         path \<in> set (ReadWriteExec profile) \<and> a = accessFileRWX ll))"
  using is_file_not_dir [of h path] by (auto simp: grants_profile entry_access_def split: if_splits)

text \<open>C20: Least privilege of a run. Of the rules of the profile and of the binary together, only those
  for paths in the profile's read-write lists allow any change of the file system, and only those for
  paths in its exec lists, the binary itself and its linked libraries allow to execute; and no rule
  for a file asks for a right the kernel grants on directories only.\<close>

theorem run_rules_least_privilege:
  assumes "rights_distinct ll"
    and "RulesForBinaryToRun ll h binary ldd discover = Inr binaryRules"
    and "grants (ProfileToLandlockRules ll h profile @ binaryRules) path a"
  shows "(may_write ll a \<longrightarrow> path \<in> set (ReadWrite profile) \<union> set (ReadWriteExec profile)) \<and>
    (may_execute ll a \<longrightarrow> path \<in> set (ReadExec profile) \<union> set (ReadWriteExec profile) \<or> path = binary \<or>
       (ldd \<and> (\<exists>libs. discover binary = Inr libs \<and> path \<in> set libs))) \<and>
    (is_file h path \<longrightarrow> \<not> only_for_dirs ll a)"
proof -
  obtain libs where rules: "binaryRules = processPaths h (binary # libs) (accessDirRX ll) (accessFileRX ll)"
    and libs: "libs = [] \<or> ldd \<and> discover binary = Inr libs"
    using RulesForBinaryToRun_Inr [OF assms(2)] .
  note granted = assms(3) [unfolded rules]
  show ?thesis
    using run_rules_write [OF assms(1) granted] run_rules_execute [OF assms(1) granted]
      run_rules_file [OF assms(1) granted] libs by auto
qed

text \<open>A host with one directory and one file in it, for the witness.\<close>

definition rules_host :: host where
  "rules_host = \<lparr>tree = [[] \<mapsto> DirNode 0, [''tmp''] \<mapsto> DirNode 0, [''ls''] \<mapsto> FileNode 0 ''ELF''],
     wd = ''/'', umask = 0, fault = (\<lambda>_ _. None), progress = (\<lambda>_. 0), gone = (\<lambda>_. False)\<rparr>"

definition rules_profile :: Profile where
  "rules_profile = \<lparr>ReadOnly = [''/etc''], ReadWrite = [''/tmp''], ReadExec = [], ReadWriteExec = []\<rparr>"

theorem run_rules_least_privilege_witness:
  "grants (ProfileToLandlockRules linux_rights rules_host rules_profile @
       processPaths rules_host [''/ls''] (accessDirRX linux_rights) (accessFileRX linux_rights))
     ''/ls'' (accessFileRX linux_rights) \<and>
   \<not> may_write linux_rights (accessFileRX linux_rights)"
proof -
  have ls: "is_file rules_host ''/ls''"
  proof -
    have "IsAbs ''/ls''" "comps ''/ls'' = [''ls'']" by code_simp+
    then show ?thesis by (simp add: is_file_def os_Stat_def fs_stat_def rules_host_def)
  qed
  have binary: "RulesForBinaryToRun linux_rights rules_host ''/ls'' False (\<lambda>_. Inr []) =
      Inr (processPaths rules_host [''/ls''] (accessDirRX linux_rights) (accessFileRX linux_rights))"
    by (simp add: RulesForBinaryToRun_def)
  have granted: "grants (ProfileToLandlockRules linux_rights rules_host rules_profile @
       processPaths rules_host [''/ls''] (accessDirRX linux_rights) (accessFileRX linux_rights))
     ''/ls'' (accessFileRX linux_rights)"
    using ls by (simp add: grants_processPaths)
  have "''/ls'' \<notin> set (ReadWrite rules_profile) \<union> set (ReadWriteExec rules_profile)"
    by (simp add: rules_profile_def)
  with run_rules_least_privilege [OF linux_rights_distinct binary granted] granted show ?thesis by blast
qed

text \<open>What Landlock ABI 3 handles, as the documented constants have it, and the part of it for files.\<close>

definition handled_V3 :: AccessFSSet where
  "handled_V3 = push_bit 15 1 - 1"

definition handled_files :: AccessFSSet where
  "handled_files = 0x4007"

lemma linux_access_sets:
  "accessFileR linux_rights = 0x4" "accessFileRX linux_rights = 0x5" "accessFileRW linux_rights = 0x4006"
  "accessFileRWX linux_rights = 0x4007" "accessDirR linux_rights = 0xC" "accessDirRX linux_rights = 0xD"
  "accessDirRW linux_rights = 0x7FFE" "accessDirRWX linux_rights = 0x7FFF"
  by (simp_all add: accessFileR_def accessFileRX_def accessFileRW_def accessFileRWX_def accessDirR_def
      accessDirRX_def accessDirRW_def accessDirRWX_def linux_rights_def)

text \<open>C23: No rule asks for more than the kernel can give. With the constants of Linux, every rule of a run
  names at least one path, and its access fits into the 15 bits that ABI 3 handles, contains the right
  to read, and for a file stays within the four rights that apply to files; so the kernel rejects none
  of them for its access.\<close>

theorem rule_access_bounded:
  assumes "RulesForBinaryToRun linux_rights h binary ldd discover = Inr binaryRules"
    and "PathAccess a paths \<in> set (ProfileToLandlockRules linux_rights h profile @ binaryRules)"
  shows "paths \<noteq> [] \<and> unat a < 2 ^ 15 \<and> a AND NOT handled_V3 = 0 \<and> a AND AccessFSReadFile linux_rights \<noteq> 0 \<and>
    (\<forall>path \<in> set paths. is_file h path \<longrightarrow> a AND NOT handled_files = 0)"
proof -
  obtain libs where "binaryRules = processPaths h (binary # libs) (accessDirRX linux_rights) (accessFileRX linux_rights)"
    using RulesForBinaryToRun_Inr [OF assms(1)] .
  then have cases: "\<exists>ps d f. (d, f) \<in> {(0xC, 0x4), (0x7FFE, 0x4006), (0xD, 0x5), (0x7FFF, 0x4007)} \<and>
      PathAccess a paths \<in> set (processPaths h ps d f)"
    using assms(2) unfolding ProfileToLandlockRules_def linux_access_sets by auto
  then obtain ps d f where df: "(d, f) \<in> {(0xC, 0x4), (0x7FFE, 0x4006), (0xD, 0x5), (0x7FFF, 0x4007)}"
    and rule: "PathAccess a paths \<in> set (processPaths h ps d f)" by blast
  have paths: "paths \<noteq> []" "a = f \<or> a = d \<and> (\<forall>p \<in> set paths. \<not> is_file h p)"
    using rule is_file_not_dir by (auto simp: processPaths_def split_entries_eq Let_def split: if_splits)
  have sets: "unat d < 2 ^ 15 \<and> d AND NOT handled_V3 = 0 \<and> d AND 4 \<noteq> 0"
    "unat f < 2 ^ 15 \<and> f AND NOT handled_V3 = 0 \<and> f AND 4 \<noteq> 0 \<and> f AND NOT handled_files = 0"
    using df by (auto simp: handled_V3_def handled_files_def)
  show ?thesis using paths sets by (auto simp: linux_rights_def)
qed

theorem rule_access_bounded_witness:
  "list_all (\<lambda>r. case r of PathAccess a paths \<Rightarrow> unat a < 2 ^ 15)
     (ProfileToLandlockRules linux_rights rules_host rules_profile @
       processPaths rules_host [''/ls''] (accessDirRX linux_rights) (accessFileRX linux_rights))"
proof -
  have binary: "RulesForBinaryToRun linux_rights rules_host ''/ls'' False (\<lambda>_. Inr []) =
      Inr (processPaths rules_host [''/ls''] (accessDirRX linux_rights) (accessFileRX linux_rights))"
    by (simp add: RulesForBinaryToRun_def)
  show ?thesis using rule_access_bounded [OF binary, of _ _ rules_profile] unfolding list_all_iff by (auto split: Rule.split)
qed

text \<open>With lists that do not overlap, a path gets one access.\<close>

lemma disjoint_one_access:
  assumes "set (ReadOnly p) \<inter> set (ReadWrite p) = {}" "set (ReadOnly p) \<inter> set (ReadExec p) = {}"
    "set (ReadOnly p) \<inter> set (ReadWriteExec p) = {}" "set (ReadWrite p) \<inter> set (ReadExec p) = {}"
    "set (ReadWrite p) \<inter> set (ReadWriteExec p) = {}" "set (ReadExec p) \<inter> set (ReadWriteExec p) = {}"
    and "grants (ProfileToLandlockRules ll h p) path a" "grants (ProfileToLandlockRules ll h p) path b"
  shows "a = b"
  using assms(7,8) unfolding grants_profile
  by (elim disjE conjE) (use assms(1-6) in auto)

end
