(* ===== verification/Seal_Ldd.thy ===== *)
theory Seal_Ldd
  imports Go_Os
begin

text \<open>
  \<open>internal/seal/ldd.go\<close>: the libraries a binary is linked with, from the dynamic loader's listing.
  The parameters \<open>dl_world\<close> are the answers of the machine the program asks: \<open>filepath.Glob\<close>, the
  parse of a file by \<open>debug/elf\<close> (its class and imported libraries) and the output of a command run
  by \<open>os/exec\<close> with its path and argument vector. Messages go to the log and are not kept.
\<close>

datatype elf_class = ELFCLASSNONE | ELFCLASS32 | ELFCLASS64

record elf_file =
  Class :: elf_class
  ImportedLibraries :: "string list result"

record dl_world =
  Glob :: "string \<Rightarrow> string list result"
  elf_Open :: "string \<Rightarrow> elf_file result"
  CombinedOutput :: "string \<Rightarrow> string list \<Rightarrow> string \<times> go_error option"

section \<open>FirstGlobber\<close>

record FirstGlobber =
  searchPathPrefix :: string

fun first_match :: "dl_world \<Rightarrow> string list \<Rightarrow> string" where
  "first_match w [] = []"
| "first_match w (pattern # patterns) =
     (case Glob w pattern of
        Inl e \<Rightarrow> first_match w patterns
      | Inr matches \<Rightarrow> if length matches > 0 then matches ! 0 else first_match w patterns)"

definition Find :: "dl_world \<Rightarrow> FirstGlobber \<Rightarrow> string list \<Rightarrow> string" where
  "Find w f patterns =
     first_match w
       (if searchPathPrefix f \<noteq> [] then map (\<lambda>pattern. Join [searchPathPrefix f, pattern]) patterns
        else patterns)"

definition findLdSoBin :: "dl_world \<Rightarrow> elf_class \<Rightarrow> FirstGlobber \<Rightarrow> string" where
  "findLdSoBin w elfClass globber =
     (let patterns =
        (case elfClass of
           ELFCLASS32 \<Rightarrow> [''/lib32/ld-*.so.*'']
         | ELFCLASS64 \<Rightarrow> [''/lib64/ld-*.so.*'']
         | ELFCLASSNONE \<Rightarrow> [])
      in Find w globber (patterns @ [''/lib/ld-*.so.*'']))"

section \<open>Parsing and file types\<close>

definition parse_line :: "string \<Rightarrow> string list" where
  "parse_line line0 =
     (let line = TrimSpace line0 in
      if line = [] then []
      else case cut ''=>'' line of
             Some (before, after) \<Rightarrow>
               (let rest = TrimSpace after; parts = Fields rest in
                if length parts > 0 \<and> HasPrefix (parts ! 0) ''/'' then [parts ! 0] else [])
           | None \<Rightarrow>
               (let fields = Fields line in
                if length fields > 0 \<and> HasPrefix (fields ! 0) ''/'' then [fields ! 0] else []))"

definition parseLoaderOutput :: "string \<Rightarrow> string list" where
  "parseLoaderOutput output = concat (map parse_line (split_on CHR 0x0A output))"

definition FileTypeUnknown :: string where "FileTypeUnknown = ''unknown''"

definition FileTypeELF :: string where "FileTypeELF = ''elf''"

definition FileTypeScript :: string where "FileTypeScript = ''script''"

text \<open>\<open>f.Read(magic)\<close> reads at most four bytes and answers \<open>io.EOF\<close> at the end of the file; with
  one byte there is no error, and \<open>%w\<close> of nil wraps nothing.\<close>

definition detectFileType :: "host \<Rightarrow> string \<Rightarrow> string result" where
  "detectFileType h path =
     (case os_Open path h of
        Inl e \<Rightarrow> Inl (Wrap (''could not open file '' @ squote path @ '': '') e)
      | Inr f \<Rightarrow>
          (case fs_read f h of
             Inl e \<Rightarrow> Inl (Wrap (''could not read magic bytes from file '' @ squote path @ '': '') e)
           | Inr b \<Rightarrow>
               (let magic = take 4 b; n = length magic in
                if n = 0 then
                  Inl (Wrap (''could not read magic bytes from file '' @ squote path @ '': '') (Errorf ''EOF''))
                else if n < 2 then
                  Inl (Errorf (''could not read magic bytes from file '' @ squote path @ '': %!w(<nil>)''))
                else if n \<ge> 4 \<and> magic ! 0 = CHR 0x7F \<and> magic ! 1 = CHR ''E'' \<and> magic ! 2 = CHR ''L'' \<and>
                    magic ! 3 = CHR ''F'' then Inr FileTypeELF
                else if magic ! 0 = CHR ''#'' \<and> magic ! 1 = CHR ''!'' then Inr FileTypeScript
                else Inr FileTypeUnknown)))"

text \<open>The path and the argument vector of the loader's command.\<close>

definition loader_command :: "string \<Rightarrow> string \<Rightarrow> string list" where
  "loader_command ldSolver binaryPath =
     (if contains ldSolver ''musl'' then [''ldd'', binaryPath]
      else [ldSolver, ''--list'', binaryPath])"

definition DiscoverLinkedLibraries :: "dl_world \<Rightarrow> host \<Rightarrow> string \<Rightarrow> string list result" where
  "DiscoverLinkedLibraries w h binaryPath =
     (case detectFileType h binaryPath of
        Inl e \<Rightarrow> Inl (Wrap (''could not detect file type for binary '' @ squote binaryPath @ '': '') e)
      | Inr fileType \<Rightarrow>
          if fileType = FileTypeELF then
            (case elf_Open w binaryPath of
               Inl e \<Rightarrow> Inl (Wrap (''could not open ELF binary '' @ squote binaryPath @ '': '') e)
             | Inr elfFile \<Rightarrow>
                 (case ImportedLibraries elfFile of
                    Inl e \<Rightarrow>
                      Inl (Wrap (''could not get imported libraries for binary '' @ squote binaryPath @ '': '') e)
                  | Inr importedLibs \<Rightarrow>
                      if length importedLibs = 0 then Inr []
                      else
                        (let ldSolver = findLdSoBin w (Class elfFile) \<lparr>searchPathPrefix = []\<rparr> in
                         case CombinedOutput w ldSolver (loader_command ldSolver binaryPath) of
                           (output, Some e) \<Rightarrow> Inl (Wrap (''failed to run '' @ ldSolver @ '': '') e)
                         | (output, None) \<Rightarrow> Inr (parseLoaderOutput output))))
          else Inr [])"

section \<open>What parsing yields\<close>

lemma parse_line_field:
  assumes "l \<in> set (parse_line line)"
  shows "IsAbs l" "\<forall>c \<in> set l. \<not> ascii_space c"
proof -
  have fields: "\<forall>c \<in> set (Fields s ! 0). \<not> ascii_space c" if "Fields s \<noteq> []" for s
    using that fields_from_no_ascii_space [of "Fields s ! 0" "[]" s] by (simp add: Fields_def)
  show "IsAbs l" "\<forall>c \<in> set l. \<not> ascii_space c"
    using assms fields by (auto simp: parse_line_def Let_def IsAbs_def split: if_splits option.splits)
qed

section \<open>The loader's listing\<close>

text \<open>The lines loaders print: a library resolved to a path, the loader itself, the virtual library of
  the kernel, a library that was not found.\<close>

datatype loader_line =
    Resolved string string string
  | Loader string string
  | Virtual string string
  | Missing string

fun render_line :: "loader_line \<Rightarrow> string" where
  "render_line (Resolved name path addr) = CHR 0x09 # name @ '' => '' @ path @ '' ('' @ addr @ '')''"
| "render_line (Loader path addr) = CHR 0x09 # path @ '' ('' @ addr @ '')''"
| "render_line (Virtual name addr) = CHR 0x09 # name @ '' ('' @ addr @ '')''"
| "render_line (Missing name) = CHR 0x09 # name @ '' => not found''"

definition render :: "loader_line list \<Rightarrow> string" where
  "render ls = concat (map (\<lambda>l. render_line l @ [CHR 0x0A]) ls)"

fun library_path :: "loader_line \<Rightarrow> string list" where
  "library_path (Resolved name path addr) = [path]"
| "library_path (Loader path addr) = [path]"
| "library_path (Virtual name addr) = []"
| "library_path (Missing name) = []"

text \<open>A word of such a line: no white space and no \<open>=\<close>.\<close>

definition word_ok :: "string \<Rightarrow> bool" where
  "word_ok w \<longleftrightarrow> w \<noteq> [] \<and> (\<forall>c \<in> set w. plain_char c \<and> c \<noteq> CHR ''='')"

fun line_ok :: "loader_line \<Rightarrow> bool" where
  "line_ok (Resolved name path addr) \<longleftrightarrow> word_ok name \<and> word_ok path \<and> IsAbs path \<and> word_ok addr"
| "line_ok (Loader path addr) \<longleftrightarrow> word_ok path \<and> IsAbs path \<and> word_ok addr"
| "line_ok (Virtual name addr) \<longleftrightarrow> word_ok name \<and> \<not> IsAbs name \<and> word_ok addr"
| "line_ok (Missing name) \<longleftrightarrow> word_ok name"

text \<open>Characters among which no multi-byte white space hides.\<close>

definition tame :: "string \<Rightarrow> bool" where
  "tame s \<longleftrightarrow> (\<forall>c \<in> set s. c \<notin> {CHR 0xC2, CHR 0xE1, CHR 0xE2, CHR 0xE3})"

lemma tame_simps [simp]: "tame []" "tame (s @ t) \<longleftrightarrow> tame s \<and> tame t"
  "tame (c # s) \<longleftrightarrow> c \<notin> {CHR 0xC2, CHR 0xE1, CHR 0xE2, CHR 0xE3} \<and> tame s"
  by (auto simp: tame_def)

lemma word_ok_tame: "word_ok w \<Longrightarrow> tame w"
  by (auto simp: word_ok_def tame_def plain_char_def)

lemma space_width_tame: "tame s \<Longrightarrow> space_width s \<le> 1"
  by (cases s) (auto simp: space_width.simps space2_def space3_def split: list.splits)

lemma trim_right_last:
  assumes "tame (s @ [c])" "plain_char c"
  shows "trim_right (s @ [c]) = s @ [c]"
proof -
  have "tame (drop k (s @ [c]))" for k
    using assms(1) set_drop_subset [of k "s @ [c]"] unfolding tame_def by blast
  then have le: "space_width (drop k (s @ [c])) \<le> 1" for k by (rule space_width_tame)
  have "space_width (drop (length (s @ [c]) - 2) (s @ [c])) \<noteq> 2"
    "space_width (drop (length (s @ [c]) - 3) (s @ [c])) \<noteq> 3"
    using le [of "length (s @ [c]) - 2"] le [of "length (s @ [c]) - 3"] by linarith+
  moreover have "space_width (drop (length (s @ [c]) - 1) (s @ [c])) = 0" using assms(2) by simp
  ultimately have "space_suffix (s @ [c]) = 0" by (simp add: space_suffix_def)
  then show ?thesis by (subst trim_right.simps) simp
qed

lemma TrimSpace_line:
  assumes "ascii_space a" "tame (s @ [c])" "plain_char c" "s \<noteq> []" "plain_char (hd s)"
  shows "TrimSpace (a # s @ [c]) = s @ [c]"
proof -
  obtain x xs where s: "s = x # xs" using assms(4) by (cases s) auto
  have "trim_left (a # s @ [c]) = s @ [c]"
    using assms(1,5) s trim_left_plain [of x "xs @ [c]"] by (simp add: trim_left_space)
  then show ?thesis using trim_right_last [OF assms(2,3)] by (simp add: TrimSpace_def)
qed

lemma cut_arrow: "CHR ''='' \<notin> set a \<Longrightarrow> cut ''=>'' (a @ ''=>'' @ b) = Some (a, b)"
  by (induction a) (auto simp: prefix_def)

lemma cut_no_arrow: "CHR ''='' \<notin> set s \<Longrightarrow> cut ''=>'' s = None"
  by (induction s) (auto simp: prefix_def)

lemma word_ok_hd: "word_ok w \<Longrightarrow> plain_char (hd w)"
  by (cases w) (auto simp: word_ok_def)

lemma plain_chars [simp]: "plain_char CHR '')''" "plain_char CHR ''d''" "plain_char CHR ''('' "
  "ascii_space CHR 0x09" "ascii_space CHR '' ''"
  by (simp_all add: plain_char_def ascii_space_def)

lemma Fields_two:
  assumes "word_ok w"
  shows "Fields (w @ '' '' @ s) ! 0 = w" "Fields (w @ '' '' @ s) \<noteq> []"
  using Fields_word [of w "CHR '' ''" s] assms by (auto simp: word_ok_def)

lemma word_ok_noeq: "word_ok w \<Longrightarrow> CHR ''='' \<notin> set w"
  by (auto simp: word_ok_def)

lemma TrimSpace_word:
  assumes "word_ok w" "tame (s @ [c])" "plain_char c"
  shows "TrimSpace (CHR 0x09 # (w @ s) @ [c]) = (w @ s) @ [c]"
    and "TrimSpace (CHR '' '' # (w @ s) @ [c]) = (w @ s) @ [c]"
proof -
  have "tame ((w @ s) @ [c])" "w @ s \<noteq> []" "plain_char (hd (w @ s))"
    using assms word_ok_tame [OF assms(1)] word_ok_hd [OF assms(1)] by (auto simp: word_ok_def)
  then show "TrimSpace (CHR 0x09 # (w @ s) @ [c]) = (w @ s) @ [c]"
    "TrimSpace (CHR '' '' # (w @ s) @ [c]) = (w @ s) @ [c]"
    using TrimSpace_line [OF _ _ assms(3)] plain_chars(4,5) by blast+
qed

lemma parse_render_line:
  assumes "line_ok l"
  shows "parse_line (render_line l) = library_path l"
proof (cases l)
  case (Resolved name path addr)
  with assms have ok: "word_ok name" "word_ok path" "IsAbs path" "word_ok addr" by simp_all
  have t: "tame name" "tame path" "tame addr" using ok word_ok_tame by blast+
  have "TrimSpace (render_line l) = name @ '' '' @ ''=>'' @ '' '' @ path @ '' ('' @ addr @ '')''"
    using TrimSpace_word(1) [OF ok(1), of "'' => '' @ path @ '' ('' @ addr" "CHR '')''"] t Resolved by simp
  moreover have "cut ''=>'' (name @ '' '' @ ''=>'' @ '' '' @ path @ '' ('' @ addr @ '')'') =
      Some (name @ '' '', '' '' @ path @ '' ('' @ addr @ '')'')"
    using cut_arrow [of "name @ '' ''" "'' '' @ path @ '' ('' @ addr @ '')''"] word_ok_noeq [OF ok(1)]
    by simp
  moreover have "TrimSpace ('' '' @ path @ '' ('' @ addr @ '')'') = path @ '' '' @ ''('' @ addr @ '')''"
    using TrimSpace_word(2) [OF ok(2), of "'' ('' @ addr" "CHR '')''"] t by simp
  moreover note Fields_two [OF ok(2), of "''('' @ addr @ '')''"]
  ultimately show ?thesis using ok(1,3) Resolved by (simp add: parse_line_def word_ok_def IsAbs_def)
next
  case (Loader path addr)
  with assms have ok: "word_ok path" "IsAbs path" "word_ok addr" by simp_all
  have t: "tame path" "tame addr" using ok word_ok_tame by blast+
  have "TrimSpace (render_line l) = path @ '' '' @ ''('' @ addr @ '')''"
    using TrimSpace_word(1) [OF ok(1), of "'' ('' @ addr" "CHR '')''"] t Loader by simp
  moreover have "cut ''=>'' (path @ '' '' @ ''('' @ addr @ '')'') = None"
    using word_ok_noeq ok by (intro cut_no_arrow) auto
  moreover note Fields_two [OF ok(1), of "''('' @ addr @ '')''"]
  ultimately show ?thesis using ok(1,2) Loader by (simp add: parse_line_def word_ok_def IsAbs_def)
next
  case (Virtual name addr)
  with assms have ok: "word_ok name" "\<not> IsAbs name" "word_ok addr" by simp_all
  have t: "tame name" "tame addr" using ok word_ok_tame by blast+
  have "TrimSpace (render_line l) = name @ '' '' @ ''('' @ addr @ '')''"
    using TrimSpace_word(1) [OF ok(1), of "'' ('' @ addr" "CHR '')''"] t Virtual by simp
  moreover have "cut ''=>'' (name @ '' '' @ ''('' @ addr @ '')'') = None"
    using word_ok_noeq ok by (intro cut_no_arrow) auto
  moreover note Fields_two [OF ok(1), of "''('' @ addr @ '')''"]
  ultimately show ?thesis using ok(1,2) Virtual by (simp add: parse_line_def word_ok_def IsAbs_def)
next
  case (Missing name)
  with assms have ok: "word_ok name" by simp
  have "TrimSpace (render_line l) = name @ '' '' @ ''=>'' @ '' not found''"
    using TrimSpace_word(1) [OF ok, of "'' => not foun''" "CHR ''d''"] word_ok_tame [OF ok] Missing
    by (simp add: plain_char_def ascii_space_def)
  moreover have "cut ''=>'' (name @ '' '' @ ''=>'' @ '' not found'') = Some (name @ '' '', '' not found'')"
    using cut_arrow [of "name @ '' ''" "'' not found''"] word_ok_noeq [OF ok] by simp
  moreover have "Fields (TrimSpace '' not found'') = [''not'', ''found'']" by code_simp
  ultimately show ?thesis using ok Missing by (simp add: parse_line_def word_ok_def HasPrefix_def)
qed

lemma word_ok_newline: "word_ok w \<Longrightarrow> CHR 0x0A \<notin> set w"
  unfolding word_ok_def plain_char_def ascii_space_def by blast

lemma render_line_no_newline: "line_ok l \<Longrightarrow> CHR 0x0A \<notin> set (render_line l)"
  by (cases l) (simp_all add: word_ok_newline)

lemma split_render: "\<forall>l \<in> set ls. line_ok l \<Longrightarrow> split_on CHR 0x0A (render ls) = map render_line ls @ [[]]"
proof (induction ls)
  case (Cons l ls)
  then show ?case
    using split_on_append [OF render_line_no_newline [of l], of "render ls"] by (simp add: render_def)
qed (simp add: render_def)

lemma parse_line_Nil: "parse_line [] = []"
  by code_simp

section \<open>Properties\<close>

text \<open>Whatever the loader prints, what is taken from it are absolute paths without blanks.\<close>

lemma loader_output_absolute:
  "list_all (\<lambda>l. IsAbs l \<and> list_all (\<lambda>c. \<not> ascii_space c) l) (parseLoaderOutput output)"
  using parse_line_field by (auto simp: parseLoaderOutput_def list_all_iff)

text \<open>C33: Parsing a listing printed line by line gives back exactly the paths it names, in order: those
  of the resolved libraries and of the loader, none for a virtual library or one not found.\<close>

theorem parse_loader_roundtrip:
  assumes "\<forall>l \<in> set ls. line_ok l"
  shows "parseLoaderOutput (render ls) = concat (map library_path ls)"
proof -
  have lines: "map (parse_line \<circ> render_line) ls = map library_path ls"
    using assms parse_render_line by simp
  show ?thesis
    unfolding parseLoaderOutput_def split_render [OF assms] map_append map_map lines
    by (simp add: parse_line_Nil)
qed

theorem parse_loader_roundtrip_witness:
  "parseLoaderOutput (render [Virtual ''linux-vdso.so.1'' ''0x7f9b'',
      Resolved ''libc.so.6'' ''/lib64/libc.so.6'' ''0x7f9c'', Missing ''libfoo.so'',
      Loader ''/lib64/ld-linux-x86-64.so.2'' ''0x7f9d'']) =
   [''/lib64/libc.so.6'', ''/lib64/ld-linux-x86-64.so.2'']"
  by (subst parse_loader_roundtrip)
    (simp_all add: word_ok_def plain_char_def ascii_space_def)

text \<open>Libraries are only reported for an ELF binary with imports, and then they are what the loader
  found for its class lists; anything else yields none or an error.\<close>

lemma discover_sound:
  assumes "DiscoverLinkedLibraries w h binary = Inr libs"
  shows "libs = [] \<or>
    (\<exists>f imported output. detectFileType h binary = Inr FileTypeELF \<and> elf_Open w binary = Inr f \<and>
       ImportedLibraries f = Inr imported \<and> imported \<noteq> [] \<and>
       (let ld = findLdSoBin w (Class f) \<lparr>searchPathPrefix = []\<rparr>
        in CombinedOutput w ld (loader_command ld binary) = (output, None)) \<and>
       libs = parseLoaderOutput output)"
  using assms
  by (auto simp: DiscoverLinkedLibraries_def Let_def split: sum.splits if_splits prod.splits option.splits)

text \<open>A machine with the musl loader and an ELF binary, for the witness.\<close>

definition musl_world :: dl_world where
  "musl_world =
     \<lparr>Glob = (\<lambda>p. if p = ''/lib/ld-*.so.*'' then Inr [''/lib/ld-musl-x86_64.so.1''] else Inr []),
      elf_Open = (\<lambda>_. Inr \<lparr>Class = ELFCLASS64, ImportedLibraries = Inr [''libz.so.1'']\<rparr>),
      CombinedOutput = (\<lambda>path args.
        if path = ''/lib/ld-musl-x86_64.so.1'' \<and> args = [''ldd'', ''/app'']
        then (render [Resolved ''libz.so.1'' ''/usr/lib/libz.so.1'' ''0x7f1c''], None)
        else ([], Some (Errorf ''exit status 1'')))\<rparr>"

definition elf_host :: host where
  "elf_host = \<lparr>tree = [[] \<mapsto> DirNode 0, [''app''] \<mapsto> FileNode 0 (CHR 0x7F # ''ELF'')],
     wd = ''/'', umask = 0, fault = (\<lambda>_ _. None), progress = (\<lambda>_. 0), gone = (\<lambda>_. False)\<rparr>"

lemma discover_sound_witness:
  "DiscoverLinkedLibraries musl_world elf_host ''/app'' = Inr [''/usr/lib/libz.so.1''] \<and>
   detectFileType elf_host ''/app'' = Inr FileTypeELF"
proof -
  have "IsAbs ''/app''" "comps ''/app'' = [''app'']" by code_simp+
  then have "detectFileType elf_host ''/app'' = Inr FileTypeELF"
    by (simp add: detectFileType_def os_Open_def fs_open_def fs_read_def elf_host_def)
  moreover have "findLdSoBin musl_world ELFCLASS64 \<lparr>searchPathPrefix = []\<rparr> = ''/lib/ld-musl-x86_64.so.1''"
    by (simp add: findLdSoBin_def Find_def musl_world_def)
  moreover have "loader_command ''/lib/ld-musl-x86_64.so.1'' ''/app'' = [''ldd'', ''/app'']" by code_simp
  moreover have "parse_line (render_line (Resolved ''libz.so.1'' ''/usr/lib/libz.so.1'' ''0x7f1c'')) =
      [''/usr/lib/libz.so.1'']"
    using parse_render_line [of "Resolved ''libz.so.1'' ''/usr/lib/libz.so.1'' ''0x7f1c''"]
    by (simp add: word_ok_def plain_char_def ascii_space_def)
  then have "parseLoaderOutput (render [Resolved ''libz.so.1'' ''/usr/lib/libz.so.1'' ''0x7f1c'']) =
      [''/usr/lib/libz.so.1'']"
    using split_render [of "[Resolved ''libz.so.1'' ''/usr/lib/libz.so.1'' ''0x7f1c'']"]
    by (simp add: parseLoaderOutput_def parse_line_Nil word_ok_def plain_char_def ascii_space_def)
  ultimately have found: "DiscoverLinkedLibraries musl_world elf_host ''/app'' = Inr [''/usr/lib/libz.so.1'']"
    by (simp add: DiscoverLinkedLibraries_def Let_def) (simp add: musl_world_def)
  from discover_sound [OF this] found show ?thesis by auto
qed

end
