(* ===== verification/Seal_Main.thy ===== *)
theory Seal_Main
  imports Seal_Cli Seal_Rules Seal_Ldd
begin

text \<open>
  \<open>cmd/seal/main.go\<close>: from the command line to the restricted program. What the run does to the
  process is the list of its calls: \<open>landlock.V3.RestrictPaths\<close> and \<open>syscall.Exec\<close>, whose answers
  are parameters (\<open>None\<close> for success; a successful \<open>Exec\<close> replaces the program). The log is not
  kept.
\<close>

record seal_world =
  sw_rights :: access_rights
  sw_dl :: dl_world
  sw_unsorted :: "string set \<Rightarrow> string list"
  sw_restrict :: "Rule list \<Rightarrow> go_error option"
  sw_exec :: "string \<Rightarrow> string list \<Rightarrow> string list \<Rightarrow> go_error option"

datatype seal_call =
    RestrictPaths "Rule list"
  | Exec string "string list" "string list"

datatype seal_end = Exit nat | Replaced

definition seal_main ::
  "seal_world \<Rightarrow> host \<Rightarrow> string list \<Rightarrow> string \<Rightarrow> string list \<Rightarrow> seal_call list \<times> seal_end" where
  "seal_main w h env arg0 args0 =
     (case parseFlags (sw_unsorted w) h env arg0 args0 of
        Inl e \<Rightarrow> ([], Exit 1)
      | Inr cfg \<Rightarrow>
     (case setupLogger (cfg_logLevel cfg) (cfg_logFormat cfg) of
        Inl e \<Rightarrow> ([], Exit 1)
      | Inr logger \<Rightarrow>
     (case buildProfile h cfg of
        Inl e \<Rightarrow> ([], Exit 1)
      | Inr profile \<Rightarrow>
     (case RulesForBinaryToRun (sw_rights w) h (cfg_binaryToRun cfg) (cfg_addLinkedLibraries cfg)
          (DiscoverLinkedLibraries (sw_dl w) h) of
        Inl e \<Rightarrow> ([], Exit 1)
      | Inr binaryRules \<Rightarrow>
          (let rules = ProfileToLandlockRules (sw_rights w) h profile @ binaryRules in
           case sw_restrict w rules of
             Some e \<Rightarrow> ([RestrictPaths rules], Exit 1)
           | None \<Rightarrow>
               (let newEnv = sealedProcessEnv env;
                    args = [cfg_binary cfg] @ cfg_binaryArgs cfg in
                case sw_exec w (cfg_binaryToRun cfg) args newEnv of
                  Some e \<Rightarrow> ([RestrictPaths rules, Exec (cfg_binaryToRun cfg) args newEnv], Exit 1)
                | None \<Rightarrow> ([RestrictPaths rules, Exec (cfg_binaryToRun cfg) args newEnv], Replaced)))))))"

text \<open>The one way to \<open>Exec\<close>.\<close>

lemma seal_main_Exec:
  assumes "Exec path as env' \<in> set (fst (seal_main w h env arg0 args0))"
  obtains cfg profile binaryRules where
    "parseFlags (sw_unsorted w) h env arg0 args0 = Inr cfg" "buildProfile h cfg = Inr profile"
    "RulesForBinaryToRun (sw_rights w) h (cfg_binaryToRun cfg) (cfg_addLinkedLibraries cfg)
       (DiscoverLinkedLibraries (sw_dl w) h) = Inr binaryRules"
    "sw_restrict w (ProfileToLandlockRules (sw_rights w) h profile @ binaryRules) = None"
    "fst (seal_main w h env arg0 args0) =
       [RestrictPaths (ProfileToLandlockRules (sw_rights w) h profile @ binaryRules), Exec path as env']"
    "path = cfg_binaryToRun cfg" "as = cfg_binary cfg # cfg_binaryArgs cfg" "env' = sealedProcessEnv env"
proof (cases "parseFlags (sw_unsorted w) h env arg0 args0")
  case (Inl e)
  then show thesis using assms by (simp add: seal_main_def)
next
  case cfg: (Inr cfg)
  show thesis
  proof (cases "setupLogger (cfg_logLevel cfg) (cfg_logFormat cfg)")
    case (Inl e)
    then show thesis using assms cfg by (simp add: seal_main_def)
  next
    case logger: (Inr logger)
    show thesis
    proof (cases "buildProfile h cfg")
      case (Inl e)
      then show thesis using assms cfg logger by (simp add: seal_main_def)
    next
      case profile: (Inr profile)
      show thesis
      proof (cases "RulesForBinaryToRun (sw_rights w) h (cfg_binaryToRun cfg) (cfg_addLinkedLibraries cfg)
          (DiscoverLinkedLibraries (sw_dl w) h)")
        case (Inl e)
        then show thesis using assms cfg logger profile by (simp add: seal_main_def)
      next
        case rules: (Inr binaryRules)
        show thesis
        proof (cases "sw_restrict w (ProfileToLandlockRules (sw_rights w) h profile @ binaryRules)")
          case (Some e)
          then show thesis using assms cfg logger profile rules by (simp add: seal_main_def Let_def)
        next
          case None
          then show thesis
            using assms cfg logger profile rules that [OF cfg profile rules None]
            by (cases "sw_exec w (cfg_binaryToRun cfg) (cfg_binary cfg # cfg_binaryArgs cfg) (sealedProcessEnv env)")
              (simp_all add: seal_main_def Let_def)
        qed
      qed
    qed
  qed
qed

section \<open>Wrapper mode\<close>

lemma ContainerProfilePathInsideContainer_abs:
  "IsAbs ContainerProfilePathInsideContainer" "ContainerProfilePathInsideContainer \<noteq> []"
  by (simp_all add: ContainerProfilePathInsideContainer_eq)

lemma Abs_clean: "clean_abs p \<Longrightarrow> Abs d p = Inr p"
  by (simp add: Abs_def clean_abs_def)

text \<open>Called under the path of a binary, \<open>seal\<close> looks its profile up under that path and runs the
  swapped binary.\<close>

lemma parseFlags_wrapper:
  assumes "clean_abs b" "Base b \<noteq> ''seal''" "parseFlags unsorted h env b args = Inr c"
  shows "cfg_binary c = b" "cfg_binaryToRun c = SwappedBinaryPathInsideContainer b" "cfg_binaryArgs c = args"
    "cfg_profilePath c =
       (if os_Getenv env ProfileEnvVar = [] then ContainerProfilePathInsideContainer
        else os_Getenv env ProfileEnvVar)"
    "cfg_addLinkedLibraries c \<longleftrightarrow> os_Getenv env AddLinkedLibrariesEnvVar \<noteq> []"
  using assms by (auto simp: parseFlags_def Abs_clean wrapperMoode_def Let_def)

lemma parseFlags_wrapper_Inr:
  assumes "clean_abs b" "Base b \<noteq> ''seal''"
  shows "\<exists>c. parseFlags unsorted h env b args = Inr c \<and>
    cfg_logLevel c = (if os_Getenv env LogLevelEnvVar = [] then ''INFO'' else os_Getenv env LogLevelEnvVar)"
  using assms by (auto simp: parseFlags_def Abs_clean wrapperMoode_def Let_def)

text \<open>The profile in a file the encoder wrote.\<close>

lemma profileFromPath_written:
  assumes "os_Open path h = Inr f" "fs_read f h = Inr (encode_profiles m)" "map_wf m" "utf8_profiles m"
  shows "profileFromPath h path b =
    (case lookup m b of
       None \<Rightarrow> Inl (Errorf (''cannot find profile for '' @ squote b))
     | Some profile \<Rightarrow> Inr profile)"
proof -
  obtain m' where m': "decode_profiles (encode_profiles m) = Inr m'" "lookup m' = lookup m"
    using codec.dec_enc [of m] assms(3,4) by blast
  then show ?thesis using assms(1,2) by (simp add: profileFromPath_def)
qed

text \<open>The profile in a file that holds a beginning of such a text.\<close>

lemma profileFromPath_cut:
  assumes "os_Open path h = Inr f" "fs_read f h = Inr s" "prefix s (encode_profiles m)"
    and "map_wf m" "utf8_profiles m" "profileFromPath h path b = Inr profile"
  shows "lookup m b = Some profile"
proof -
  obtain m' where m': "decode_profiles s = Inr m'" "lookup m' b = Some profile"
    using assms(1,2,6) by (auto simp: profileFromPath_def split: sum.splits option.splits)
  then show ?thesis using codec.read_cut [OF _ assms(3) m'(1)] assms(4,5) by simp
qed

text \<open>A file that is no JSON text, a program for instance, starts nothing.\<close>

lemma decode_program: "\<exists>e. decode_profiles (CHR 0x7F # s) = Inl e"
proof -
  have "parse_value (Suc n) (CHR 0x7F # s) = None" for n
    by (simp add: skip_ws_def json_ws_def quote_char_def parse_number_def parse_int_def digits1_def digit_def byte_def)
  then show ?thesis by (simp add: decode_profiles_def)
qed

lemma seal_main_undecodable:
  assumes "fs_open (comps ContainerProfilePathInsideContainer) h = Inr f"
    and "fs_read f h = Inr s" "decode_profiles s = Inl e" "os_Getenv env ProfileEnvVar = []" "Base arg0 \<noteq> ''seal''"
  shows "seal_main w h env arg0 args = ([], Exit 1)"
proof -
  note path = ContainerProfilePathInsideContainer_abs
  show ?thesis
  proof (cases "parseFlags (sw_unsorted w) h env arg0 args")
    case (Inr cfg)
    then have "cfg_profilePath cfg = ContainerProfilePathInsideContainer"
      using assms(4,5) by (auto simp: parseFlags_def wrapperMoode_def Let_def split: sum.splits)
    then have "\<exists>e'. buildProfile h cfg = Inl e'"
      using assms(1-3) path by (simp add: buildProfile_def profileFromPath_def os_Open_def)
    then show ?thesis using Inr by (auto simp: seal_main_def split: sum.splits)
  qed (simp add: seal_main_def)
qed

text \<open>\<open>seal\<close> called by any name but its own, with a beginning of such a text in the file it reads.\<close>

lemma seal_main_cut:
  assumes "os_Open (if os_Getenv env ProfileEnvVar = [] then ContainerProfilePathInsideContainer
      else os_Getenv env ProfileEnvVar) h = Inr f" (is "os_Open ?path h = _")
    and "fs_read f h = Inr s" "prefix s (encode_profiles m)" "map_wf m" "utf8_profiles m"
    and "Base arg0 \<noteq> ''seal''"
  shows "seal_main w h env arg0 args = ([], Exit 1) \<or>
    (\<exists>b profile binaryRules. Abs (os_Getwd h) arg0 = Inr b \<and> lookup m b = Some profile \<and>
       RulesForBinaryToRun (sw_rights w) h (SwappedBinaryPathInsideContainer b)
         (os_Getenv env AddLinkedLibrariesEnvVar \<noteq> []) (DiscoverLinkedLibraries (sw_dl w) h) = Inr binaryRules \<and>
       hd (fst (seal_main w h env arg0 args)) =
         RestrictPaths (ProfileToLandlockRules (sw_rights w) h profile @ binaryRules))"
proof (cases "Abs (os_Getwd h) arg0")
  case (Inl e)
  then show ?thesis using assms(6) by (simp add: seal_main_def parseFlags_def)
next
  case (Inr b)
  then obtain cfg where cfg: "parseFlags (sw_unsorted w) h env arg0 args = Inr cfg"
    "cfg_profilePath cfg = ?path" "cfg_binary cfg = b"
    "cfg_binaryToRun cfg = SwappedBinaryPathInsideContainer b"
    "cfg_addLinkedLibraries cfg = (os_Getenv env AddLinkedLibrariesEnvVar \<noteq> [])"
    using assms(6) by (simp add: parseFlags_def wrapperMoode_def Let_def)
  have "?path \<noteq> []" using ContainerProfilePathInsideContainer_abs(2) by simp
  then have "lookup m b = Some profile" if "buildProfile h cfg = Inr profile" for profile
    using profileFromPath_cut [OF assms(1-5)] that cfg(2,3) by (simp add: buildProfile_def)
  then show ?thesis
    unfolding seal_main_def cfg(1) cfg(5) [symmetric] Inr by (auto simp: cfg(4) Let_def split: sum.splits option.splits)
qed

text \<open>
  \<open>seal\<close> under the path of a binary: the profile is the one of the file that \<open>SEAL_PROFILE_PATH\<close> names, so whoever
  sets that variable, as every process of a container can, chooses the file; without it, it is the one of
  the file the plugin wrote.
\<close>

lemma container_profile_opened:
  "os_Getenv env ProfileEnvVar = [] \<Longrightarrow> fs_open (comps ContainerProfilePathInsideContainer) h = Inr f \<Longrightarrow>
     os_Open (if os_Getenv env ProfileEnvVar = [] then ContainerProfilePathInsideContainer
       else os_Getenv env ProfileEnvVar) h = Inr f"
  using ContainerProfilePathInsideContainer_abs by (simp add: os_Open_def)

lemma seal_reads_named_profile:
  assumes "os_Open (if os_Getenv env ProfileEnvVar = [] then ContainerProfilePathInsideContainer
      else os_Getenv env ProfileEnvVar) ctr = Inr f" (is "os_Open ?path ctr = _")
    and "fs_read f ctr = Inr (encode_profiles m)" "map_wf m" "utf8_profiles m"
    and "clean_abs b" "Base b \<noteq> ''seal''" "parseFlags unsorted ctr env b args = Inr cfg"
  shows "buildProfile ctr cfg =
    (case lookup m b of
       None \<Rightarrow> Inl (Errorf (''cannot find profile for '' @ squote b))
     | Some profile \<Rightarrow> Inr profile)"
proof -
  have "cfg_profilePath cfg = ?path" "cfg_binary cfg = b" "?path \<noteq> []"
    using parseFlags_wrapper [OF assms(5-7)] ContainerProfilePathInsideContainer_abs(2) by simp_all
  then show ?thesis using profileFromPath_written [OF assms(1-4), of b] by (simp add: buildProfile_def)
qed

lemma seal_reads_profile:
  assumes "fs_open (comps ContainerProfilePathInsideContainer) ctr = Inr f"
    and "fs_read f ctr = Inr (encode_profiles m)" "map_wf m" "utf8_profiles m"
    and "clean_abs b" "Base b \<noteq> ''seal''" "os_Getenv env ProfileEnvVar = []"
    and "parseFlags unsorted ctr env b args = Inr cfg"
  shows "buildProfile ctr cfg =
    (case lookup m b of
       None \<Rightarrow> Inl (Errorf (''cannot find profile for '' @ squote b))
     | Some profile \<Rightarrow> Inr profile)"
  by (rule seal_reads_named_profile [OF container_profile_opened [OF assms(7,1)] assms(2-6,8)])

section \<open>Properties\<close>

text \<open>C4: No program is started unrestricted. If \<open>seal\<close> executes a program at all, its only earlier call
  was a successful restriction to the rules of the profile and of the binary, and the program is the
  configured one, with the arguments given and none of the variables that configure \<open>seal\<close>.\<close>

theorem exec_only_restricted:
  assumes "Exec path as env' \<in> set (fst (seal_main w h env arg0 args0))"
  shows "\<exists>cfg profile binaryRules.
    parseFlags (sw_unsorted w) h env arg0 args0 = Inr cfg \<and> buildProfile h cfg = Inr profile \<and>
    RulesForBinaryToRun (sw_rights w) h path (cfg_addLinkedLibraries cfg)
      (DiscoverLinkedLibraries (sw_dl w) h) = Inr binaryRules \<and>
    sw_restrict w (ProfileToLandlockRules (sw_rights w) h profile @ binaryRules) = None \<and>
    fst (seal_main w h env arg0 args0) =
      [RestrictPaths (ProfileToLandlockRules (sw_rights w) h profile @ binaryRules), Exec path as env'] \<and>
    path = cfg_binaryToRun cfg \<and> as = cfg_binary cfg # cfg_binaryArgs cfg \<and>
    (\<forall>key. HasPrefix key SealEnvVarPrefix \<longrightarrow> os_LookupEnv env' key = None)"
  using seal_main_Exec [OF assms] sealed_env_lookup [of env] by (metis (full_types))

text \<open>A container in which \<open>/bin/ls\<close> was swapped, for the witnesses.\<close>

definition sealed_profiles :: ProfileByBinary where
  "sealed_profiles = Some [(''/bin/ls'', \<lparr>ReadOnly = [''/etc''], ReadWrite = [], ReadExec = [], ReadWriteExec = []\<rparr>)]"

definition sealed_host :: host where
  "sealed_host = \<lparr>tree = [[] \<mapsto> DirNode 0x1ED, [''.podlock''] \<mapsto> DirNode 0x1ED,
     [''.podlock'', ''profile.json''] \<mapsto> FileNode 0x1A4 (encode_profiles sealed_profiles)],
     wd = ''/'', umask = 0, fault = (\<lambda>_ _. None), progress = (\<lambda>_. 0), gone = (\<lambda>_. False)\<rparr>"

definition willing_world :: seal_world where
  "willing_world = \<lparr>sw_rights = linux_rights, sw_dl = musl_world, sw_unsorted = list_of_set,
     sw_restrict = (\<lambda>_. None), sw_exec = (\<lambda>_ _ _. None)\<rparr>"

lemma sealed_profiles_ok: "map_wf sealed_profiles" "utf8_profiles sealed_profiles"
  by code_simp+

lemma sealed_host_read:
  "fs_open (comps ContainerProfilePathInsideContainer) sealed_host = Inr [''.podlock'', ''profile.json'']"
  "fs_read [''.podlock'', ''profile.json''] sealed_host = Inr (encode_profiles sealed_profiles)"
proof -
  have "comps ContainerProfilePathInsideContainer = [''.podlock'', ''profile.json'']" by code_simp
  then show "fs_open (comps ContainerProfilePathInsideContainer) sealed_host = Inr [''.podlock'', ''profile.json'']"
    by (simp add: fs_open_def sealed_host_def)
  show "fs_read [''.podlock'', ''profile.json''] sealed_host = Inr (encode_profiles sealed_profiles)"
    by (simp add: fs_read_def sealed_host_def)
qed

lemma sealed_buildProfile:
  assumes "parseFlags list_of_set sealed_host [] ''/bin/ls'' args = Inr c"
  shows "buildProfile sealed_host c =
    Inr \<lparr>ReadOnly = [''/etc''], ReadWrite = [], ReadExec = [], ReadWriteExec = []\<rparr>"
proof -
  have b: "clean_abs ''/bin/ls''" "Base ''/bin/ls'' \<noteq> ''seal''" by code_simp+
  have "os_Getenv [] ProfileEnvVar = []" by (simp add: os_Getenv_def)
  from seal_reads_profile [OF sealed_host_read sealed_profiles_ok b this assms]
  show ?thesis by (simp add: sealed_profiles_def)
qed

lemma sealed_run:
  "\<exists>rules. seal_main willing_world sealed_host [] ''/bin/ls'' [''-l''] =
     ([RestrictPaths rules,
       Exec (SwappedBinaryPathInsideContainer ''/bin/ls'') [''/bin/ls'', ''-l''] []], Replaced)"
proof -
  have b: "clean_abs ''/bin/ls''" "Base ''/bin/ls'' \<noteq> ''seal''" by code_simp+
  obtain c where c: "parseFlags list_of_set sealed_host [] ''/bin/ls'' [''-l''] = Inr c" "cfg_logLevel c = ''INFO''"
    using parseFlags_wrapper_Inr [OF b, of list_of_set sealed_host "[]"] by (auto simp: os_Getenv_def)
  note w = parseFlags_wrapper [OF b c(1)]
  have level: "ParseLogLevel ''INFO'' = Inr 0" by code_simp
  note sealed_buildProfile [OF c(1)]
  moreover have "\<exists>rules. RulesForBinaryToRun linux_rights sealed_host (cfg_binaryToRun c)
      (cfg_addLinkedLibraries c) (DiscoverLinkedLibraries musl_world sealed_host) = Inr rules"
    using w(5) by (simp add: RulesForBinaryToRun_def os_Getenv_def)
  ultimately show ?thesis
    using c w level
    by (auto simp: seal_main_def willing_world_def setupLogger_def Let_def sealedProcessEnv_def os_Environ_def)
qed

theorem exec_only_restricted_witness:
  "\<exists>binaryRules. fst (seal_main willing_world sealed_host [] ''/bin/ls'' [''-l'']) =
     [RestrictPaths (ProfileToLandlockRules linux_rights sealed_host
        \<lparr>ReadOnly = [''/etc''], ReadWrite = [], ReadExec = [], ReadWriteExec = []\<rparr> @ binaryRules),
      Exec (SwappedBinaryPathInsideContainer ''/bin/ls'') [''/bin/ls'', ''-l''] []]"
proof -
  have "Exec (SwappedBinaryPathInsideContainer ''/bin/ls'') [''/bin/ls'', ''-l''] [] \<in>
      set (fst (seal_main willing_world sealed_host [] ''/bin/ls'' [''-l'']))"
    using sealed_run by auto
  from exec_only_restricted [OF this] obtain cfg profile binaryRules where
    cfg: "parseFlags list_of_set sealed_host [] ''/bin/ls'' [''-l''] = Inr cfg"
    and profile: "buildProfile sealed_host cfg = Inr profile"
    and run: "fst (seal_main willing_world sealed_host [] ''/bin/ls'' [''-l'']) =
      [RestrictPaths (ProfileToLandlockRules linux_rights sealed_host profile @ binaryRules),
       Exec (SwappedBinaryPathInsideContainer ''/bin/ls'') [''/bin/ls'', ''-l''] []]"
    by (auto simp: willing_world_def)
  have "profile = \<lparr>ReadOnly = [''/etc''], ReadWrite = [], ReadExec = [], ReadWriteExec = []\<rparr>"
    using profile sealed_buildProfile [OF cfg] by simp
  then show ?thesis using run by blast
qed

text \<open>C24: A name without a profile runs nothing. Let \<open>seal\<close> be called by any name but its own, and the
  profile file, which is the one \<open>SEAL_PROFILE_PATH\<close> names or, when that is unset, the one that was mounted
  into the container, hold what the plugin writes for some map of profiles, or only a beginning of it, as a
  write that fails leaves it. Then \<open>seal\<close> ends with status 1 having restricted and executed nothing, or
  the map has a profile under the absolute path it derives from that name, and the first thing it does
  is to restrict itself to that profile and the swapped binary. The name counts, not the file: in the
  witness a binary called by a relative name, as a search of \<open>PATH\<close> does it, is looked up under the working
  directory. Which map that is, the caller can choose with \<open>SEAL_PROFILE_PATH\<close>.\<close>

theorem unknown_binary_refused:
  assumes "os_Open (if os_Getenv env ProfileEnvVar = [] then ContainerProfilePathInsideContainer
      else os_Getenv env ProfileEnvVar) h = Inr f"
    and "fs_read f h = Inr s" "prefix s (encode_profiles m)" "map_wf m" "utf8_profiles m"
    and "Base arg0 \<noteq> ''seal''"
  shows "seal_main w h env arg0 args = ([], Exit 1) \<or>
    (\<exists>b profile binaryRules. Abs (os_Getwd h) arg0 = Inr b \<and> lookup m b = Some profile \<and>
       RulesForBinaryToRun (sw_rights w) h (SwappedBinaryPathInsideContainer b)
         (os_Getenv env AddLinkedLibrariesEnvVar \<noteq> []) (DiscoverLinkedLibraries (sw_dl w) h) = Inr binaryRules \<and>
       hd (fst (seal_main w h env arg0 args)) =
         RestrictPaths (ProfileToLandlockRules (sw_rights w) h profile @ binaryRules))"
  using assms by (rule seal_main_cut)

theorem unknown_binary_refused_witness:
  "seal_main willing_world sealed_host [] ''ls'' [''-l''] = ([], Exit 1)"
proof -
  have base: "Base ''ls'' \<noteq> ''seal''" by code_simp
  have "Abs (Inr ''/'') ''ls'' = Inr ''/ls''" by code_simp
  then have abs: "Abs (os_Getwd sealed_host) ''ls'' = Inr ''/ls''" by (simp add: sealed_host_def os_Getwd_def)
  have "os_Getenv [] ProfileEnvVar = []" by (simp add: os_Getenv_def)
  note opened = container_profile_opened [OF this sealed_host_read(1)]
  have "lookup sealed_profiles ''/ls'' = None" by (simp add: sealed_profiles_def)
  with unknown_binary_refused [OF opened sealed_host_read(2) prefix_order.refl sealed_profiles_ok base] abs
  show ?thesis by auto
qed

end
