(* ===== verification/Webhook.thy ===== *)
theory Webhook
  imports Api_Types Go_Filepath "HOL-Library.Multiset"
begin

text \<open>
  The admission webhook, \<open>internal/webhook/v1alpha1\<close>: the defaulter that adds the finalizer and
  the validator of the paths. \<open>profile_ok\<close> is the specification of the validator, and
  \<open>validateProfile_Nil\<close> says it accepts exactly the profiles that meet it, whatever the order in
  which Go ranges over the maps.

  \<open>field.Path\<close> and \<open>field.Error\<close> (k8s.io/apimachinery) are kept as the constructor calls the
  code makes. \<open>sets.List\<close> is a parameter: only the text of a message depends on it.
\<close>

section \<open>Field paths and errors\<close>

datatype field_path =
    NewPath "string list"
  | Child field_path string
  | Index field_path nat
  | Key field_path string

datatype field_value = FString string | FStrings "string list"

record field_error =
  fe_path :: field_path
  fe_value :: field_value
  fe_detail :: string

definition Invalid :: "field_path \<Rightarrow> field_value \<Rightarrow> string \<Rightarrow> field_error" where
  "Invalid p v d = \<lparr>fe_path = p, fe_value = v, fe_detail = d\<rparr>"

lemma Invalid_inject [simp]: "Invalid p v d = Invalid p' v' d' \<longleftrightarrow> p = p' \<and> v = v' \<and> d = d'"
  by (simp add: Invalid_def)

datatype status_error = NewInvalid string string string "field_error list"

section \<open>paths.go\<close>

definition fieldReadOnly :: string where "fieldReadOnly = ''readOnly''"

definition fieldReadExec :: string where "fieldReadExec = ''readExec''"

definition fieldReadWriteExec :: string where "fieldReadWriteExec = ''readWriteExec''"

definition fieldReadWrite :: string where "fieldReadWrite = ''readWrite''"

definition msg_absolute :: string where
  "msg_absolute = ''path must be absolute''"

definition msg_not_clean :: string where
  "msg_not_clean = ''path contains traversals or is not clean''"

definition validateBinaryPath :: "string \<Rightarrow> field_path \<Rightarrow> field_error list" where
  "validateBinaryPath path fldPath =
     (if \<not> IsAbs path then [Invalid fldPath (FString path) msg_absolute] else []) @
     (if Clean path \<noteq> path then [Invalid fldPath (FString path) msg_not_clean] else [])"

text \<open>The loop the four functions below share: \<open>for i, path := range paths\<close>.\<close>

definition validate_each :: "string list \<Rightarrow> string \<Rightarrow> field_path \<Rightarrow> field_error list" where
  "validate_each paths fld fldPath =
     concat (map (\<lambda>(i, path). validateBinaryPath path (Index (Child fldPath fld) i))
       (enumerate 0 paths))"

definition validateReadOnlyPaths :: "Profile \<Rightarrow> field_path \<Rightarrow> field_error list" where
  "validateReadOnlyPaths profile fldPath = validate_each (ReadOnly profile) fieldReadOnly fldPath"

definition validateReadWritePaths :: "Profile \<Rightarrow> field_path \<Rightarrow> field_error list" where
  "validateReadWritePaths profile fldPath = validate_each (ReadWrite profile) fieldReadWrite fldPath"

definition validateReadExecPaths :: "Profile \<Rightarrow> field_path \<Rightarrow> field_error list" where
  "validateReadExecPaths profile fldPath = validate_each (ReadExec profile) fieldReadExec fldPath"

definition validateReadWriteExecPaths :: "Profile \<Rightarrow> field_path \<Rightarrow> field_error list" where
  "validateReadWriteExecPaths profile fldPath =
     validate_each (ReadWriteExec profile) fieldReadWriteExec fldPath"

text \<open>\<open>fmt.Sprintf("%v", list)\<close> of a string slice.\<close>

definition fmt_strings :: "string list \<Rightarrow> string" where
  "fmt_strings xs = ''['' @ join_with '' '' xs @ '']''"

definition overlaps :: "Profile \<Rightarrow> (string \<times> string set \<times> string \<times> string set) list" where
  "overlaps profile =
     (let readOnly = set (ReadOnly profile);
          readWrite = set (ReadWrite profile);
          readExec = set (ReadExec profile);
          readWriteExec = set (ReadWriteExec profile)
      in [(fieldReadOnly, readOnly, fieldReadWrite, readWrite),
          (fieldReadOnly, readOnly, fieldReadExec, readExec),
          (fieldReadOnly, readOnly, fieldReadWriteExec, readWriteExec),
          (fieldReadWrite, readWrite, fieldReadExec, readExec),
          (fieldReadWrite, readWrite, fieldReadWriteExec, readWriteExec),
          (fieldReadExec, readExec, fieldReadWriteExec, readWriteExec)])"

definition validateNoOverlappingPaths ::
  "(string set \<Rightarrow> string list) \<Rightarrow> Profile \<Rightarrow> field_path \<Rightarrow> field_error list" where
  "validateNoOverlappingPaths sets_List profile fldPath =
     concat (map (\<lambda>(field1, set1, field2, set2).
         let intersection = set1 \<inter> set2
         in if intersection \<noteq> {}
            then [Invalid (Child fldPath field1) (FStrings (sets_List set1))
                    (''overlapping paths with '' @ field2 @ '': '' @
                       fmt_strings (sets_List intersection))]
            else [])
       (overlaps profile))"

section \<open>landlockprofile_webhook.go\<close>

definition validate_binary ::
  "(string set \<Rightarrow> string list) \<Rightarrow> field_path \<Rightarrow> string \<times> Profile \<Rightarrow> field_error list" where
  "validate_binary sets_List containerPath = (\<lambda>(binaryPath, binProfile).
     let binaryPathField = Key containerPath binaryPath
     in validateBinaryPath binaryPath binaryPathField @
        validateNoOverlappingPaths sets_List binProfile binaryPathField @
        validateReadOnlyPaths binProfile binaryPathField @
        validateReadWritePaths binProfile binaryPathField @
        validateReadExecPaths binProfile binaryPathField @
        validateReadWriteExecPaths binProfile binaryPathField)"

definition validateProfile ::
  "(string set \<Rightarrow> string list) \<Rightarrow> LandlockProfile \<Rightarrow> field_error list" where
  "validateProfile sets_List profile =
     (let specPath = NewPath [''spec'', ''profilesByContainer'']
      in concat (map (\<lambda>(containerName, profileByBinary).
           concat (map (validate_binary sets_List (Key specPath containerName))
             (entries profileByBinary)))
         (entries (ProfilesByContainer (Spec profile)))))"

text \<open>The validators return no warnings; the value is the error, \<open>None\<close> for nil.\<close>

definition ValidateCreate ::
  "(string set \<Rightarrow> string list) \<Rightarrow> LandlockProfile \<Rightarrow> status_error option" where
  "ValidateCreate sets_List profile =
     (let allErrs = validateProfile sets_List profile
      in if length allErrs > 0
         then Some (NewInvalid GroupVersion_Group ''LandlockProfile'' (Name profile) allErrs)
         else None)"

definition ValidateUpdate ::
  "(string set \<Rightarrow> string list) \<Rightarrow> LandlockProfile \<Rightarrow> LandlockProfile \<Rightarrow> status_error option" where
  "ValidateUpdate sets_List oldObj newObj =
     (let profile = newObj;
          allErrs = validateProfile sets_List profile
      in if length allErrs > 0
         then Some (NewInvalid GroupVersion_Group ''LandlockProfile'' (Name profile) allErrs)
         else None)"

definition ValidateDelete :: "LandlockProfile \<Rightarrow> status_error option" where
  "ValidateDelete profile = None"

definition Default :: "controllerutil \<Rightarrow> LandlockProfile \<Rightarrow> LandlockProfile" where
  "Default cu profile =
     (if DeletionTimestamp profile \<noteq> None then profile
      else if \<not> cu_contains cu (Finalizers profile) LandlockProfileFinalizer
      then profile\<lparr>Finalizers := cu_add cu (Finalizers profile) LandlockProfileFinalizer\<rparr>
      else profile)"

section \<open>Specification\<close>

definition disjoint_access :: "Profile \<Rightarrow> bool" where
  "disjoint_access p \<longleftrightarrow>
     set (ReadOnly p) \<inter> set (ReadWrite p) = {} \<and>
     set (ReadOnly p) \<inter> set (ReadExec p) = {} \<and>
     set (ReadOnly p) \<inter> set (ReadWriteExec p) = {} \<and>
     set (ReadWrite p) \<inter> set (ReadExec p) = {} \<and>
     set (ReadWrite p) \<inter> set (ReadWriteExec p) = {} \<and>
     set (ReadExec p) \<inter> set (ReadWriteExec p) = {}"

definition binary_ok :: "string \<Rightarrow> Profile \<Rightarrow> bool" where
  "binary_ok b p \<longleftrightarrow> clean_abs b \<and> (\<forall>q \<in> set (profile_paths p). clean_abs q) \<and> disjoint_access p"

definition profile_ok :: "LandlockProfile \<Rightarrow> bool" where
  "profile_ok profile \<longleftrightarrow>
     (\<forall>(c, b, p) \<in> set (binary_profiles (Spec profile)). binary_ok b p)"

section \<open>Correctness of the checks\<close>

lemma validateBinaryPath_Nil [simp]: "validateBinaryPath path f = [] \<longleftrightarrow> clean_abs path"
  by (auto simp: validateBinaryPath_def clean_abs_def)

lemma validate_each_Nil [simp]: "validate_each ps fld f = [] \<longleftrightarrow> (\<forall>p \<in> set ps. clean_abs p)"
proof -
  have "validate_each ps fld f = [] \<longleftrightarrow> (\<forall>(i, p) \<in> set (enumerate 0 ps). clean_abs p)"
    by (auto simp: validate_each_def concat_eq_Nil_iff)
  also have "\<dots> \<longleftrightarrow> (\<forall>p \<in> snd ` set (enumerate 0 ps). clean_abs p)"
    by auto
  also have "snd ` set (enumerate 0 ps) = set ps"
    by (metis map_snd_enumerate set_map)
  finally show ?thesis .
qed

lemma validateNoOverlappingPaths_Nil [simp]:
  "validateNoOverlappingPaths sl p f = [] \<longleftrightarrow> disjoint_access p"
  by (simp add: validateNoOverlappingPaths_def overlaps_def disjoint_access_def Let_def)

lemma binary_ok_antimono: "p \<le> q \<Longrightarrow> binary_ok b q \<Longrightarrow> binary_ok b p"
  using profile_paths_mono [of p q]
  by (auto simp: binary_ok_def disjoint_access_def less_eq_Profile_ext_def)

lemma validate_binary_Nil [simp]: "validate_binary sl f (b, p) = [] \<longleftrightarrow> binary_ok b p"
  by (auto simp: validate_binary_def Let_def binary_ok_def profile_paths_def
      validateReadOnlyPaths_def validateReadWritePaths_def validateReadExecPaths_def
      validateReadWriteExecPaths_def)

lemma validateProfile_Nil: "validateProfile sl profile = [] \<longleftrightarrow> profile_ok profile"
  by (fastforce simp: validateProfile_def Let_def concat_eq_Nil_iff profile_ok_def in_binary_profiles)

lemma ValidateCreate_None [simp]: "ValidateCreate sl p = None \<longleftrightarrow> profile_ok p"
  using validateProfile_Nil [of sl p] by (auto simp: ValidateCreate_def Let_def)

lemma ValidateUpdate_None [simp]: "ValidateUpdate sl old p = None \<longleftrightarrow> profile_ok p"
  using validateProfile_Nil [of sl p] by (auto simp: ValidateUpdate_def Let_def)

lemma profile_okD:
  "profile_ok p \<Longrightarrow> (c, m) \<in> set (entries (ProfilesByContainer (Spec p))) \<Longrightarrow>
     (b, q) \<in> set (entries m) \<Longrightarrow> binary_ok b q"
  by (fastforce simp: profile_ok_def in_binary_profiles)

lemma profile_ok_Spec: "Spec p = Spec q \<Longrightarrow> profile_ok p \<longleftrightarrow> profile_ok q"
  by (simp add: profile_ok_def)

text \<open>The errors of one list of paths, index by index.\<close>

lemma set_validate_each:
  "set (validate_each ps fld f) =
     {Invalid (Index (Child f fld) i) (FString (ps ! i)) d |i d.
        i < length ps \<and>
        (\<not> IsAbs (ps ! i) \<and> d = msg_absolute \<or> Clean (ps ! i) \<noteq> ps ! i \<and> d = msg_not_clean)}"
  (is "?L = ?R")
proof
  show "?L \<subseteq> ?R"
    by (auto simp: validate_each_def validateBinaryPath_def in_set_enumerate_eq)
next
  show "?R \<subseteq> ?L"
  proof
    fix e assume "e \<in> ?R"
    then obtain i where i: "i < length ps" "e \<in> set (validateBinaryPath (ps ! i) (Index (Child f fld) i))"
      by (auto simp: validateBinaryPath_def)
    moreover have "(i, ps ! i) \<in> set (enumerate 0 ps)"
      using i(1) by (simp add: in_set_enumerate_eq)
    ultimately show "e \<in> ?L" unfolding validate_each_def by force
  qed
qed

section \<open>The defaulter\<close>

lemma Default_Spec [simp]: "Spec (Default cu p) = Spec p"
  by (simp add: Default_def)

lemma Default_meta [simp]:
  "Name (Default cu p) = Name p" "Namespace (Default cu p) = Namespace p"
  "DeletionTimestamp (Default cu p) = DeletionTimestamp p" "Labels (Default cu p) = Labels p"
  by (simp_all add: Default_def)

lemma Default_deleting: "deleting p \<Longrightarrow> Default cu p = p"
  by (auto simp: Default_def deleting_def)

lemma Default_finalizers:
  "finalizer_laws cu \<Longrightarrow> \<not> deleting p \<Longrightarrow>
     set (Finalizers (Default cu p)) = insert LandlockProfileFinalizer (set (Finalizers p))"
  by (auto simp: Default_def deleting_def finalizer_lawsD)

lemma Default_idem:
  "finalizer_laws cu \<Longrightarrow> Default cu (Default cu p) = Default cu p"
  by (auto simp: Default_def finalizer_lawsD)

lemma profile_ok_Default [simp]: "profile_ok (Default cu p) \<longleftrightarrow> profile_ok p"
  by (rule profile_ok_Spec) simp

section \<open>Properties\<close>

lemma concat_by_container:
  "concat (map (\<lambda>(c, m). concat (map (f c) (entries m))) xs) =
     concat (map (\<lambda>(c, x). f c x) (concat (map (\<lambda>(c, m). map (\<lambda>(b, p). (c, b, p)) (entries m)) xs)))"
  by (induction xs) (simp_all add: case_prod_unfold o_def)

lemma validateProfile_concat:
  "validateProfile sl p = concat (map (\<lambda>(c, x). validate_binary sl
     (Key (NewPath [''spec'', ''profilesByContainer'']) c) x) (binary_profiles (Spec p)))"
  by (simp add: validateProfile_def binary_profiles_def Let_def concat_by_container)

lemma mset_concat_map:
  assumes "mset xs = mset ys"
  shows "mset (concat (map f xs)) = mset (concat (map f ys))"
proof -
  have "mset (concat (map f zs)) = sum_mset (image_mset (mset \<circ> f) (mset zs))" for zs
    by (induction zs) simp_all
  then show ?thesis using assms by simp
qed

text \<open>C18: The validating webhook admits a new or changed profile exactly when it meets the specification:
  every binary path and every listed path is absolute and clean, and no path is in two lists of the
  same binary.\<close>

theorem validator_exact:
  "(ValidateCreate sets_List p = None \<longleftrightarrow> profile_ok p) \<and>
   (ValidateUpdate sets_List old p = None \<longleftrightarrow> profile_ok p) \<and> ValidateDelete p = None"
  by (simp add: ValidateDelete_def)

text \<open>The errors reported for a list of paths are, index by index, one for each path that is not
  absolute and one for each path that is not clean, under the field of that index, and no others.\<close>

lemma path_errors_exact:
  "set (validate_each paths fld fldPath) =
     {Invalid (Index (Child fldPath fld) i) (FString (paths ! i)) d |i d.
        i < length paths \<and>
        (\<not> IsAbs (paths ! i) \<and> d = msg_absolute \<or> Clean (paths ! i) \<noteq> paths ! i \<and> d = msg_not_clean)}"
  by (rule set_validate_each)

text \<open>The order in which Go ranges over the maps of a profile does not change what is reported: two
  visits of the same binaries yield the same errors, up to their order.\<close>

lemma validation_order_independent:
  assumes "mset (binary_profiles (Spec p)) = mset (binary_profiles (Spec q))"
  shows "mset (validateProfile sets_List p) = mset (validateProfile sets_List q)"
  unfolding validateProfile_concat by (rule mset_concat_map [OF assms])

definition spec_of :: "ProfileByBinary go_map \<Rightarrow> LandlockProfile" where
  "spec_of m = \<lparr>Name = ''p'', Namespace = ''default'', Labels = None, Finalizers = [],
     DeletionTimestamp = None, Spec = \<lparr>ProfilesByContainer = m\<rparr>\<rparr>"

text \<open>No path of an admitted profile leaves its directory: binaries and listed paths are absolute,
  equal to their cleaned form, and have no \<open>.\<close> or \<open>..\<close> component.\<close>

lemma admitted_no_traversal:
  assumes "ValidateCreate sets_List p = None" "(c, b, q) \<in> set (binary_profiles (Spec p))"
    and "path \<in> set (b # profile_paths q)" "w \<in> set (split_on sep path)"
  shows "IsAbs path \<and> Clean path = path \<and> w \<noteq> ''..'' \<and> w \<noteq> ''.''"
proof -
  have "binary_ok b q" using assms(1,2) by (auto simp: profile_ok_def)
  then have "clean_abs path" using assms(3) by (auto simp: binary_ok_def)
  then show ?thesis using clean_abs_no_dots [OF _ assms(4)] by (simp add: clean_abs_def)
qed

lemma admitted_no_traversal_example:
  "IsAbs ''/usr/bin/curl'' \<and> ''curl'' \<noteq> ''..'' \<and>
   ValidateCreate list_of_set (spec_of (Some [(''a'', Some [(''/usr/bin/curl'',
     \<lparr>ReadOnly = [''/etc''], ReadWrite = [], ReadExec = [], ReadWriteExec = []\<rparr>)])])) = None"
proof -
  let ?p = "spec_of (Some [(''a'', Some [(''/usr/bin/curl'',
     \<lparr>ReadOnly = [''/etc''], ReadWrite = [], ReadExec = [], ReadWriteExec = []\<rparr>)])])"
  have "clean_abs ''/usr/bin/curl''" "clean_abs ''/etc''" by code_simp+
  then have admitted: "ValidateCreate list_of_set ?p = None"
    by (simp add: profile_ok_def binary_ok_def binary_profiles_def spec_of_def profile_paths_def
        disjoint_access_def)
  have "''curl'' \<in> set (split_on sep ''/usr/bin/curl'')" by code_simp
  with admitted_no_traversal [OF admitted, of "''a''" "''/usr/bin/curl''"] admitted show ?thesis
    by (simp add: binary_profiles_def spec_of_def)
qed

text \<open>The defaulter protects every profile that is not being deleted with the finalizer, adds nothing
  else, does nothing to a profile that is being deleted, and running it again changes nothing.\<close>

lemma defaulter_correct:
  assumes "finalizer_laws cu"
  shows "set (Finalizers (Default cu p)) =
      (if deleting p then set (Finalizers p) else insert LandlockProfileFinalizer (set (Finalizers p))) \<and>
    Default cu p = p\<lparr>Finalizers := Finalizers (Default cu p)\<rparr> \<and>
    Default cu (Default cu p) = Default cu p"
  using Default_finalizers [OF assms, of p] Default_deleting [of p cu] Default_idem [OF assms, of p]
  by (simp add: Default_def)

lemma defaulter_correct_witness:
  "set (Finalizers (Default list_controllerutil (spec_of None))) = {LandlockProfileFinalizer}"
  using defaulter_correct [OF list_controllerutil_laws, of "spec_of None"]
  by (simp add: spec_of_def deleting_def)

end
