(* ===== verification/Controller.thy ===== *)
theory Controller
  imports Webhook
begin

text \<open>
  \<open>internal/controller/landlockprofile_controller.go\<close>: the reconciler that keeps a deleted profile
  until no pod uses it. The Kubernetes client is the parameter \<open>kube_client\<close>: \<open>Get\<close>, \<open>List\<close> with a
  namespace and a label, \<open>Patch\<close> from an original, and the test for a not-found error, each of the
  first three an effect on the cluster. \<open>cluster_laws\<close> is the documented behaviour of these calls
  on a cluster that holds profiles and pods: reads answer what is there, a list is filtered by
  namespace and label, a merge patch stores the changed finalizers, and the API server drops an
  object that is being deleted when its last finalizer goes. \<open>DeepCopy\<close> gives an equal value.
\<close>

section \<open>The client\<close>

type_synonym Pod = "unit ObjectMeta_scheme"

record 's kube_client =
  kc_Get :: "NamespacedName \<Rightarrow> (LandlockProfile, 's) effect"
  kc_List :: "string \<Rightarrow> string \<times> string \<Rightarrow> (Pod list, 's) effect"
  kc_Patch :: "LandlockProfile \<Rightarrow> LandlockProfile \<Rightarrow> (unit, 's) effect"
  kc_IsNotFound :: "go_error \<Rightarrow> bool"

text \<open>\<open>ctrl.Result\<close>: the delay of the next run in seconds, \<open>None\<close> for none asked for.\<close>

record ctrl_Result =
  RequeueAfter :: "nat option"

definition key_of :: "'a ObjectMeta_scheme \<Rightarrow> NamespacedName" where
  "key_of o' = \<lparr>nn_namespace = Namespace o', nn_name = Name o'\<rparr>"

section \<open>landlockprofile_controller.go\<close>

definition handleDeletion ::
  "controllerutil \<Rightarrow> 's kube_client \<Rightarrow> LandlockProfile \<Rightarrow> (ctrl_Result, 's) effect" where
  "handleDeletion cu r profile =
     (if cu_contains cu (Finalizers profile) LandlockProfileFinalizer then
        attempt (kc_List r (Namespace profile) (PodProfileLabel, Name profile))
            (Wrap ''failed to list pods using profile: '')
          (\<lambda>podList.
             if length podList > 0 then return_ok \<lparr>RequeueAfter = Some 90\<rparr>
             else
               (let original = profile;
                    profile' = profile\<lparr>Finalizers := cu_remove cu (Finalizers profile) LandlockProfileFinalizer\<rparr>
                in attempt (kc_Patch r profile' original)
                     (Wrap (''failed to remove finalizer from LandlockProfile '' @
                        squote (Namespace profile @ ''/'' @ Name profile) @ '': ''))
                     (\<lambda>_. return_ok \<lparr>RequeueAfter = None\<rparr>)))
      else return_ok \<lparr>RequeueAfter = None\<rparr>)"

definition Reconcile ::
  "controllerutil \<Rightarrow> 's kube_client \<Rightarrow> NamespacedName \<Rightarrow> (ctrl_Result, 's) effect" where
  "Reconcile cu r req s =
     (case kc_Get r req s of
        (Inl e, s1) \<Rightarrow>
          if kc_IsNotFound r e then (Inr \<lparr>RequeueAfter = None\<rparr>, s1)
          else (Inl (Wrap (''failed to get LandlockProfile '' @
                  squote (nn_namespace req @ ''/'' @ nn_name req) @ '': '') e), s1)
      | (Inr profile, s1) \<Rightarrow>
          if DeletionTimestamp profile \<noteq> None then handleDeletion cu r profile s1
          else (Inr \<lparr>RequeueAfter = None\<rparr>, s1))"

definition findProfilesForPod :: "'a ObjectMeta_scheme \<Rightarrow> NamespacedName list" where
  "findProfilesForPod pod =
     (case lookup (Labels pod) PodProfileLabel of
        None \<Rightarrow> []
      | Some profileName \<Rightarrow> [\<lparr>nn_namespace = Namespace pod, nn_name = profileName\<rparr>])"

text \<open>What the builder of the controller is told, and \<open>Complete\<close> as a parameter.\<close>

record registration =
  reg_For :: string
  reg_Watches :: string
  reg_OnlyMetadata :: bool
  reg_Map :: "Pod \<Rightarrow> NamespacedName list"
  reg_Named :: string

definition controller_registration :: registration where
  "controller_registration =
     \<lparr>reg_For = ''LandlockProfile'', reg_Watches = ''Pod'', reg_OnlyMetadata = True,
      reg_Map = findProfilesForPod, reg_Named = ''landlockprofile''\<rparr>"

definition SetupWithManager :: "(registration \<Rightarrow> go_error option) \<Rightarrow> go_error option" where
  "SetupWithManager complete =
     (case complete controller_registration of
        Some e \<Rightarrow> Some (Wrap ''unable to set up LandlockProfile controller: '' e)
      | None \<Rightarrow> None)"

section \<open>The cluster\<close>

record cluster =
  cl_profiles :: "NamespacedName \<Rightarrow> LandlockProfile option"
  cl_pods :: "Pod list"

text \<open>\<open>InNamespace\<close> and \<open>MatchingLabels\<close>.\<close>

definition pod_matches :: "string \<Rightarrow> string \<times> string \<Rightarrow> Pod \<Rightarrow> bool" where
  "pod_matches ns label pod \<longleftrightarrow> Namespace pod = ns \<and> lookup (Labels pod) (fst label) = Some (snd label)"

definition in_use :: "cluster \<Rightarrow> NamespacedName \<Rightarrow> bool" where
  "in_use k nn \<longleftrightarrow> (\<exists>pod \<in> set (cl_pods k). pod_matches (nn_namespace nn) (PodProfileLabel, nn_name nn) pod)"

text \<open>A profile that waits for PodLock: it is being deleted and carries its finalizer.\<close>

definition waits :: "cluster \<Rightarrow> NamespacedName \<Rightarrow> bool" where
  "waits k nn \<longleftrightarrow> (\<exists>p. cl_profiles k nn = Some p \<and> deleting p \<and> LandlockProfileFinalizer \<in> set (Finalizers p))"

text \<open>What the API server stores: an object being deleted without finalizers is gone.\<close>

definition stored :: "LandlockProfile \<Rightarrow> LandlockProfile option" where
  "stored p = (if deleting p \<and> Finalizers p = [] then None else Some p)"

definition get_law :: "'s kube_client \<Rightarrow> ('s \<Rightarrow> cluster) \<Rightarrow> bool" where
  "get_law r view \<longleftrightarrow>
     (\<forall>nn s x s'. kc_Get r nn s = (x, s') \<longrightarrow> view s' = view s \<and>
        (case x of
           Inl e \<Rightarrow> kc_IsNotFound r e \<longrightarrow> cl_profiles (view s) nn = None
         | Inr p \<Rightarrow> cl_profiles (view s) nn = Some p \<and> key_of p = nn))"

definition list_law :: "'s kube_client \<Rightarrow> ('s \<Rightarrow> cluster) \<Rightarrow> bool" where
  "list_law r view \<longleftrightarrow>
     (\<forall>ns label s x s'. kc_List r ns label s = (x, s') \<longrightarrow> view s' = view s \<and>
        (case x of Inl e \<Rightarrow> True | Inr pods \<Rightarrow> pods = filter (pod_matches ns label) (cl_pods (view s))))"

definition patch_law :: "'s kube_client \<Rightarrow> ('s \<Rightarrow> cluster) \<Rightarrow> bool" where
  "patch_law r view \<longleftrightarrow>
     (\<forall>p p0 s x s' q. kc_Patch r p p0 s = (x, s') \<longrightarrow>
        (case x of
           Inl e \<Rightarrow> view s' = view s
         | Inr u \<Rightarrow>
             cl_profiles (view s) (key_of p) = Some q \<longrightarrow>
             view s' = (view s)\<lparr>cl_profiles := (cl_profiles (view s))
               (key_of p := stored (q\<lparr>Finalizers := Finalizers p\<rparr>))\<rparr>))"

definition cluster_laws :: "'s kube_client \<Rightarrow> ('s \<Rightarrow> cluster) \<Rightarrow> bool" where
  "cluster_laws r view \<longleftrightarrow> get_law r view \<and> list_law r view \<and> patch_law r view"

lemma get_lawD:
  assumes "cluster_laws r view" "kc_Get r nn s = (x, s')"
  shows "view s' = view s" "x = Inr p \<Longrightarrow> cl_profiles (view s) nn = Some p \<and> key_of p = nn"
    "x = Inl e \<Longrightarrow> kc_IsNotFound r e \<Longrightarrow> cl_profiles (view s) nn = None"
proof -
  have "view s' = view s \<and>
      (case x of
         Inl e \<Rightarrow> kc_IsNotFound r e \<longrightarrow> cl_profiles (view s) nn = None
       | Inr p \<Rightarrow> cl_profiles (view s) nn = Some p \<and> key_of p = nn)"
    using assms unfolding cluster_laws_def get_law_def by blast
  then show "view s' = view s" "x = Inr p \<Longrightarrow> cl_profiles (view s) nn = Some p \<and> key_of p = nn"
    "x = Inl e \<Longrightarrow> kc_IsNotFound r e \<Longrightarrow> cl_profiles (view s) nn = None" by auto
qed

lemma list_lawD:
  assumes "cluster_laws r view" "kc_List r ns label s = (x, s')"
  shows "view s' = view s" "x = Inr pods \<Longrightarrow> pods = filter (pod_matches ns label) (cl_pods (view s))"
proof -
  have "view s' = view s \<and>
      (case x of Inl e \<Rightarrow> True | Inr pods \<Rightarrow> pods = filter (pod_matches ns label) (cl_pods (view s)))"
    using assms unfolding cluster_laws_def list_law_def by blast
  then show "view s' = view s" "x = Inr pods \<Longrightarrow> pods = filter (pod_matches ns label) (cl_pods (view s))"
    by auto
qed

lemma patch_lawD:
  assumes "cluster_laws r view" "kc_Patch r p p0 s = (x, s')"
  shows "x = Inl e \<Longrightarrow> view s' = view s"
    "x = Inr u \<Longrightarrow> cl_profiles (view s) (key_of p) = Some q \<Longrightarrow>
       view s' = (view s)\<lparr>cl_profiles := (cl_profiles (view s))
         (key_of p := stored (q\<lparr>Finalizers := Finalizers p\<rparr>))\<rparr>"
proof -
  have "case x of
      Inl e \<Rightarrow> view s' = view s
    | Inr u \<Rightarrow> cl_profiles (view s) (key_of p) = Some q \<longrightarrow>
        view s' = (view s)\<lparr>cl_profiles := (cl_profiles (view s))
          (key_of p := stored (q\<lparr>Finalizers := Finalizers p\<rparr>))\<rparr>"
    using assms unfolding cluster_laws_def patch_law_def by blast
  then show "x = Inl e \<Longrightarrow> view s' = view s"
    "x = Inr u \<Longrightarrow> cl_profiles (view s) (key_of p) = Some q \<Longrightarrow>
       view s' = (view s)\<lparr>cl_profiles := (cl_profiles (view s))
         (key_of p := stored (q\<lparr>Finalizers := Finalizers p\<rparr>))\<rparr>" by auto
qed

section \<open>The outcomes of a run\<close>

text \<open>\<open>released k p\<close>: the cluster without PodLock's finalizer on the profile.\<close>

definition released :: "controllerutil \<Rightarrow> cluster \<Rightarrow> LandlockProfile \<Rightarrow> cluster" where
  "released cu k p =
     k\<lparr>cl_profiles := (cl_profiles k)(key_of p :=
         stored (p\<lparr>Finalizers := cu_remove cu (Finalizers p) LandlockProfileFinalizer\<rparr>))\<rparr>"

lemma key_of_Finalizers [simp]: "key_of (p\<lparr>Finalizers := fs\<rparr>) = key_of p"
  by (simp add: key_of_def)

lemma filter_matches_Nil:
  "filter (pod_matches (Namespace p) (PodProfileLabel, Name p)) (cl_pods k) = [] \<longleftrightarrow> \<not> in_use k (key_of p)"
  by (auto simp: in_use_def key_of_def filter_empty_conv)

lemma handleDeletion_outcomes:
  assumes laws: "cluster_laws r view" "finalizer_laws cu"
    and run: "handleDeletion cu r p s = (x, s')" and there: "cl_profiles (view s) (key_of p) = Some p"
  obtains e where "x = Inl e" "view s' = view s" "LandlockProfileFinalizer \<in> set (Finalizers p)"
    | "x = Inr \<lparr>RequeueAfter = Some 90\<rparr>" "view s' = view s" "in_use (view s) (key_of p)"
      "LandlockProfileFinalizer \<in> set (Finalizers p)"
    | "x = Inr \<lparr>RequeueAfter = None\<rparr>" "view s' = view s" "LandlockProfileFinalizer \<notin> set (Finalizers p)"
    | "x = Inr \<lparr>RequeueAfter = None\<rparr>" "view s' = released cu (view s) p" "\<not> in_use (view s) (key_of p)"
      "LandlockProfileFinalizer \<in> set (Finalizers p)"
proof (cases "LandlockProfileFinalizer \<in> set (Finalizers p)")
  case False
  then show thesis using run that(3) finalizer_lawsD(1) [OF laws(2)] by (simp add: handleDeletion_def)
next
  case True
  let ?patch = "p\<lparr>Finalizers := cu_remove cu (Finalizers p) LandlockProfileFinalizer\<rparr>"
  have "attempt (kc_List r (Namespace p) (PodProfileLabel, Name p)) (Wrap ''failed to list pods using profile: '')
      (\<lambda>podList. if length podList > 0 then return_ok \<lparr>RequeueAfter = Some 90\<rparr>
         else attempt (kc_Patch r ?patch p)
           (Wrap (''failed to remove finalizer from LandlockProfile '' @
              squote (Namespace p @ ''/'' @ Name p) @ '': ''))
           (\<lambda>_. return_ok \<lparr>RequeueAfter = None\<rparr>)) s = (x, s')"
    using run True unfolding handleDeletion_def finalizer_lawsD(1) [OF laws(2)] Let_def by simp
  then show thesis
  proof (cases rule: attempt_cases)
    case (failed e)
    then show thesis using that(1) True list_lawD(1) [OF laws(1) failed(1)] by simp
  next
    case listed: (continued pods s1)
    have s1: "view s1 = view s" and pods: "pods = filter (pod_matches (Namespace p) (PodProfileLabel, Name p)) (cl_pods (view s))"
      using list_lawD [OF laws(1) listed(1)] by simp_all
    show thesis
    proof (cases "pods = []")
      case False
      then have "in_use (view s) (key_of p)" using pods filter_matches_Nil by blast
      then show thesis using listed(2) False s1 that(2) True by simp
    next
      case empty: True
      then have unused: "\<not> in_use (view s) (key_of p)" using pods filter_matches_Nil by metis
      have "attempt (kc_Patch r ?patch p)
          (Wrap (''failed to remove finalizer from LandlockProfile '' @
             squote (Namespace p @ ''/'' @ Name p) @ '': ''))
          (\<lambda>_. return_ok \<lparr>RequeueAfter = None\<rparr>) s1 = (x, s')"
        using listed(2) empty by simp
      then show thesis
      proof (cases rule: attempt_cases)
        case (failed e)
        then show thesis using that(1) True s1 patch_lawD(1) [OF laws(1) failed(1)] by simp
      next
        case (continued u s2)
        have "cl_profiles (view s1) (key_of ?patch) = Some p" using there s1 by simp
        from patch_lawD(2) [OF laws(1) continued(1) refl this]
        have "view s2 = released cu (view s) p" by (simp add: released_def s1)
        then show thesis using continued(2) unused True that(4) by simp
      qed
    qed
  qed
qed

text \<open>\<open>Reconcile\<close>: either nothing in the cluster changes, or the finalizer of an unused profile that is
  being deleted goes.\<close>

lemma Reconcile_outcomes:
  assumes laws: "cluster_laws r view" "finalizer_laws cu" and run: "Reconcile cu r nn s = (x, s')"
  obtains e where "x = Inl e" "view s' = view s"
    | "x = Inr \<lparr>RequeueAfter = None\<rparr>" "view s' = view s"
      "\<And>p. cl_profiles (view s) nn = Some p \<Longrightarrow> deleting p \<Longrightarrow> LandlockProfileFinalizer \<notin> set (Finalizers p)"
    | p where "cl_profiles (view s) nn = Some p" "key_of p = nn" "deleting p"
      "LandlockProfileFinalizer \<in> set (Finalizers p)"
      "x = Inr \<lparr>RequeueAfter = Some 90\<rparr>" "view s' = view s" "in_use (view s) nn"
    | p where "cl_profiles (view s) nn = Some p" "key_of p = nn" "deleting p"
      "LandlockProfileFinalizer \<in> set (Finalizers p)"
      "x = Inr \<lparr>RequeueAfter = None\<rparr>" "view s' = released cu (view s) p" "\<not> in_use (view s) nn"
proof (cases "kc_Get r nn s")
  case (Pair y s1)
  note law = get_lawD [OF laws(1) Pair]
  show thesis
  proof (cases y)
    case (Inl e)
    show thesis
    proof (cases "kc_IsNotFound r e")
      case True
      then show thesis using run Pair Inl law(1) law(3) [OF Inl True] that(2) by (simp add: Reconcile_def)
    next
      case False
      then show thesis using run Pair Inl law(1) that(1) by (auto simp: Reconcile_def)
    qed
  next
    case (Inr p)
    then have there: "cl_profiles (view s) nn = Some p" "key_of p = nn" using law(2) by simp_all
    show thesis
    proof (cases "deleting p")
      case False
      then show thesis using run Pair Inr law(1) there that(2) by (simp add: Reconcile_def deleting_def)
    next
      case True
      then have del: "handleDeletion cu r p s1 = (x, s')"
        using run Pair Inr by (simp add: Reconcile_def deleting_def)
      have here: "cl_profiles (view s1) (key_of p) = Some p" using there law(1) by simp
      from laws del here show thesis
      proof (cases rule: handleDeletion_outcomes)
        case (1 e)
        then show thesis using law(1) that(1) by simp
      next
        case 2
        then show thesis using that(3) [OF there True] law(1) there(2) by simp
      next
        case 3
        then show thesis using that(2) law(1) there(1) by simp
      next
        case 4
        then show thesis using that(4) [OF there True] law(1) there(2) by simp
      qed
    qed
  qed
qed

lemma handleDeletion_succeeds:
  assumes "cu_contains cu (Finalizers p) LandlockProfileFinalizer"
    and "kc_List r (Namespace p) (PodProfileLabel, Name p) s = (Inr [], s1)"
    and "kc_Patch r (p\<lparr>Finalizers := cu_remove cu (Finalizers p) LandlockProfileFinalizer\<rparr>) p s1 = (Inr (), s2)"
  shows "handleDeletion cu r p s = (Inr \<lparr>RequeueAfter = None\<rparr>, s2)"
  using assms by (simp add: handleDeletion_def Let_def)

section \<open>A cluster that answers\<close>

text \<open>A client on a cluster as the state, for the witnesses: every call succeeds.\<close>

definition cluster_client :: "cluster kube_client" where
  "cluster_client =
     \<lparr>kc_Get = (\<lambda>nn k. case cl_profiles k nn of
          Some p \<Rightarrow> (if key_of p = nn then Inr p else Inl (Errorf ''bad object''), k)
        | None \<Rightarrow> (Inl (Remote ''not found''), k)),
      kc_List = (\<lambda>ns label k. (Inr (filter (pod_matches ns label) (cl_pods k)), k)),
      kc_Patch = (\<lambda>p p0 k. case cl_profiles k (key_of p) of
          Some q \<Rightarrow> (Inr (), k\<lparr>cl_profiles := (cl_profiles k)(key_of p := stored (q\<lparr>Finalizers := Finalizers p\<rparr>))\<rparr>)
        | None \<Rightarrow> (Inl (Remote ''not found''), k)),
      kc_IsNotFound = (\<lambda>e. e = Remote ''not found'')\<rparr>"

lemma cluster_client_laws: "cluster_laws cluster_client (\<lambda>k. k)"
  unfolding cluster_laws_def
proof (intro conjI)
  show "get_law cluster_client (\<lambda>k. k)"
    by (auto simp: get_law_def cluster_client_def split: option.splits if_splits sum.splits)
  show "list_law cluster_client (\<lambda>k. k)" by (auto simp: list_law_def cluster_client_def)
  show "patch_law cluster_client (\<lambda>k. k)"
    by (auto simp: patch_law_def cluster_client_def split: option.splits sum.splits)
qed

section \<open>Properties\<close>

text \<open>The reconciler never gives up a profile in use: while a pod of the namespace carries the label
  of the profile, a run leaves every profile of the cluster as it is; and if the profile is being
  deleted under PodLock's finalizer, the run ends with an error or asks to be run again in 90 s.\<close>

lemma reconcile_keeps_in_use:
  assumes "cluster_laws r view" "finalizer_laws cu" "Reconcile cu r nn s = (x, s')" "in_use (view s) nn"
  shows "view s' = view s \<and>
    (\<forall>p. cl_profiles (view s) nn = Some p \<and> deleting p \<and> LandlockProfileFinalizer \<in> set (Finalizers p) \<longrightarrow>
       (\<exists>e. x = Inl e) \<or> x = Inr \<lparr>RequeueAfter = Some 90\<rparr>)"
  using assms(1-3) by (cases rule: Reconcile_outcomes) (use assms(4) in auto)

text \<open>Once no pod uses a profile that is being deleted, a run that reports success has removed
  PodLock's finalizer and nothing else: the profile is gone if that was its last finalizer, else it
  keeps the others, and no other profile and no pod has changed.\<close>

lemma reconcile_releases:
  assumes "cluster_laws r view" "finalizer_laws cu" "Reconcile cu r nn s = (Inr res, s')"
    and "cl_profiles (view s) nn = Some p" "deleting p" "\<not> in_use (view s) nn"
  shows "cl_pods (view s') = cl_pods (view s) \<and>
    (\<forall>nn'. nn' \<noteq> nn \<longrightarrow> cl_profiles (view s') nn' = cl_profiles (view s) nn') \<and>
    (case cl_profiles (view s') nn of
       None \<Rightarrow> set (Finalizers p) \<subseteq> {LandlockProfileFinalizer}
     | Some p' \<Rightarrow> set (Finalizers p') = set (Finalizers p) - {LandlockProfileFinalizer} \<and> Spec p' = Spec p)"
  using assms(1-3)
proof (cases rule: Reconcile_outcomes)
  case 2
  have "LandlockProfileFinalizer \<notin> set (Finalizers p)" by (rule 2(3) [OF assms(4,5)])
  then show ?thesis using 2(2) assms(4) by simp
next
  case (4 q)
  let ?fs = "cu_remove cu (Finalizers p) LandlockProfileFinalizer"
  have fs: "set ?fs = set (Finalizers p) - {LandlockProfileFinalizer}"
    by (rule finalizer_lawsD(3) [OF assms(2)])
  have "q = p" using 4(1) assms(4) by simp
  then have view: "view s' = released cu (view s) p" "key_of p = nn" using 4(2,6) by simp_all
  then have profiles: "cl_profiles (view s') = (cl_profiles (view s))(nn := stored (p\<lparr>Finalizers := ?fs\<rparr>))"
    "cl_pods (view s') = cl_pods (view s)" by (simp_all add: released_def)
  show ?thesis
  proof (cases "?fs = []")
    case True
    then have "set (Finalizers p) \<subseteq> {LandlockProfileFinalizer}" using fs by auto
    then show ?thesis using profiles True assms(5) by (simp add: stored_def deleting_def)
  next
    case False
    then show ?thesis using profiles fs by (simp add: stored_def)
  qed
qed (use assms(6) in simp_all)

definition deleting0 :: LandlockProfile where
  "deleting0 = \<lparr>Name = ''web'', Namespace = ''default'', Labels = None,
     Finalizers = [LandlockProfileFinalizer, ''other''], DeletionTimestamp = Some 7,
     Spec = \<lparr>ProfilesByContainer = None\<rparr>\<rparr>"

definition pod_using :: Pod where
  "pod_using = \<lparr>Name = ''p'', Namespace = ''default'', Labels = Some [(PodProfileLabel, ''web'')],
     Finalizers = [], DeletionTimestamp = None\<rparr>"

definition cluster_in_use :: cluster where
  "cluster_in_use = \<lparr>cl_profiles = [key_of deleting0 \<mapsto> deleting0], cl_pods = [pod_using]\<rparr>"

definition cluster_unused :: cluster where
  "cluster_unused = cluster_in_use\<lparr>cl_pods := []\<rparr>"

lemma in_use0: "in_use cluster_in_use (key_of deleting0)" "\<not> in_use cluster_unused (key_of deleting0)"
  by (simp_all add: in_use_def cluster_in_use_def cluster_unused_def pod_matches_def key_of_def
      pod_using_def deleting0_def)

lemma reconcile_keeps_in_use_witness:
  "cl_profiles (snd (Reconcile list_controllerutil cluster_client (key_of deleting0) cluster_in_use))
     (key_of deleting0) = Some deleting0"
  using reconcile_keeps_in_use [OF cluster_client_laws list_controllerutil_laws prod.collapse [symmetric] in_use0(1)]
  by (simp add: cluster_in_use_def)

lemma reconcile_releases_witness:
  "\<exists>s' q. Reconcile list_controllerutil cluster_client (key_of deleting0) cluster_unused =
       (Inr \<lparr>RequeueAfter = None\<rparr>, s') \<and>
     cl_profiles s' (key_of deleting0) = Some q \<and> set (Finalizers q) = {''other''}"
proof -
  have fields: "Finalizers deleting0 = [LandlockProfileFinalizer, ''other'']" "DeletionTimestamp deleting0 = Some 7"
    "LandlockProfileFinalizer \<noteq> ''other''"
    by (simp_all add: deleting0_def LandlockProfileFinalizer_def)
  have contents: "cl_profiles cluster_unused = [key_of deleting0 \<mapsto> deleting0]" "cl_pods cluster_unused = []"
    by (simp_all add: cluster_unused_def cluster_in_use_def)
  let ?p' = "deleting0\<lparr>Finalizers := [''other'']\<rparr>"
  let ?k = "cluster_unused\<lparr>cl_profiles := (cl_profiles cluster_unused)(key_of deleting0 \<mapsto> ?p')\<rparr>"
  have calls: "kc_Get cluster_client (key_of deleting0) cluster_unused = (Inr deleting0, cluster_unused)"
    "\<And>ns l. kc_List cluster_client ns l cluster_unused = (Inr [], cluster_unused)"
    "kc_Patch cluster_client ?p' deleting0 cluster_unused = (Inr (), ?k)"
    by (simp_all add: cluster_client_def contents stored_def)
  have utils: "cu_contains list_controllerutil (Finalizers deleting0) LandlockProfileFinalizer"
    "cu_remove list_controllerutil (Finalizers deleting0) LandlockProfileFinalizer = [''other'']"
    using fields by (simp_all add: list_controllerutil_def)
  define s' where "s' = ?k"
  have run: "Reconcile list_controllerutil cluster_client (key_of deleting0) cluster_unused =
      (Inr \<lparr>RequeueAfter = None\<rparr>, s')"
    using handleDeletion_succeeds [OF utils(1) calls(2)] calls(1,3) fields(2)
    by (simp add: Reconcile_def utils(2) s'_def del: fun_upd_apply)
  have s': "cl_profiles s' (key_of deleting0) \<noteq> None" by (simp add: s'_def)
  have there: "cl_profiles cluster_unused (key_of deleting0) = Some deleting0" "deleting deleting0"
    by (simp_all add: cluster_unused_def cluster_in_use_def deleting0_def deleting_def)
  from reconcile_releases [OF cluster_client_laws list_controllerutil_laws run there in_use0(2)] s' run fields
  show ?thesis by auto
qed

text \<open>The watch on pods and the deletion check agree: an event of a pod wakes the reconciler for
  exactly the profile whose list of users the pod appears in.\<close>

lemma pod_watch_matches_users:
  "pod_matches ns (PodProfileLabel, name) pod \<longleftrightarrow>
     \<lparr>nn_namespace = ns, nn_name = name\<rparr> \<in> set (findProfilesForPod pod)"
  by (auto simp: pod_matches_def findProfilesForPod_def split: option.splits)

end
