(* ===== verification/Cached_Client.thy ===== *)
theory Cached_Client
  imports Controller
begin

text \<open>
  The client of the reconciler is the one of its manager (\<open>mgr.GetClient\<close>): reads are answered from
  caches that follow the cluster at a distance, writes go to the API server, and others may act between
  the calls. \<open>moving_laws\<close> states this, and \<open>Reconcile_moments\<close> is what is left of a run. \<open>cluster_laws\<close> in
  \<open>Controller\<close> is the client that always tells what is so.
\<close>

section \<open>The laws of the client\<close>

text \<open>
  The patch as the API server handles it: it is a merge patch of the finalizers, so it replaces them on
  whatever object is stored under the name by then, and it goes through the defaulter like any update.
\<close>

definition patched :: "controllerutil \<Rightarrow> cluster \<Rightarrow> LandlockProfile \<Rightarrow> string list \<Rightarrow> cluster" where
  "patched cu k q fs =
     k\<lparr>cl_profiles := (cl_profiles k)(key_of q := stored (Default cu (q\<lparr>Finalizers := fs\<rparr>)))\<rparr>"

text \<open>
  The laws of \<open>cluster_laws\<close> with \<open>moves\<close> before each call. A read answers what is so in a state \<open>k\<close> that the
  client takes for the present one, \<open>past k k'\<close> where \<open>k'\<close> is the present one. With \<open>past\<close> equality the
  client reads from the API server, with the states the cluster has been in before it reads from a
  cache; the caches of profiles and of pods need not be equally old.
\<close>

definition moving_laws ::
  "controllerutil \<Rightarrow> 's kube_client \<Rightarrow> ('s \<Rightarrow> cluster) \<Rightarrow> (cluster \<Rightarrow> cluster \<Rightarrow> bool) \<Rightarrow>
     (cluster \<Rightarrow> cluster \<Rightarrow> bool) \<Rightarrow> bool" where
  "moving_laws cu r view moves past \<longleftrightarrow>
     (\<forall>nn s x s'. kc_Get r nn s = (x, s') \<longrightarrow> moves (view s) (view s') \<and>
        (\<exists>k. past k (view s') \<and>
          (case x of
             Inl e \<Rightarrow> kc_IsNotFound r e \<longrightarrow> cl_profiles k nn = None
           | Inr p \<Rightarrow> cl_profiles k nn = Some p \<and> key_of p = nn))) \<and>
     (\<forall>ns label s x s'. kc_List r ns label s = (x, s') \<longrightarrow> moves (view s) (view s') \<and>
        (\<exists>k. past k (view s') \<and>
          (case x of Inl e \<Rightarrow> True | Inr pods \<Rightarrow> pods = filter (pod_matches ns label) (cl_pods k)))) \<and>
     (\<forall>p p0 s x s'. kc_Patch r p p0 s = (x, s') \<longrightarrow>
        (case x of
           Inl e \<Rightarrow> moves (view s) (view s')
         | Inr u \<Rightarrow> \<exists>k q. moves (view s) k \<and> cl_profiles k (key_of p) = Some q \<and>
             view s' = patched cu k q (Finalizers p)))"

lemma moving_getD:
  assumes "moving_laws cu r view moves past" "kc_Get r nn s = (x, s')"
  shows "moves (view s) (view s')"
    "x = Inr p \<Longrightarrow> \<exists>k. past k (view s') \<and> cl_profiles k nn = Some p \<and> key_of p = nn"
proof -
  have "moves (view s) (view s') \<and>
      (\<exists>k. past k (view s') \<and>
        (case x of
           Inl e \<Rightarrow> kc_IsNotFound r e \<longrightarrow> cl_profiles k nn = None
         | Inr p \<Rightarrow> cl_profiles k nn = Some p \<and> key_of p = nn))"
    using assms unfolding moving_laws_def by blast
  then show "moves (view s) (view s')"
    "x = Inr p \<Longrightarrow> \<exists>k. past k (view s') \<and> cl_profiles k nn = Some p \<and> key_of p = nn" by auto
qed

lemma moving_listD:
  assumes "moving_laws cu r view moves past" "kc_List r ns label s = (x, s')"
  shows "moves (view s) (view s')"
    "x = Inr pods \<Longrightarrow> \<exists>k. past k (view s') \<and> pods = filter (pod_matches ns label) (cl_pods k)"
proof -
  have "moves (view s) (view s') \<and>
      (\<exists>k. past k (view s') \<and>
        (case x of Inl e \<Rightarrow> True | Inr pods \<Rightarrow> pods = filter (pod_matches ns label) (cl_pods k)))"
    using assms unfolding moving_laws_def by blast
  then show "moves (view s) (view s')"
    "x = Inr pods \<Longrightarrow> \<exists>k. past k (view s') \<and> pods = filter (pod_matches ns label) (cl_pods k)"
    by auto
qed

lemma moving_patchD:
  assumes "moving_laws cu r view moves past" "kc_Patch r p p0 s = (x, s')"
  shows "x = Inl e \<Longrightarrow> moves (view s) (view s')"
    and "x = Inr u \<Longrightarrow> \<exists>k q. moves (view s) k \<and> cl_profiles k (key_of p) = Some q \<and>
      view s' = patched cu k q (Finalizers p)"
proof -
  have "case x of
      Inl e \<Rightarrow> moves (view s) (view s')
    | Inr u \<Rightarrow> \<exists>k q. moves (view s) k \<and> cl_profiles k (key_of p) = Some q \<and> view s' = patched cu k q (Finalizers p)"
    using assms unfolding moving_laws_def by blast
  then show "x = Inl e \<Longrightarrow> moves (view s) (view s')"
    and "x = Inr u \<Longrightarrow> \<exists>k q. moves (view s) k \<and> cl_profiles k (key_of p) = Some q \<and>
      view s' = patched cu k q (Finalizers p)" by auto
qed

section \<open>The outcomes of a run\<close>

text \<open>The three moments of a run that patches: the profile was read, the pods were listed, the patch took effect.\<close>

lemma deletion_moments:
  assumes laws: "moving_laws cu r view moves past" "finalizer_laws cu"
    and trans: "\<And>a b c. moves a b \<Longrightarrow> moves b c \<Longrightarrow> moves a c" and still: "\<And>a. moves a a"
    and run: "handleDeletion cu r p s = (x, s')"
  obtains "moves (view s) (view s')"
    | k2 a2 k3 q where "LandlockProfileFinalizer \<in> set (Finalizers p)" "moves (view s) a2" "past k2 a2"
      "\<not> in_use k2 (key_of p)" "moves a2 k3" "cl_profiles k3 (key_of p) = Some q"
      "view s' = patched cu k3 q (cu_remove cu (Finalizers p) LandlockProfileFinalizer)"
proof (cases "LandlockProfileFinalizer \<in> set (Finalizers p)")
  case False
  then show thesis using run that(1) still finalizer_lawsD(1) [OF laws(2)] by (simp add: handleDeletion_def)
next
  case True
  let ?patch = "p\<lparr>Finalizers := cu_remove cu (Finalizers p) LandlockProfileFinalizer\<rparr>"
  have "attempt (kc_List r (Namespace p) (PodProfileLabel, Name p)) (Wrap ''failed to list pods using profile: '')
      (\<lambda>podList. if length podList > 0 then return_ok \<lparr>RequeueAfter = Some 90\<rparr>
         else attempt (kc_Patch r ?patch p)
           (Wrap (''failed to remove finalizer from LandlockProfile '' @
              squote (Namespace p @ ''/'' @ Name p) @ '': ''))
           (\<lambda>_. return_ok \<lparr>RequeueAfter = None\<rparr>)) s = (x, s')"
    using run True unfolding handleDeletion_def finalizer_lawsD(1) [OF laws(2)] Let_def by simp
  then show thesis
  proof (cases rule: attempt_cases)
    case (failed e)
    then show thesis using that(1) moving_listD(1) [OF laws(1)] by blast
  next
    case listed: (continued pods s1)
    note list = moving_listD [OF laws(1) listed(1)]
    show thesis
    proof (cases "pods = []")
      case False
      then show thesis using listed(2) list(1) that(1) by simp
    next
      case empty: True
      then obtain k2 where unused: "past k2 (view s1)" "\<not> in_use k2 (key_of p)"
        using list(2) [OF refl] filter_matches_Nil by metis
      have "attempt (kc_Patch r ?patch p)
          (Wrap (''failed to remove finalizer from LandlockProfile '' @
             squote (Namespace p @ ''/'' @ Name p) @ '': ''))
          (\<lambda>_. return_ok \<lparr>RequeueAfter = None\<rparr>) s1 = (x, s')"
        using listed(2) empty by simp
      then show thesis
      proof (cases rule: attempt_cases)
        case (failed e)
        then show thesis using trans [OF list(1) moving_patchD(1) [OF laws(1) failed(1) refl]] that(1) by simp
      next
        case (continued u s2)
        then show thesis
          using moving_patchD(2) [OF laws(1) continued(1) refl] that(2) [OF True list(1) unused] by auto
      qed
    qed
  qed
qed

lemma Reconcile_moments:
  assumes laws: "moving_laws cu r view moves past" "finalizer_laws cu"
    and trans: "\<And>a b c. moves a b \<Longrightarrow> moves b c \<Longrightarrow> moves a c" and still: "\<And>a. moves a a"
    and run: "Reconcile cu r nn s = (x, s')"
  obtains "moves (view s) (view s')"
    | k1 a1 k2 a2 k3 q fs where "moves (view s) a1" "past k1 a1" "waits k1 nn"
      "moves a1 a2" "past k2 a2" "\<not> in_use k2 nn"
      "moves a2 k3" "cl_profiles k3 nn = Some q" "view s' = patched cu k3 q fs"
proof (cases "kc_Get r nn s")
  case (Pair y s1)
  note get = moving_getD [OF laws(1) Pair]
  show thesis
  proof (cases y)
    case (Inl e)
    then show thesis using run Pair get(1) that(1) by (auto simp: Reconcile_def split: if_splits)
  next
    case (Inr p)
    then obtain k1 where there: "past k1 (view s1)" "cl_profiles k1 nn = Some p" "key_of p = nn" using get(2) by blast
    show thesis
    proof (cases "deleting p")
      case False
      then show thesis using run Pair Inr get(1) that(1) by (simp add: Reconcile_def deleting_def)
    next
      case True
      then have del: "handleDeletion cu r p s1 = (x, s')"
        using run Pair Inr by (simp add: Reconcile_def deleting_def)
      from laws trans still del show thesis
      proof (rule deletion_moments)
        assume "moves (view s1) (view s')"
        then show thesis using trans [OF get(1)] that(1) by blast
      next
        fix k2 a2 k3 q
        assume run2: "LandlockProfileFinalizer \<in> set (Finalizers p)" "moves (view s1) a2" "past k2 a2"
          "\<not> in_use k2 (key_of p)" "moves a2 k3" "cl_profiles k3 (key_of p) = Some q"
          "view s' = patched cu k3 q (cu_remove cu (Finalizers p) LandlockProfileFinalizer)"
        then have "waits k1 nn" using there True by (simp add: waits_def)
        then show thesis using that(2) [OF get(1) there(1)] run2 there(3) by blast
      qed
    qed
  qed
qed

lemma patched_facts:
  "nn \<noteq> key_of q \<Longrightarrow> cl_profiles (patched cu k q fs) nn = cl_profiles k nn"
  "cl_pods (patched cu k q fs) = cl_pods k"
  "cl_profiles (patched cu k q fs) (key_of q) = None \<Longrightarrow> deleting q"
  by (auto simp: patched_def stored_def deleting_def split: if_splits)

section \<open>A client of the API server\<close>

text \<open>A client that reads from the API server itself, on a cluster that only it changes.\<close>

definition direct_client :: "controllerutil \<Rightarrow> cluster kube_client" where
  "direct_client cu =
     \<lparr>kc_Get = (\<lambda>nn k. case cl_profiles k nn of
          Some p \<Rightarrow> (if key_of p = nn then Inr p else Inl (Errorf ''bad object''), k)
        | None \<Rightarrow> (Inl (Remote ''not found''), k)),
      kc_List = (\<lambda>ns label k. (Inr (filter (pod_matches ns label) (cl_pods k)), k)),
      kc_Patch = (\<lambda>p p0 k. case cl_profiles k (key_of p) of
          Some q \<Rightarrow> (Inr (), patched cu k q (Finalizers p))
        | None \<Rightarrow> (Inl (Remote ''not found''), k)),
      kc_IsNotFound = (\<lambda>e. e = Remote ''not found'')\<rparr>"

lemma direct_client_laws: "moving_laws cu (direct_client cu) (\<lambda>k. k) (=) (=)"
  by (auto simp: moving_laws_def direct_client_def split: option.splits if_splits sum.splits)

end
