(* ===== verification/Lifecycle.thy ===== *)
theory Lifecycle
  imports Cached_Client
begin

text \<open>
  The life of the profiles of a cluster: users create, change and delete profiles through the
  admission webhook (the defaulter, then the validator), also while a profile is being deleted, owners
  of other finalizers take theirs away, pods come and go, and the reconciler runs at any time with a
  client whose calls may fail and whose reads may come from a cache. Whatever the interleaving, every
  profile stored is one the validator admits, and a profile is lost only when it is being deleted and,
  as far as the client could tell, no pod used it.
\<close>

section \<open>The steps\<close>

text \<open>A run of the reconciler is one step here. Its client may be a different one in every step; its reads
  answer what was so in some state that it takes for the present one (\<open>past\<close>, which is equality when the
  reads come from the API server, and relates the earlier states to the present one when they come from
  a cache), and its patch takes effect on the present state. Of the API server: an update of a profile that is not being deleted keeps it so,
  a request to delete sets the deletion timestamp, and an update of a profile that is being deleted
  (\<open>amend\<close>) keeps the timestamp and adds no finalizer. Nobody but PodLock takes PodLock's finalizer away.\<close>

inductive cluster_step ::
  "controllerutil \<Rightarrow> (string set \<Rightarrow> string list) \<Rightarrow> (cluster \<Rightarrow> cluster \<Rightarrow> bool) \<Rightarrow> cluster \<Rightarrow> cluster \<Rightarrow> bool"
  for cu :: controllerutil and sets_List :: "string set \<Rightarrow> string list" and past :: "cluster \<Rightarrow> cluster \<Rightarrow> bool" where
  create: "cl_profiles k (key_of p) = None \<Longrightarrow> \<not> deleting p \<Longrightarrow>
     ValidateCreate sets_List (Default cu p) = None \<Longrightarrow>
     cluster_step cu sets_List past k (k\<lparr>cl_profiles := (cl_profiles k)(key_of p \<mapsto> Default cu p)\<rparr>)"
| update: "cl_profiles k (key_of p) = Some q \<Longrightarrow> \<not> deleting q \<Longrightarrow> \<not> deleting p \<Longrightarrow>
     ValidateUpdate sets_List q (Default cu p) = None \<Longrightarrow>
     cluster_step cu sets_List past k (k\<lparr>cl_profiles := (cl_profiles k)(key_of p \<mapsto> Default cu p)\<rparr>)"
| delete: "cl_profiles k nn = Some q \<Longrightarrow> \<not> deleting q \<Longrightarrow>
     cluster_step cu sets_List past k
       (k\<lparr>cl_profiles := (cl_profiles k)(nn := stored (q\<lparr>DeletionTimestamp := Some t\<rparr>))\<rparr>)"
| amend: "cl_profiles k (key_of p) = Some q \<Longrightarrow> deleting q \<Longrightarrow> DeletionTimestamp p = DeletionTimestamp q \<Longrightarrow>
     set (Finalizers p) \<subseteq> set (Finalizers q) \<Longrightarrow>
     LandlockProfileFinalizer \<in> set (Finalizers q) \<longrightarrow> LandlockProfileFinalizer \<in> set (Finalizers p) \<Longrightarrow>
     ValidateUpdate sets_List q (Default cu p) = None \<Longrightarrow>
     cluster_step cu sets_List past k (k\<lparr>cl_profiles := (cl_profiles k)(key_of p := stored (Default cu p))\<rparr>)"
| pods: "cluster_step cu sets_List past k (k\<lparr>cl_pods := ps\<rparr>)"
| reconcile: "moving_laws cu r (\<lambda>k. k) (=) past \<Longrightarrow> Reconcile cu r nn k = (x, k') \<Longrightarrow> cluster_step cu sets_List past k k'"

text \<open>The invariant: profiles are stored under their names, admitted, and protected by the finalizer
  while they are not being deleted.\<close>

definition profile_inv :: "NamespacedName \<Rightarrow> LandlockProfile \<Rightarrow> bool" where
  "profile_inv nn p \<longleftrightarrow> key_of p = nn \<and> profile_ok p \<and>
     (deleting p \<or> LandlockProfileFinalizer \<in> set (Finalizers p))"

definition cluster_inv :: "cluster \<Rightarrow> bool" where
  "cluster_inv k \<longleftrightarrow> (\<forall>nn p. cl_profiles k nn = Some p \<longrightarrow> profile_inv nn p)"

lemma cluster_invD: "cluster_inv k \<Longrightarrow> cl_profiles k nn = Some p \<Longrightarrow> profile_inv nn p"
  by (simp add: cluster_inv_def)

lemma cluster_inv_put:
  assumes "cluster_inv k" "\<And>p. v = Some p \<Longrightarrow> profile_inv nn p"
  shows "cluster_inv (k\<lparr>cl_profiles := (cl_profiles k)(nn := v)\<rparr>)"
  using assms by (auto simp: cluster_inv_def)

lemma key_of_Default [simp]: "key_of (Default cu p) = key_of p"
  by (simp add: key_of_def)

lemma deleting_Default [simp]: "deleting (Default cu p) \<longleftrightarrow> deleting p"
  by (simp add: deleting_def)

lemma profile_inv_Default:
  assumes "finalizer_laws cu" "\<not> deleting p" "profile_ok (Default cu p)"
  shows "profile_inv (key_of p) (Default cu p)"
  using assms Default_finalizers [OF assms(1,2)] by (simp add: profile_inv_def)

lemma stored_inv:
  assumes "stored q = Some p" "key_of q = nn" "profile_ok q" "deleting q"
  shows "profile_inv nn p"
  using assms by (auto simp: stored_def profile_inv_def split: if_splits)

text \<open>A patch that comes late, even one that hits a live profile created again under the name, keeps the
  invariant: the defaulter puts PodLock's finalizer back.\<close>

lemma patched_inv:
  assumes "finalizer_laws cu" "cluster_inv k" "cl_profiles k nn = Some q"
  shows "cluster_inv (patched cu k q fs)"
  unfolding patched_def
proof (rule cluster_inv_put [OF assms(2)])
  fix p assume p: "stored (Default cu (q\<lparr>Finalizers := fs\<rparr>)) = Some p"
  have q: "profile_ok (q\<lparr>Finalizers := fs\<rparr>)"
    using cluster_invD [OF assms(2,3)] profile_ok_Spec [of "q\<lparr>Finalizers := fs\<rparr>" q] by (simp add: profile_inv_def)
  show "profile_inv (key_of q) p"
  proof (cases "deleting q")
    case True
    then have d: "deleting (q\<lparr>Finalizers := fs\<rparr>)" by (simp add: deleting_def)
    show ?thesis by (rule stored_inv [OF p]) (use d q in simp_all)
  next
    case False
    then have d: "\<not> deleting (q\<lparr>Finalizers := fs\<rparr>)" by (simp add: deleting_def)
    with p have "p = Default cu (q\<lparr>Finalizers := fs\<rparr>)" by (simp add: stored_def)
    then show ?thesis using profile_inv_Default [OF assms(1) d] q by simp
  qed
qed

text \<open>What a run of the reconciler as one step does.\<close>

lemma reconcile_step:
  assumes "moving_laws cu r (\<lambda>k. k) (=) past" "finalizer_laws cu" "Reconcile cu r nn k = (x, k')"
  obtains "k' = k"
    | k1 k2 q fs where "past k1 k" "waits k1 nn" "past k2 k" "\<not> in_use k2 nn"
      "cl_profiles k nn = Some q" "k' = patched cu k q fs"
proof (rule Reconcile_moments [OF assms(1,2) _ _ assms(3)])
  assume "k = k'"
  then show thesis using that(1) by simp
next
  fix k1 a1 k2 a2 k3 q fs
  assume "k = a1" "past k1 a1" "waits k1 nn" "a1 = a2" "past k2 a2" "\<not> in_use k2 nn" "a2 = k3"
    "cl_profiles k3 nn = Some q" "k' = patched cu k3 q fs"
  then show thesis using that(2) by simp
qed simp_all

lemma cluster_step_inv:
  assumes fl: "finalizer_laws cu" and step: "cluster_step cu sl past k k'" and inv: "cluster_inv k"
  shows "cluster_inv k'"
  using step
proof cases
  case (create p)
  then show ?thesis using profile_inv_Default [OF fl] by (auto intro: cluster_inv_put [OF inv])
next
  case (update p q)
  then show ?thesis using profile_inv_Default [OF fl] by (auto intro: cluster_inv_put [OF inv])
next
  case (delete nn q t)
  have q: "key_of q = nn" "profile_ok q" using cluster_invD [OF inv delete(2)] by (simp_all add: profile_inv_def)
  have "profile_inv nn p" if "stored (q\<lparr>DeletionTimestamp := Some t\<rparr>) = Some p" for p
    by (rule stored_inv [OF that]) (use q in \<open>simp_all add: key_of_def deleting_def profile_ok_def\<close>)
  then show ?thesis unfolding delete(1) by (rule cluster_inv_put [OF inv])
next
  case (amend p q)
  then have p: "Default cu p = p" "deleting p" by (auto simp: deleting_def Default_deleting)
  show ?thesis
    unfolding amend(1) p(1) by (rule cluster_inv_put [OF inv], rule stored_inv) (use amend(7) p in simp_all)
next
  case (pods ps)
  then show ?thesis using inv by (simp add: cluster_inv_def)
next
  case (reconcile r nn x)
  from reconcile(1) fl reconcile(2) show ?thesis
  proof (cases rule: reconcile_step)
    case (2 k1 k2 q fs)
    show ?thesis unfolding 2(6) by (rule patched_inv [OF fl inv 2(5)])
  qed (use inv in simp)
qed

lemma cluster_reachable_inv:
  assumes "(cluster_step cu sl past)\<^sup>*\<^sup>* k0 k" "finalizer_laws cu" "cluster_inv k0"
  shows "cluster_inv k"
  using assms(1) by (induction rule: rtranclp_induct) (use assms(2,3) cluster_step_inv in blast)+

text \<open>The only step that drops a profile under PodLock's finalizer is a run of the reconciler to which the
  profile looked unused; a profile PodLock has released goes when the last of its other finalizers does.\<close>

lemma cluster_step_drops:
  assumes fl: "finalizer_laws cu" and step: "cluster_step cu sl past k k'" and inv: "cluster_inv k"
    and drop: "cl_profiles k nn = Some p" "cl_profiles k' nn = None"
  shows "deleting p \<and> (LandlockProfileFinalizer \<in> set (Finalizers p) \<longrightarrow>
    (\<exists>k1. past k1 k \<and> waits k1 nn) \<and> (\<exists>k2. past k2 k \<and> \<not> in_use k2 nn))"
  using step
proof cases
  case (amend p' q)
  then have "key_of p' = nn" "q = p" using drop by (auto split: if_splits)
  moreover from this have "Finalizers (Default cu p') = []" using amend(1) drop(2) by (auto simp: stored_def split: if_splits)
  moreover have "Default cu p' = p'" using amend(3,4) by (simp add: deleting_def Default_deleting)
  ultimately show ?thesis using amend(3,6) by auto
next
  case (delete nn' q t)
  have "LandlockProfileFinalizer \<in> set (Finalizers q)"
    using cluster_invD [OF inv delete(2)] delete(3) by (simp add: profile_inv_def)
  then have "stored (q\<lparr>DeletionTimestamp := Some t\<rparr>) \<noteq> None" by (auto simp: stored_def)
  then show ?thesis using drop delete(1) by (auto split: if_splits)
next
  case (reconcile r nn' x)
  from reconcile(1) fl reconcile(2) show ?thesis
  proof (cases rule: reconcile_step)
    case (2 k1 k2 q fs)
    have "key_of q = nn'" using cluster_invD [OF inv 2(5)] by (simp add: profile_inv_def)
    then have "nn' = nn" "deleting q"
      using drop patched_facts(1) [of nn q cu k fs] patched_facts(3) [of cu k q fs] 2(6) by auto
    then show ?thesis using 2(1-5) drop(1) by auto
  qed (use drop in simp)
qed (use drop in \<open>auto split: if_splits\<close>)

text \<open>A client whose calls succeed releases an unused profile at once.\<close>

lemma cluster_client_releases:
  assumes "finalizer_laws cu" "cl_profiles k nn = Some p" "key_of p = nn" "deleting p"
    and "LandlockProfileFinalizer \<in> set (Finalizers p)" "\<not> in_use k nn"
  shows "Reconcile cu cluster_client nn k = (Inr \<lparr>RequeueAfter = None\<rparr>, released cu k p)"
proof -
  let ?q = "p\<lparr>Finalizers := cu_remove cu (Finalizers p) LandlockProfileFinalizer\<rparr>"
  have pods: "kc_List cluster_client (Namespace p) (PodProfileLabel, Name p) k = (Inr [], k)"
    using filter_matches_Nil [of p k] assms(3,6) by (simp add: cluster_client_def)
  have patch: "kc_Patch cluster_client ?q p k = (Inr (), released cu k p)"
    using assms(2,3) by (simp add: cluster_client_def released_def)
  have "handleDeletion cu cluster_client p k = (Inr \<lparr>RequeueAfter = None\<rparr>, released cu k p)"
    using assms(5) finalizer_lawsD(1) [OF assms(1)] by (intro handleDeletion_succeeds [OF _ pods patch]) simp
  moreover have "kc_Get cluster_client nn k = (Inr p, k)" using assms(2,3) by (simp add: cluster_client_def)
  ultimately show ?thesis using assms(4) by (simp add: Reconcile_def deleting_def)
qed

section \<open>Properties\<close>

text \<open>C14: Whatever users, pods and the reconciler do, in whatever order and with whatever failures, a
  profile only disappears from the cluster when it is being deleted. And as long as it carries PodLock's
  finalizer it only disappears when the reconciler's client, in states it took for the present one, found
  it waiting for PodLock and found no pod of its namespace labelled with it. When the client takes only
  the present state for the present one, as in the witness, this means that no pod uses the profile that
  disappears; a client that reads from caches may miss a pod (see \<open>Reconcile_Race\<close>, where also others act
  between the calls of a run, which is one step here).\<close>

theorem lifecycle_protects_profiles:
  assumes "finalizer_laws cu" "(cluster_step cu sets_List past)\<^sup>*\<^sup>* k0 k" "cluster_inv k0"
    and "cluster_step cu sets_List past k k'" "cl_profiles k nn = Some p" "cl_profiles k' nn = None"
  shows "deleting p \<and> (LandlockProfileFinalizer \<in> set (Finalizers p) \<longrightarrow>
    (\<exists>k1. past k1 k \<and> waits k1 nn) \<and> (\<exists>k2. past k2 k \<and> \<not> in_use k2 nn))"
  using cluster_step_drops [OF assms(1,4) cluster_reachable_inv [OF assms(2,1,3)] assms(5,6)] .

text \<open>Every profile stored in the cluster meets the specification of the validator, and carries the
  finalizer as long as it is not being deleted.\<close>

lemma lifecycle_stored_admitted:
  assumes "finalizer_laws cu" "(cluster_step cu sets_List past)\<^sup>*\<^sup>* k0 k" "cluster_inv k0"
    and "cl_profiles k nn = Some p"
  shows "profile_ok p \<and> (deleting p \<or> LandlockProfileFinalizer \<in> set (Finalizers p))"
  using cluster_invD [OF cluster_reachable_inv [OF assms(2,1,3)] assms(4)] by (simp add: profile_inv_def)

text \<open>The update with which the reconciler removes the finalizer passes the webhook unchanged: the
  defaulter does not put the finalizer back on a profile that is being deleted, and the validator
  accepts the update exactly when it accepted the profile.\<close>

lemma release_passes_webhook:
  assumes "deleting p"
  shows "Default cu (p\<lparr>Finalizers := fs\<rparr>) = p\<lparr>Finalizers := fs\<rparr> \<and>
    (ValidateUpdate sets_List p (p\<lparr>Finalizers := fs\<rparr>) = None \<longleftrightarrow> ValidateCreate sets_List p = None)"
  using assms profile_ok_Spec [of "p\<lparr>Finalizers := fs\<rparr>" p] by (simp add: Default_deleting deleting_def)

text \<open>A profile is created, deleted and released; the witnesses.\<close>

definition profile1 :: LandlockProfile where
  "profile1 = \<lparr>Name = ''web'', Namespace = ''default'', Labels = None, Finalizers = [],
     DeletionTimestamp = None, Spec = \<lparr>ProfilesByContainer = None\<rparr>\<rparr>"

definition cluster0 :: cluster where
  "cluster0 = \<lparr>cl_profiles = (\<lambda>_. None), cl_pods = []\<rparr>"

definition cluster1 :: cluster where
  "cluster1 = cluster0\<lparr>cl_profiles := (cl_profiles cluster0)(key_of profile1 \<mapsto>
     Default list_controllerutil profile1)\<rparr>"

definition cluster2 :: cluster where
  "cluster2 = cluster1\<lparr>cl_profiles := (cl_profiles cluster1)(key_of profile1 :=
     stored ((Default list_controllerutil profile1)\<lparr>DeletionTimestamp := Some 7\<rparr>))\<rparr>"

lemma run1:
  "cluster_inv cluster0" "cluster_step list_controllerutil list_of_set (=) cluster0 cluster1"
  "cluster_step list_controllerutil list_of_set (=) cluster1 cluster2"
proof -
  show "cluster_inv cluster0" by (simp add: cluster_inv_def cluster0_def)
  have fresh: "\<not> deleting profile1" by (simp add: profile1_def deleting_def)
  have ok: "profile_ok profile1" by (simp add: profile_ok_def binary_profiles_def profile1_def)
  show "cluster_step list_controllerutil list_of_set (=) cluster0 cluster1"
    unfolding cluster1_def
    by (rule cluster_step.create) (use fresh ok in \<open>simp_all add: cluster0_def\<close>)
  show "cluster_step list_controllerutil list_of_set (=) cluster1 cluster2"
    unfolding cluster2_def
    by (rule cluster_step.delete) (use fresh in \<open>simp_all add: cluster1_def\<close>)
qed

lemma lifecycle_stored_admitted_witness:
  "profile_ok (Default list_controllerutil profile1)"
proof -
  have "(cluster_step list_controllerutil list_of_set (=))\<^sup>*\<^sup>* cluster0 cluster1"
    using run1(2) by (rule r_into_rtranclp)
  moreover have "cl_profiles cluster1 (key_of profile1) = Some (Default list_controllerutil profile1)"
    by (simp add: cluster1_def)
  ultimately show ?thesis
    using lifecycle_stored_admitted [OF list_controllerutil_laws _ run1(1)] by blast
qed

theorem lifecycle_protects_profiles_witness:
  "\<exists>k. cluster_step list_controllerutil list_of_set (=) cluster2 k \<and> cl_profiles k (key_of profile1) = None \<and>
     \<not> in_use cluster2 (key_of profile1)"
proof -
  define q where "q = (Default list_controllerutil profile1)\<lparr>DeletionTimestamp := Some 7\<rparr>"
  have q: "Finalizers q = [LandlockProfileFinalizer]" "deleting q" "key_of q = key_of profile1"
    by (simp_all add: q_def Default_def list_controllerutil_def profile1_def deleting_def key_of_def)
  then have there: "cl_profiles cluster2 (key_of profile1) = Some q"
    by (simp add: cluster2_def stored_def flip: q_def)
  have unused: "\<not> in_use cluster2 (key_of profile1)"
    by (simp add: in_use_def cluster2_def cluster1_def cluster0_def)
  let ?k = "patched list_controllerutil cluster2 q []"
  have "Reconcile list_controllerutil (direct_client list_controllerutil) (key_of profile1) cluster2 =
      (Inr \<lparr>RequeueAfter = None\<rparr>, ?k)"
    using there q unused filter_matches_Nil [of q cluster2]
    by (simp add: Reconcile_def handleDeletion_def direct_client_def attempt_def list_controllerutil_def
        deleting_def Let_def)
  then have step: "cluster_step list_controllerutil list_of_set (=) cluster2 ?k"
    by (rule cluster_step.reconcile [OF direct_client_laws])
  have gone: "cl_profiles ?k (key_of profile1) = None"
    using q by (simp add: patched_def stored_def deleting_def Default_def)
  have "(cluster_step list_controllerutil list_of_set (=))\<^sup>*\<^sup>* cluster0 cluster2" using run1(2,3) by simp
  from lifecycle_protects_profiles [OF list_controllerutil_laws this run1(1) step there gone] step gone q(1)
  show ?thesis by auto
qed

end
