(* ===== verification/Work_Queue.thy ===== *)
theory Work_Queue
  imports Lifecycle
begin

text \<open>
  When the reconciler runs: the queue controller-runtime keeps for it, filled by the watches that
  \<open>SetupWithManager\<close> registers (\<open>internal/controller\<close>). Its documented behaviour: a change of a profile
  queues its key, a change of a pod queues what the map function answers for the old and the new pod; a
  run takes a key from the queue, and the key comes back later after an error (\<open>ct_retry\<close>) or when the
  run asks for it (\<open>ct_later\<close>). No deletion is ever forgotten, and the queue empties. The cluster here is the one
  the caches show, whose changes are what the watches report: a run that works on a key reads what is so
  in it (\<open>cluster_laws\<close>). What else changes the cluster is any step of \<open>Lifecycle\<close>, with any \<open>past\<close>.
\<close>

section \<open>The queue\<close>

record control =
  ct_cluster :: cluster
  ct_queue :: "NamespacedName set"
  ct_retry :: "NamespacedName set"
  ct_later :: "NamespacedName set"

text \<open>The keys that a change of the cluster queues, under a registration.\<close>

definition changed_profiles :: "cluster \<Rightarrow> cluster \<Rightarrow> NamespacedName set" where
  "changed_profiles k k' = {nn. cl_profiles k' nn \<noteq> cl_profiles k nn}"

definition changed_pods :: "cluster \<Rightarrow> cluster \<Rightarrow> Pod set" where
  "changed_pods k k' = (set (cl_pods k) - set (cl_pods k')) \<union> (set (cl_pods k') - set (cl_pods k))"

definition wakes :: "registration \<Rightarrow> cluster \<Rightarrow> cluster \<Rightarrow> NamespacedName set" where
  "wakes reg k k' = changed_profiles k k' \<union> (\<Union>pod \<in> changed_pods k k'. set (reg_Map reg pod))"

text \<open>What becomes of a key after a run.\<close>

definition again :: "ctrl_Result result \<Rightarrow> NamespacedName \<Rightarrow> control \<Rightarrow> control" where
  "again x nn c =
     (case x of
        Inl e \<Rightarrow> c\<lparr>ct_retry := insert nn (ct_retry c)\<rparr>
      | Inr res \<Rightarrow>
          (case RequeueAfter res of
             Some delay \<Rightarrow> c\<lparr>ct_later := insert nn (ct_later c)\<rparr>
           | None \<Rightarrow> c))"

definition change :: "cluster \<Rightarrow> control \<Rightarrow> control" where
  "change k' c = c\<lparr>ct_cluster := k',
     ct_queue := ct_queue c \<union> wakes controller_registration (ct_cluster c) k'\<rparr>"

text \<open>The steps: the cluster changes by itself, a key is worked on, a delay is over.\<close>

inductive control_step ::
  "controllerutil \<Rightarrow> (string set \<Rightarrow> string list) \<Rightarrow> (cluster \<Rightarrow> cluster \<Rightarrow> bool) \<Rightarrow> control \<Rightarrow> control \<Rightarrow> bool"
  for cu :: controllerutil and sets_List :: "string set \<Rightarrow> string list" and past :: "cluster \<Rightarrow> cluster \<Rightarrow> bool" where
  world: "cluster_step cu sets_List past (ct_cluster c) k' \<Longrightarrow> control_step cu sets_List past c (change k' c)"
| work: "nn \<in> ct_queue c \<Longrightarrow> cluster_laws r (\<lambda>k. k) \<Longrightarrow> Reconcile cu r nn (ct_cluster c) = (x, k') \<Longrightarrow>
     control_step cu sets_List past c (change k' (again x nn (c\<lparr>ct_queue := ct_queue c - {nn}\<rparr>)))"
| retry: "nn \<in> ct_retry c \<Longrightarrow>
     control_step cu sets_List past c (c\<lparr>ct_queue := insert nn (ct_queue c), ct_retry := ct_retry c - {nn}\<rparr>)"
| later: "nn \<in> ct_later c \<Longrightarrow>
     control_step cu sets_List past c (c\<lparr>ct_queue := insert nn (ct_queue c), ct_later := ct_later c - {nn}\<rparr>)"

inductive_cases control_stepE: "control_step cu sl past c c'"

text \<open>The invariant: a waiting profile is queued or to be retried, and only one in use may be put off.\<close>

definition control_inv :: "control \<Rightarrow> bool" where
  "control_inv c \<longleftrightarrow> cluster_inv (ct_cluster c) \<and> finite (dom (cl_profiles (ct_cluster c))) \<and>
     finite (ct_queue c) \<and> finite (ct_retry c) \<and>
     (\<forall>nn. waits (ct_cluster c) nn \<longrightarrow>
        nn \<in> ct_queue c \<union> ct_retry c \<or> in_use (ct_cluster c) nn \<and> nn \<in> ct_later c)"

section \<open>Changes wake the reconciler\<close>

lemma wakes_profile: "cl_profiles k' nn \<noteq> cl_profiles k nn \<Longrightarrow> nn \<in> wakes reg k k'"
  by (simp add: wakes_def changed_profiles_def)

lemma wakes_unused:
  assumes "in_use k nn" "\<not> in_use k' nn"
  shows "nn \<in> wakes controller_registration k k'"
proof -
  obtain pod where pod: "pod \<in> set (cl_pods k)" "pod_matches (nn_namespace nn) (PodProfileLabel, nn_name nn) pod"
    using assms(1) by (auto simp: in_use_def)
  then have "pod \<in> changed_pods k k'" using assms(2) by (auto simp: in_use_def changed_pods_def)
  moreover have "nn \<in> set (findProfilesForPod pod)"
    using pod(2) pod_watch_matches_users [of "nn_namespace nn" "nn_name nn" pod] by (cases nn) simp
  ultimately show ?thesis by (auto simp: wakes_def controller_registration_def)
qed

lemma finite_wakes:
  assumes "finite (dom (cl_profiles k))" "finite (dom (cl_profiles k'))"
  shows "finite (wakes reg k k')"
proof -
  have "changed_profiles k k' \<subseteq> dom (cl_profiles k) \<union> dom (cl_profiles k')"
    by (auto simp: changed_profiles_def dom_def intro: ccontr)
  then have "finite (changed_profiles k k')" using assms finite_subset by blast
  then show ?thesis by (simp add: wakes_def changed_pods_def)
qed

text \<open>Of a change, the waiting profiles that are not woken were waiting before, and as much in use.\<close>

lemma waits_change:
  assumes "nn \<notin> wakes controller_registration k k'"
  shows "waits k' nn \<longleftrightarrow> waits k nn" "in_use k nn \<Longrightarrow> in_use k' nn"
proof -
  have "cl_profiles k' nn = cl_profiles k nn" using assms wakes_profile by blast
  then show "waits k' nn \<longleftrightarrow> waits k nn" by (simp add: waits_def)
qed (use assms wakes_unused in blast)

lemma finite_put: "finite (dom m) \<Longrightarrow> finite (dom (m(nn := v)))"
  by (rule finite_subset [of _ "insert nn (dom m)"]) (auto split: if_splits)

lemma cluster_step_finite:
  assumes "finalizer_laws cu" "cluster_step cu sl past k k'" "finite (dom (cl_profiles k))"
  shows "finite (dom (cl_profiles k'))"
  using assms(2)
proof cases
  case (reconcile r nn x)
  from reconcile(1) assms(1) reconcile(2) show ?thesis
    by (cases rule: reconcile_step) (use assms(3) finite_put in \<open>simp_all add: patched_def\<close>)
qed (use finite_put assms(3) in simp_all)

text \<open>A run on what is so is one of the runs of the cluster.\<close>

lemma exact_run_keeps:
  assumes "cluster_laws r (\<lambda>k. k)" "finalizer_laws cu" "Reconcile cu r nn k = (x, k')"
    and inv: "cluster_inv k" and fin: "finite (dom (cl_profiles k))"
  shows "cluster_inv k'" "finite (dom (cl_profiles k'))"
proof -
  have "k' = k \<or> (\<exists>q fs. cl_profiles k nn = Some q \<and> k' = patched cu k q fs)"
    using assms(1-3)
  proof (cases rule: Reconcile_outcomes)
    case (4 p)
    then have "k' = patched cu k p (cu_remove cu (Finalizers p) LandlockProfileFinalizer)"
      by (simp add: released_def patched_def Default_deleting deleting_def)
    then show ?thesis using 4(1) by blast
  qed simp_all
  then show "cluster_inv k'" "finite (dom (cl_profiles k'))"
    using inv fin patched_inv [OF assms(2) inv] finite_put by (auto simp: patched_def)
qed

text \<open>A run on a key: the key no longer waits, or it comes back.\<close>

lemma again_fields [simp]:
  "ct_cluster (again x nn c) = ct_cluster c" "ct_queue (again x nn c) = ct_queue c"
  "ct_retry (again (Inr res) nn c) = ct_retry c"
  by (simp_all add: again_def split: sum.splits option.splits)

lemma again_mono: "ct_retry c \<subseteq> ct_retry (again x nn c)" "ct_later c \<subseteq> ct_later (again x nn c)"
  "finite (ct_retry c) \<Longrightarrow> finite (ct_retry (again x nn c))"
  by (auto simp: again_def split: sum.splits option.splits)

lemma change_fields [simp]:
  "ct_cluster (change k' c) = k'" "ct_retry (change k' c) = ct_retry c" "ct_later (change k' c) = ct_later c"
  "ct_queue (change k' c) = ct_queue c \<union> wakes controller_registration (ct_cluster c) k'"
  by (simp_all add: change_def)

lemma waits_released:
  assumes "finalizer_laws cu" "key_of p = nn"
  shows "\<not> waits (released cu k p) nn"
  using assms finalizer_lawsD(3) [OF assms(1)]
  by (auto simp: waits_def released_def stored_def split: if_splits)

lemma worked_key:
  assumes "cluster_laws r (\<lambda>k. k)" "finalizer_laws cu" "Reconcile cu r nn k = (x, k')" "waits k' nn"
  shows "nn \<in> ct_retry (again x nn c) \<or> in_use k' nn \<and> nn \<in> ct_later (again x nn c)"
  using assms(1-3)
proof (cases rule: Reconcile_outcomes)
  case (4 p)
  then show ?thesis using assms(4) waits_released [OF assms(2)] by simp
qed (use assms(4) in \<open>auto simp: again_def waits_def\<close>)

lemma control_step_inv:
  assumes fl: "finalizer_laws cu" and step: "control_step cu sl past c c'" and inv: "control_inv c"
  shows "control_inv c'"
  using step
proof cases
  case (world k')
  then show ?thesis
    using inv cluster_step_inv [OF fl world(2)] cluster_step_finite [OF fl world(2)] waits_change finite_wakes
    by (auto simp: control_inv_def)
next
  case (work nn r x k')
  have keep: "cluster_inv k'" "finite (dom (cl_profiles k'))"
    using exact_run_keeps [OF work(3) fl work(4)] inv by (simp_all add: control_inv_def)
  have "n \<in> ct_queue c' \<union> ct_retry c' \<or> in_use k' n \<and> n \<in> ct_later c'" if "waits k' n" for n
  proof (cases "n = nn")
    case True
    then show ?thesis using worked_key [OF work(3) fl work(4)] that by (auto simp: work(1))
  next
    case False
    show ?thesis
    proof (cases "n \<in> wakes controller_registration (ct_cluster c) k'")
      case True
      then show ?thesis by (simp add: work(1))
    next
      case unwoken: False
      then have "waits (ct_cluster c) n" "in_use (ct_cluster c) n \<Longrightarrow> in_use k' n"
        using that waits_change by blast+
      then show ?thesis
        using inv False again_mono(1,2) [of "c\<lparr>ct_queue := ct_queue c - {nn}\<rparr>"]
        by (fastforce simp: control_inv_def work(1))
    qed
  qed
  then show ?thesis
    using inv keep finite_wakes again_mono(3) by (simp add: control_inv_def work(1))
qed (use inv in \<open>auto simp: control_inv_def\<close>)

lemma control_reachable_inv:
  "(control_step cu sl past)\<^sup>*\<^sup>* c0 c \<Longrightarrow> finalizer_laws cu \<Longrightarrow> control_inv c0 \<Longrightarrow> control_inv c"
  by (induction rule: rtranclp_induct) (auto intro: control_step_inv)

section \<open>Without errors the queue empties\<close>

text \<open>Runs that report success, and retries that are due; nothing else happens to the cluster.\<close>

inductive quiet_step :: "controllerutil \<Rightarrow> control \<Rightarrow> control \<Rightarrow> bool"
  for cu :: controllerutil where
  work: "nn \<in> ct_queue c \<Longrightarrow> cluster_laws r (\<lambda>k. k) \<Longrightarrow> Reconcile cu r nn (ct_cluster c) = (Inr res, k') \<Longrightarrow>
     quiet_step cu c (change k' (again (Inr res) nn (c\<lparr>ct_queue := ct_queue c - {nn}\<rparr>)))"
| retry: "nn \<in> ct_retry c \<Longrightarrow>
     quiet_step cu c (c\<lparr>ct_queue := insert nn (ct_queue c), ct_retry := ct_retry c - {nn}\<rparr>)"

lemma quiet_control: "quiet_step cu c c' \<Longrightarrow> control_step cu sl past c c'"
  by (erule quiet_step.cases) (auto intro: control_step.work control_step.retry)

text \<open>A bound on the steps left.\<close>

definition work_left :: "control \<Rightarrow> nat" where
  "work_left c = 2 * card {nn. waits (ct_cluster c) nn} + 2 * card (ct_retry c) + card (ct_queue c)"

lemma finite_waits: "finite (dom (cl_profiles k)) \<Longrightarrow> finite {nn. waits k nn}"
  by (rule finite_subset [of _ "dom (cl_profiles k)"]) (auto simp: waits_def)

lemma wakes_same [simp]: "wakes reg k k = {}"
  by (simp add: wakes_def changed_profiles_def changed_pods_def)

lemma released_facts:
  assumes "key_of p = nn"
  shows "wakes reg k (released cu k p) \<subseteq> {nn}" "cl_pods (released cu k p) = cl_pods k"
    "n \<noteq> nn \<Longrightarrow> waits (released cu k p) n = waits k n"
  using assms by (auto simp: wakes_def changed_profiles_def changed_pods_def released_def waits_def split: if_splits)

lemma quiet_step_progress:
  assumes fl: "finalizer_laws cu" and step: "quiet_step cu c c'" and inv: "control_inv c"
  shows "work_left c' < work_left c" "cl_pods (ct_cluster c') = cl_pods (ct_cluster c)"
proof -
  have fin: "finite {nn. waits (ct_cluster c) nn}" "finite (ct_queue c)" "finite (ct_retry c)"
    using inv finite_waits by (auto simp: control_inv_def)
  have "work_left c' < work_left c \<and> cl_pods (ct_cluster c') = cl_pods (ct_cluster c)"
    using step
  proof cases
    case (work nn r res k')
    have less: "card (ct_queue c - {nn}) < card (ct_queue c)" using fin(2) work(2) by (rule card_Diff1_less)
    from work(3) fl work(4) show ?thesis
    proof (cases rule: Reconcile_outcomes)
      case (4 p)
      have waits: "{n. waits k' n} = {n. waits (ct_cluster c) n} - {nn}"
      proof (rule set_eqI)
        fix n
        show "n \<in> {n. waits k' n} \<longleftrightarrow> n \<in> {n. waits (ct_cluster c) n} - {nn}"
          using 4(6) waits_released [OF fl 4(2)] released_facts(3) [OF 4(2)] by (cases "n = nn") simp_all
      qed
      have "nn \<in> {n. waits (ct_cluster c) n}" using 4(1,3,4) by (simp add: waits_def)
      then have "card {n. waits k' n} < card {n. waits (ct_cluster c) n}"
        unfolding waits using fin(1) by (rule card_Diff1_less [rotated -1])
      moreover have "card (ct_queue c') \<le> card (ct_queue c)"
        using 4(6) released_facts(1) [OF 4(2), of controller_registration "ct_cluster c" cu] work(2) fin(2)
        by (intro card_mono) (auto simp: work(1))
      ultimately show ?thesis
        using 4(6) released_facts(2) [OF 4(2)] by (simp add: work_left_def work(1))
    qed (use less in \<open>simp_all add: work_left_def work(1)\<close>)
  next
    case (retry nn)
    have "card (ct_retry c - {nn}) < card (ct_retry c)" using fin(3) retry(2) by (rule card_Diff1_less)
    moreover have "card (insert nn (ct_queue c)) \<le> Suc (card (ct_queue c))" by (rule card_insert_le_m1) simp_all
    ultimately show ?thesis by (simp add: work_left_def retry(1))
  qed
  then show "work_left c' < work_left c" "cl_pods (ct_cluster c') = cl_pods (ct_cluster c)" by simp_all
qed

lemma quiet_idle: "ct_queue c = {} \<Longrightarrow> ct_retry c = {} \<Longrightarrow> \<not> quiet_step cu c c'"
  by (auto elim: quiet_step.cases)

text \<open>A client whose calls succeed always gets a run to its end.\<close>

lemma cluster_client_run:
  assumes "cluster_inv k"
  shows "\<exists>res k'. Reconcile cu cluster_client nn k = (Inr res, k')"
proof (cases "cl_profiles k nn")
  case None
  then show ?thesis by (simp add: Reconcile_def cluster_client_def)
next
  case (Some p)
  then have "key_of p = nn" using cluster_invD [OF assms] by (simp add: profile_inv_def)
  then show ?thesis
    using Some by (auto simp: Reconcile_def handleDeletion_def cluster_client_def attempt_def Let_def)
qed

lemma quiet_stuck:
  assumes "control_inv c" "\<And>c'. \<not> quiet_step cu c c'"
  shows "ct_queue c = {}" "ct_retry c = {}"
proof -
  show "ct_queue c = {}"
  proof (rule ccontr)
    assume "ct_queue c \<noteq> {}"
    then obtain nn where nn: "nn \<in> ct_queue c" by blast
    obtain res k' where "Reconcile cu cluster_client nn (ct_cluster c) = (Inr res, k')"
      using cluster_client_run [of "ct_cluster c" cu nn] assms(1) by (auto simp: control_inv_def)
    from quiet_step.work [OF nn cluster_client_laws this] assms(2) show False by blast
  qed
  show "ct_retry c = {}" using quiet_step.retry [of _ c cu] assms(2) by blast
qed

text \<open>When the manager starts, the watches list every profile.\<close>

definition started :: "cluster \<Rightarrow> control" where
  "started k = \<lparr>ct_cluster = k, ct_queue = dom (cl_profiles k), ct_retry = {}, ct_later = {}\<rparr>"

lemma started_inv: "cluster_inv k \<Longrightarrow> finite (dom (cl_profiles k)) \<Longrightarrow> control_inv (started k)"
  by (auto simp: control_inv_def started_def waits_def)

section \<open>Properties\<close>

text \<open>C16: The controller forgets no deletion. From the start of the manager on a sound cluster, whatever
  users and pods do and whichever runs fail, a profile that is being deleted under PodLock's finalizer
  is queued or to be retried as soon as no pod uses it; the 90 s delay is only ever waited for while a
  pod uses the profile, since the watch on pods wakes the reconciler when the last one goes.\<close>

theorem controller_never_forgets:
  assumes "finalizer_laws cu" "cluster_inv k0" "finite (dom (cl_profiles k0))"
    and "(control_step cu sets_List past)\<^sup>*\<^sup>* (started k0) c" "waits (ct_cluster c) nn"
  shows "nn \<in> ct_queue c \<union> ct_retry c \<or> in_use (ct_cluster c) nn \<and> nn \<in> ct_later c"
  using control_reachable_inv [OF assms(4,1) started_inv [OF assms(2,3)]] assms(5)
  by (simp add: control_inv_def)

text \<open>C17: The queue empties. In any state the controller can get into, when the cluster does not change
  and the calls of the client succeed, the controller stops after at most \<open>work_left\<close> runs and retries
  (two for every profile that waits and for every retry, one for every queued key); and where it stops,
  every profile that still waits for PodLock is in use by a pod.\<close>

theorem controller_drains:
  assumes "finalizer_laws cu" "cluster_inv k0" "finite (dom (cl_profiles k0))"
    and "(control_step cu sets_List past)\<^sup>*\<^sup>* (started k0) c" "(quiet_step cu ^^ n) c c'"
  shows "n \<le> work_left c \<and>
    ((\<forall>c''. \<not> quiet_step cu c' c'') \<longrightarrow> (\<forall>nn. waits (ct_cluster c') nn \<longrightarrow> in_use (ct_cluster c) nn))"
proof -
  have inv: "control_inv c" by (rule control_reachable_inv [OF assms(4,1) started_inv [OF assms(2,3)]])
  from assms(5) have run: "n + work_left c' \<le> work_left c \<and> control_inv c' \<and>
      cl_pods (ct_cluster c') = cl_pods (ct_cluster c)"
  proof (induction n arbitrary: c')
    case (Suc n)
    then obtain d where d: "(quiet_step cu ^^ n) c d" "quiet_step cu d c'" by auto
    from Suc.IH [OF d(1)] have IH: "n + work_left d \<le> work_left c" "control_inv d"
      "cl_pods (ct_cluster d) = cl_pods (ct_cluster c)" by blast+
    then show ?case
      using quiet_step_progress [OF assms(1) d(2)] control_step_inv [OF assms(1) quiet_control [OF d(2)]] by auto
  qed (use inv in simp)
  have "in_use (ct_cluster c) nn" if "\<And>c''. \<not> quiet_step cu c' c''" "waits (ct_cluster c') nn" for nn
    using quiet_stuck [OF conjunct1 [OF conjunct2 [OF run]] that(1)] run that(2)
    by (auto simp: control_inv_def in_use_def)
  then show ?thesis using run by auto
qed

text \<open>For the witnesses: a profile in use is put off; its pod goes; it is released; and then left alone.\<close>

abbreviation web_key :: NamespacedName where "web_key \<equiv> key_of deleting0"

definition released0 :: cluster where
  "released0 = released list_controllerutil cluster_unused deleting0"

lemma clusters0:
  "cluster_inv cluster_in_use" "finite (dom (cl_profiles cluster_in_use))"
  "cluster_inv cluster_unused" "finite (dom (cl_profiles cluster_unused))" "waits cluster_unused web_key"
proof -
  have "profile_ok deleting0" by (simp add: profile_ok_def binary_profiles_def deleting0_def)
  moreover have "deleting deleting0" by (simp add: deleting_def deleting0_def)
  ultimately show "cluster_inv cluster_in_use" "cluster_inv cluster_unused"
    by (simp_all add: cluster_inv_def profile_inv_def cluster_in_use_def cluster_unused_def)
  show "finite (dom (cl_profiles cluster_in_use))" "finite (dom (cl_profiles cluster_unused))"
    by (simp_all add: cluster_in_use_def cluster_unused_def)
  show "waits cluster_unused web_key"
    by (simp add: waits_def cluster_unused_def cluster_in_use_def) (simp add: deleting_def deleting0_def)
qed

lemma runs0:
  "Reconcile list_controllerutil cluster_client web_key cluster_in_use = (Inr \<lparr>RequeueAfter = Some 90\<rparr>, cluster_in_use)"
  "Reconcile list_controllerutil cluster_client web_key cluster_unused = (Inr \<lparr>RequeueAfter = None\<rparr>, released0)"
  "Reconcile list_controllerutil cluster_client web_key released0 = (Inr \<lparr>RequeueAfter = None\<rparr>, released0)"
proof -
  have there: "cl_profiles cluster_in_use web_key = Some deleting0" "cl_profiles cluster_unused web_key = Some deleting0"
    by (simp_all add: cluster_in_use_def cluster_unused_def)
  have p: "deleting deleting0" "LandlockProfileFinalizer \<in> set (Finalizers deleting0)"
    by (simp_all add: deleting_def deleting0_def)
  have "filter (pod_matches (Namespace deleting0) (PodProfileLabel, Name deleting0)) (cl_pods cluster_in_use) \<noteq> []"
    using in_use0(1) filter_matches_Nil by metis
  then show "Reconcile list_controllerutil cluster_client web_key cluster_in_use = (Inr \<lparr>RequeueAfter = Some 90\<rparr>, cluster_in_use)"
    using there p by (simp add: Reconcile_def handleDeletion_def cluster_client_def attempt_def
        deleting_def list_controllerutil_def)
  show "Reconcile list_controllerutil cluster_client web_key cluster_unused = (Inr \<lparr>RequeueAfter = None\<rparr>, released0)"
    unfolding released0_def
    by (rule cluster_client_releases [OF list_controllerutil_laws there(2) refl p in_use0(2)])
  let ?q = "deleting0\<lparr>Finalizers := [''other'']\<rparr>"
  have "cu_remove list_controllerutil (Finalizers deleting0) LandlockProfileFinalizer = [''other'']"
    by (simp add: list_controllerutil_def deleting0_def LandlockProfileFinalizer_def)
  then have "cl_profiles released0 web_key = Some ?q" by (simp add: released0_def released_def stored_def)
  moreover have "\<not> cu_contains list_controllerutil (Finalizers ?q) LandlockProfileFinalizer"
    by (simp add: list_controllerutil_def LandlockProfileFinalizer_def)
  ultimately show "Reconcile list_controllerutil cluster_client web_key released0 = (Inr \<lparr>RequeueAfter = None\<rparr>, released0)"
    by (simp add: Reconcile_def handleDeletion_def cluster_client_def)
qed

theorem controller_never_forgets_witness:
  "\<exists>c. (control_step list_controllerutil list_of_set (=))\<^sup>*\<^sup>* (started cluster_in_use) c \<and>
     ct_later c = {web_key} \<and> ct_cluster c = cluster_unused \<and> web_key \<in> ct_queue c \<union> ct_retry c"
proof -
  let ?c0 = "started cluster_in_use"
  let ?c1 = "change cluster_in_use (again (Inr \<lparr>RequeueAfter = Some 90\<rparr>) web_key (?c0\<lparr>ct_queue := ct_queue ?c0 - {web_key}\<rparr>))"
  let ?c2 = "change cluster_unused ?c1"
  have "web_key \<in> ct_queue ?c0" by (simp add: started_def cluster_in_use_def)
  then have "control_step list_controllerutil list_of_set (=) ?c0 ?c1"
    by (rule control_step.work [OF _ cluster_client_laws]) (simp add: started_def runs0(1))
  moreover have "control_step list_controllerutil list_of_set (=) ?c1 ?c2"
    using cluster_step.pods [of list_controllerutil list_of_set "(=)" cluster_in_use "[]"]
    by (intro control_step.world) (simp add: cluster_unused_def)
  ultimately have reach: "(control_step list_controllerutil list_of_set (=))\<^sup>*\<^sup>* ?c0 ?c2" by simp
  have "waits (ct_cluster ?c2) web_key" using clusters0(5) by simp
  from controller_never_forgets [OF list_controllerutil_laws clusters0(1,2) reach this] in_use0(2)
  have "web_key \<in> ct_queue ?c2 \<union> ct_retry ?c2" by auto
  moreover have "ct_later ?c2 = {web_key}" by (simp add: again_def started_def)
  ultimately show ?thesis using reach by (metis change_fields(1))
qed

theorem controller_drains_witness:
  "\<exists>c'. (quiet_step list_controllerutil ^^ 2) (started cluster_unused) c' \<and> 2 \<le> work_left (started cluster_unused) \<and>
     \<not> waits (ct_cluster c') web_key"
proof -
  let ?c0 = "started cluster_unused"
  let ?after = "\<lambda>k c. change k (again (Inr \<lparr>RequeueAfter = None\<rparr>) web_key (c\<lparr>ct_queue := ct_queue c - {web_key}\<rparr>))"
  let ?c1 = "?after released0 ?c0" and ?c2 = "?after released0 (?after released0 ?c0)"
  have q0: "ct_queue ?c0 = {web_key}" by (simp add: started_def cluster_unused_def cluster_in_use_def)
  have "\<not> waits released0 web_key"
    using waits_released [OF list_controllerutil_laws refl, of cluster_unused deleting0] by (simp add: released0_def)
  then have changed: "cl_profiles released0 web_key \<noteq> cl_profiles cluster_unused web_key"
    using clusters0(5) by (auto simp: waits_def)
  have wakes: "wakes controller_registration cluster_unused released0 = {web_key}"
    using released_facts(1) [of deleting0 web_key controller_registration cluster_unused list_controllerutil]
      wakes_profile [OF changed] by (auto simp: released0_def)
  have c0: "ct_cluster ?c0 = cluster_unused" by (simp add: started_def)
  have q1: "ct_queue ?c1 = {web_key}" by (simp add: q0 wakes c0)
  have "quiet_step list_controllerutil ?c0 ?c1"
    by (rule quiet_step.work [OF _ cluster_client_laws]) (simp_all add: q0 c0 runs0(2))
  moreover have "quiet_step list_controllerutil ?c1 ?c2"
    by (rule quiet_step.work [OF _ cluster_client_laws]) (simp_all add: q1 runs0(3) del: change_fields(4))
  ultimately have run: "(quiet_step list_controllerutil ^^ 2) ?c0 ?c2"
    by (auto simp: numeral_2_eq_2)
  have "ct_queue ?c2 = {}" using q1 by (simp add: c0)
  moreover have "ct_retry ?c2 = {}" by (simp add: started_def)
  ultimately have "\<not> quiet_step list_controllerutil ?c2 c''" for c'' by (rule quiet_idle)
  then have "2 \<le> work_left ?c0 \<and> (\<forall>nn. waits (ct_cluster ?c2) nn \<longrightarrow> in_use cluster_unused nn)"
    using controller_drains [OF list_controllerutil_laws clusters0(3,4) rtranclp.rtrancl_refl run] c0 by metis
  then show ?thesis using run in_use0(2) by blast
qed

end
