(* ===== verification/Reconcile_Race.thy ===== *)
theory Reconcile_Race
  imports Lifecycle
begin

text \<open>
  A run of the reconciler among the others. \<open>Lifecycle\<close> takes a run as one step; here users, pods and other
  runs may act between its calls: before it reads the profile, before it lists the pods and before its
  patch takes effect, which no version of the object guards. And the client of a manager answers reads from
  a cache that follows the cluster at a distance. What is left of the promise that a profile is not
  deleted while pods use it, and what is not.
\<close>

text \<open>Others move the cluster by any steps, with clients whose reads \<open>past\<close> describes.\<close>

abbreviation moves ::
  "controllerutil \<Rightarrow> (string set \<Rightarrow> string list) \<Rightarrow> (cluster \<Rightarrow> cluster \<Rightarrow> bool) \<Rightarrow> cluster \<Rightarrow> cluster \<Rightarrow> bool" where
  "moves cu sl past \<equiv> (cluster_step cu sl past)\<^sup>*\<^sup>*"

section \<open>Properties\<close>

text \<open>C15: What a run may do when users, pods and other runs act between its calls and its reads are answered
  from a cache. It keeps the invariant of the cluster, with admitted and protected profiles only, even
  when its patch comes late. And either it changed nothing itself, or the cluster was in three states in this
  order: in the first, as far as the client could tell, the profile was waiting for PodLock, in the
  second, as far as the client could tell, no pod used it, and in the third the run's patch took effect on it, which
  changed no other profile and no pod and dropped it only if it was being deleted then. What the client can
  tell is not what is so: in the witness a profile that a pod uses from the start of the run to its end
  is dropped, since the cache of pods does not have the pod yet.\<close>

theorem interleaved_run_safe:
  assumes "finalizer_laws cu" "moving_laws cu r view (moves cu sets_List past') past" "cluster_inv (view s)"
    and "Reconcile cu r nn s = (x, s')"
  shows "cluster_inv (view s') \<and>
    (moves cu sets_List past' (view s) (view s') \<or>
     (\<exists>k1 a1 k2 a2 k3. moves cu sets_List past' (view s) a1 \<and> past k1 a1 \<and> waits k1 nn \<and>
        moves cu sets_List past' a1 a2 \<and> past k2 a2 \<and> \<not> in_use k2 nn \<and>
        moves cu sets_List past' a2 k3 \<and> cl_pods (view s') = cl_pods k3 \<and>
        (\<forall>nn'. nn' \<noteq> nn \<longrightarrow> cl_profiles (view s') nn' = cl_profiles k3 nn') \<and>
        (cl_profiles (view s') nn = None \<longrightarrow> (\<exists>q. cl_profiles k3 nn = Some q \<and> deleting q))))"
proof (rule Reconcile_moments [OF assms(2,1) _ _ assms(4)])
  assume 1: "moves cu sets_List past' (view s) (view s')"
  then show ?thesis using cluster_reachable_inv [OF 1 assms(1,3)] by blast
next
  fix k1 a1 k2 a2 k3 q fs
  assume 2: "moves cu sets_List past' (view s) a1" "past k1 a1" "waits k1 nn"
    "moves cu sets_List past' a1 a2" "past k2 a2" "\<not> in_use k2 nn"
    "moves cu sets_List past' a2 k3" "cl_profiles k3 nn = Some q" "view s' = patched cu k3 q fs"
  have "moves cu sets_List past' (view s) k3" using 2(1,4,7) by (meson rtranclp_trans)
  then have inv: "cluster_inv k3" by (rule cluster_reachable_inv [OF _ assms(1,3)])
  then have key: "key_of q = nn" using cluster_invD [OF inv 2(8)] by (simp add: profile_inv_def)
  have "cluster_inv (view s')" unfolding 2(9) by (rule patched_inv [OF assms(1) inv 2(8)])
  moreover have "cl_profiles (view s') nn' = cl_profiles k3 nn'" if "nn' \<noteq> nn" for nn'
    using patched_facts(1) that by (simp add: 2(9) key)
  moreover have "cl_profiles (view s') nn = None \<Longrightarrow> deleting q" using patched_facts(3) by (simp add: 2(9) flip: key)
  ultimately show ?thesis using 2(1-8) patched_facts(2) by (metis 2(9))
qed simp_all

text \<open>For the witness: a client whose cache is a cluster, which has since only got other pods.\<close>

type_synonym cached = "cluster \<times> Pod list"

definition cached_view :: "cached \<Rightarrow> cluster" where
  "cached_view s = (fst s)\<lparr>cl_pods := snd s\<rparr>"

definition caching_client :: "controllerutil \<Rightarrow> cached kube_client" where
  "caching_client cu =
     \<lparr>kc_Get = (\<lambda>nn s.
        case cl_profiles (fst s) nn of
          Some p \<Rightarrow> (if key_of p = nn then Inr p else Inl (Errorf ''bad object''), s)
        | None \<Rightarrow> (Inl (Remote ''not found''), s)),
      kc_List = (\<lambda>ns label s. (Inr (filter (pod_matches ns label) (cl_pods (fst s))), s)),
      kc_Patch = (\<lambda>p p0 s.
        case cl_profiles (fst s) (key_of p) of
          Some q \<Rightarrow> (Inr (), (patched cu (cached_view s) q (Finalizers p), snd s))
        | None \<Rightarrow> (Inl (Remote ''not found''), s)),
      kc_IsNotFound = (\<lambda>e. e = Remote ''not found'')\<rparr>"

lemma cached_moves: "moves cu sl past' (fst s) (cached_view s)"
  unfolding cached_view_def using cluster_step.pods by (rule r_into_rtranclp)

lemma caching_client_laws: "moving_laws cu (caching_client cu) cached_view (moves cu sl past') (moves cu sl past')"
  unfolding moving_laws_def
proof (intro conjI allI impI)
  fix nn s x s' assume get: "kc_Get (caching_client cu) nn s = (x, s')"
  show "moves cu sl past' (cached_view s) (cached_view s')"
    using get by (auto simp: caching_client_def split: option.splits if_splits)
  have "s' = s" "case x of
           Inl e \<Rightarrow> kc_IsNotFound (caching_client cu) e \<longrightarrow> cl_profiles (fst s) nn = None
         | Inr p \<Rightarrow> cl_profiles (fst s) nn = Some p \<and> key_of p = nn"
    using get by (auto simp: caching_client_def split: option.splits if_splits)
  then show "\<exists>k. moves cu sl past' k (cached_view s') \<and> (case x of
           Inl e \<Rightarrow> kc_IsNotFound (caching_client cu) e \<longrightarrow> cl_profiles k nn = None
         | Inr p \<Rightarrow> cl_profiles k nn = Some p \<and> key_of p = nn)"
    using cached_moves by blast
next
  fix ns label s x s' assume list: "kc_List (caching_client cu) ns label s = (x, s')"
  then have "s' = s" "x = Inr (filter (pod_matches ns label) (cl_pods (fst s)))"
    by (auto simp: caching_client_def)
  then show "moves cu sl past' (cached_view s) (cached_view s')"
    "\<exists>k. moves cu sl past' k (cached_view s') \<and>
       (case x of Inl e \<Rightarrow> True | Inr pods \<Rightarrow> pods = filter (pod_matches ns label) (cl_pods k))"
    using cached_moves [of cu sl past' s] by auto
next
  fix p p0 s x s' assume patch: "kc_Patch (caching_client cu) p p0 s = (x, s')"
  show "case x of Inl e \<Rightarrow> moves cu sl past' (cached_view s) (cached_view s')
     | Inr u \<Rightarrow> \<exists>k q. moves cu sl past' (cached_view s) k \<and> cl_profiles k (key_of p) = Some q \<and>
         cached_view s' = patched cu k q (Finalizers p)"
  proof (cases "cl_profiles (fst s) (key_of p)")
    case None
    then show ?thesis using patch by (auto simp: caching_client_def)
  next
    case (Some q)
    then have "x = Inr ()" "s' = (patched cu (cached_view s) q (Finalizers p), snd s)"
      using patch by (auto simp: caching_client_def)
    moreover from this have "cached_view s' = patched cu (cached_view s) q (Finalizers p)"
      by (simp add: cached_view_def patched_def)
    moreover have "cl_profiles (cached_view s) (key_of p) = Some q" using Some by (simp add: cached_view_def)
    ultimately show ?thesis by auto
  qed
qed

definition racing0 :: LandlockProfile where
  "racing0 = deleting0\<lparr>Finalizers := [LandlockProfileFinalizer]\<rparr>"

definition cluster_racing :: cluster where
  "cluster_racing = \<lparr>cl_profiles = [key_of racing0 \<mapsto> racing0], cl_pods = []\<rparr>"

theorem interleaved_run_safe_witness:
  "\<exists>s'. Reconcile list_controllerutil (caching_client list_controllerutil) (key_of racing0)
       (cluster_racing, [pod_using]) = (Inr \<lparr>RequeueAfter = None\<rparr>, s') \<and>
     in_use (cached_view (cluster_racing, [pod_using])) (key_of racing0) \<and>
     cl_profiles (cached_view s') (key_of racing0) = None \<and> in_use (cached_view s') (key_of racing0) \<and>
     cluster_inv (cached_view s')"
proof -
  have fields: "Finalizers racing0 = [LandlockProfileFinalizer]" "DeletionTimestamp racing0 = Some 7" "deleting racing0"
    by (simp_all add: racing0_def deleting0_def deleting_def)
  let ?s = "(cluster_racing, [pod_using])"
  let ?s' = "(patched list_controllerutil (cached_view ?s) racing0 [], [pod_using])"
  have run: "Reconcile list_controllerutil (caching_client list_controllerutil) (key_of racing0) ?s =
      (Inr \<lparr>RequeueAfter = None\<rparr>, ?s')"
    using fields by (simp add: Reconcile_def handleDeletion_def caching_client_def attempt_def cluster_racing_def
        list_controllerutil_def Let_def)
  have "stored (Default list_controllerutil (racing0\<lparr>Finalizers := []\<rparr>)) = None"
    using fields by (simp add: stored_def Default_def deleting_def)
  then have gone: "cl_profiles (cached_view ?s') (key_of racing0) = None"
    by (simp add: cached_view_def patched_def)
  have "profile_ok racing0" by (simp add: profile_ok_def binary_profiles_def racing0_def deleting0_def)
  then have "cluster_inv (cached_view ?s)"
    using fields by (simp add: cluster_inv_def cached_view_def cluster_racing_def profile_inv_def)
  from interleaved_run_safe [OF list_controllerutil_laws caching_client_laws this run, of list_of_set "(=)"]
  have inv: "cluster_inv (cached_view ?s')" by simp
  have "in_use (cached_view ?s) (key_of racing0)" "in_use (cached_view ?s') (key_of racing0)"
    by (simp_all add: in_use_def cached_view_def pod_matches_def pod_using_def key_of_def racing0_def deleting0_def)
  with run gone inv show ?thesis by blast
qed

end
