(* ===== verification/Node_Label.thy ===== *)
theory Node_Label
  imports Api_Types Go_Process "HOL-Library.AList"
begin

text \<open>
  The feature detection of \<open>internal/nri/landlock.go\<close> and the node label of \<open>internal/nri/node.go\<close>.
  A node is an object of which the code touches the labels; the rest is the polymorphic part
  \<open>'r\<close> of the record. The client's \<open>Get\<close> and \<open>Update\<close> and client-go's \<open>retry.RetryOnConflict\<close> are
  parameters. \<open>node_laws\<close> is what they document: \<open>Get\<close> answers the stored node and changes nothing;
  a successful \<open>Update\<close> stores the node given, a failed one changes nothing, except that a conflict
  comes from another writer, who may have changed any node; and \<open>RetryOnConflict\<close> runs the function
  until it ends with something else than a conflict, or gives up with the last one.
\<close>

section \<open>landlock.go\<close>

text \<open>\<open>abi\<close> is the answer of the system call behind \<open>LandlockGetABIVersion\<close>.\<close>

definition DetectLandlockVersion :: "int result \<Rightarrow> int" where
  "DetectLandlockVersion abi = (case abi of Inl e \<Rightarrow> 0 | Inr version \<Rightarrow> version)"

section \<open>node.go\<close>

record ('r, 's) node_client =
  nc_Get :: "string \<Rightarrow> ('r ObjectMeta_scheme, 's) effect"
  nc_Update :: "'r ObjectMeta_scheme \<Rightarrow> (unit, 's) effect"
  nc_RetryOnConflict :: "(unit, 's) effect \<Rightarrow> (unit, 's) effect"
  nc_IsConflict :: "go_error \<Rightarrow> bool"

text \<open>\<open>%q\<close> of a name, kept without the escapes of characters no node name has.\<close>

definition dquote :: "string \<Rightarrow> string" where
  "dquote s = CHR 0x22 # s @ [CHR 0x22]"

text \<open>\<open>m[k] = v\<close> on a map that is not nil.\<close>

definition map_set :: "string \<Rightarrow> 'v \<Rightarrow> 'v go_map \<Rightarrow> 'v go_map" where
  "map_set k v m = Some (AList.update k v (entries m))"

text \<open>The function \<open>RetryOnConflict\<close> runs.\<close>

definition label_once :: "('r, 's) node_client \<Rightarrow> string \<Rightarrow> int \<Rightarrow> (unit, 's) effect" where
  "label_once c nodeName landlockVersion =
     attempt (nc_Get c nodeName) (Wrap (''failed to get node '' @ dquote nodeName @ '': ''))
       (\<lambda>node.
          let labels = (if Labels node = None then Some [] else Labels node);
              node' = node\<lparr>Labels := map_set LandlockVersionNodeLabelKey (Itoa landlockVersion) labels\<rparr>
          in nc_Update c node')"

definition LabelNodeWithLandlockVersion ::
  "('r, 's) node_client \<Rightarrow> string \<Rightarrow> int \<Rightarrow> (unit, 's) effect" where
  "LabelNodeWithLandlockVersion c nodeName landlockVersion =
     attempt (nc_RetryOnConflict c (label_once c nodeName landlockVersion))
         (Wrap (''failed to label node '' @ dquote nodeName @ '' with Landlock version: ''))
       return_ok"

lemma map_set_lookup [simp]: "lookup (map_set k v m) = (lookup m)(k \<mapsto> v)"
  by (simp add: map_set_def lookup_def update_conv' fun_eq_iff)

section \<open>What the client promises\<close>

type_synonym 'r nodes = "string \<Rightarrow> 'r ObjectMeta_scheme option"

definition node_get_law :: "('r, 's) node_client \<Rightarrow> ('s \<Rightarrow> 'r nodes) \<Rightarrow> bool" where
  "node_get_law c view \<longleftrightarrow>
     (\<forall>n s x s'. nc_Get c n s = (x, s') \<longrightarrow> view s' = view s \<and>
        (case x of Inl e \<Rightarrow> True | Inr node \<Rightarrow> view s n = Some node \<and> Name node = n))"

definition node_update_law :: "('r, 's) node_client \<Rightarrow> ('s \<Rightarrow> 'r nodes) \<Rightarrow> bool" where
  "node_update_law c view \<longleftrightarrow>
     (\<forall>node s x s'. nc_Update c node s = (x, s') \<longrightarrow>
        (case x of
           Inl e \<Rightarrow> nc_IsConflict c e \<or> view s' = view s
         | Inr u \<Rightarrow> view s' = (view s)(Name node \<mapsto> node)))"

definition conflict_run :: "('r, 's) node_client \<Rightarrow> (unit, 's) effect \<Rightarrow> 's \<Rightarrow> 's \<Rightarrow> bool" where
  "conflict_run c fn s s' \<longleftrightarrow> (\<exists>e. nc_IsConflict c e \<and> fn s = (Inl e, s'))"

definition retry_law :: "('r, 's) node_client \<Rightarrow> bool" where
  "retry_law c \<longleftrightarrow>
     (\<forall>fn s x s'. nc_RetryOnConflict c fn s = (x, s') \<longrightarrow>
        (\<exists>s0. (conflict_run c fn)\<^sup>*\<^sup>* s s0 \<and> fn s0 = (x, s')))"

definition node_laws :: "('r, 's) node_client \<Rightarrow> ('s \<Rightarrow> 'r nodes) \<Rightarrow> bool" where
  "node_laws c view \<longleftrightarrow> node_get_law c view \<and> node_update_law c view \<and> retry_law c"

text \<open>The node with its new label.\<close>

definition labelled :: "int \<Rightarrow> 'r ObjectMeta_scheme \<Rightarrow> 'r ObjectMeta_scheme" where
  "labelled v node = node\<lparr>Labels := map_set LandlockVersionNodeLabelKey (Itoa v) (Labels node)\<rparr>"

lemma labelled_simps [simp]:
  "Name (labelled v node) = Name node"
  "lookup (Labels (labelled v node)) = (lookup (Labels node))(LandlockVersionNodeLabelKey \<mapsto> Itoa v)"
  by (simp_all add: labelled_def)

lemma label_once_success:
  assumes laws: "node_laws c view" and run: "label_once c n v s = (Inr (), s')"
  obtains node where "view s n = Some node" "view s' = (view s)(n \<mapsto> labelled v node)"
  using run unfolding label_once_def
proof (cases rule: attempt_cases)
  case (continued node s1)
  then have got: "view s1 = view s" "view s n = Some node" "Name node = n"
    using laws unfolding node_laws_def node_get_law_def by fastforce+
  have "nc_Update c (labelled v node) s1 = (Inr (), s')"
    using continued(2) by (cases "Labels node") (simp_all add: labelled_def map_set_def Let_def)
  then have "view s' = (view s1)(Name (labelled v node) \<mapsto> labelled v node)"
    using laws unfolding node_laws_def node_update_law_def by fastforce
  then show thesis using got that by simp
qed simp

lemma label_node_success:
  assumes laws: "node_laws c view" and run: "LabelNodeWithLandlockVersion c n v s = (Inr (), s')"
  obtains s0 node where "(conflict_run c (label_once c n v))\<^sup>*\<^sup>* s s0" "view s0 n = Some node"
    "view s' = (view s0)(n \<mapsto> labelled v node)"
proof -
  have "nc_RetryOnConflict c (label_once c n v) s = (Inr (), s')"
    using run unfolding LabelNodeWithLandlockVersion_def by (cases rule: attempt_cases) auto
  then obtain s0 where s0: "(conflict_run c (label_once c n v))\<^sup>*\<^sup>* s s0" "label_once c n v s0 = (Inr (), s')"
    using laws unfolding node_laws_def retry_law_def by blast
  from laws s0(2) show thesis by (rule label_once_success) (use s0(1) that in blast)
qed

section \<open>A client that conflicts\<close>

text \<open>A client for the witnesses: its state holds the nodes and how many updates are still to conflict,
  and its retry runs a function at most five times.\<close>

fun retry_times :: "(go_error \<Rightarrow> bool) \<Rightarrow> nat \<Rightarrow> (unit, 's) effect \<Rightarrow> (unit, 's) effect" where
  "retry_times conflict 0 fn s = fn s"
| "retry_times conflict (Suc n) fn s =
     (case fn s of
        (Inl e, s') \<Rightarrow> if conflict e then retry_times conflict n fn s' else (Inl e, s')
      | (Inr u, s') \<Rightarrow> (Inr u, s'))"

definition busy_client :: "(unit, unit nodes \<times> nat) node_client" where
  "busy_client =
     \<lparr>nc_Get = (\<lambda>n s. case fst s n of
          Some node \<Rightarrow> (if Name node = n then Inr node else Inl (Errorf ''bad object''), s)
        | None \<Rightarrow> (Inl (Remote ''not found''), s)),
      nc_Update = (\<lambda>node s. if snd s = 0 then (Inr (), ((fst s)(Name node \<mapsto> node), 0))
          else (Inl (Remote ''conflict''), (fst s, snd s - 1))),
      nc_RetryOnConflict = retry_times (\<lambda>e. e = Remote ''conflict'') 4,
      nc_IsConflict = (\<lambda>e. e = Remote ''conflict'')\<rparr>"

lemma retry_times_law:
  assumes "retry_times (nc_IsConflict c) n fn s = (x, s')"
  shows "\<exists>s0. (conflict_run c fn)\<^sup>*\<^sup>* s s0 \<and> fn s0 = (x, s')"
  using assms
proof (induction n arbitrary: s)
  case 0
  then show ?case by auto
next
  case (Suc n)
  show ?case
  proof (cases "\<exists>e t. fn s = (Inl e, t) \<and> nc_IsConflict c e")
    case True
    then obtain e t where t: "fn s = (Inl e, t)" "nc_IsConflict c e" by blast
    then have "retry_times (nc_IsConflict c) n fn t = (x, s')" using Suc.prems by simp
    from Suc.IH [OF this] obtain s0 where "(conflict_run c fn)\<^sup>*\<^sup>* t s0" "fn s0 = (x, s')" by blast
    moreover have "conflict_run c fn s t" using t by (auto simp: conflict_run_def)
    ultimately show ?thesis by (meson converse_rtranclp_into_rtranclp)
  next
    case False
    then have "fn s = (x, s')" using Suc.prems by (auto split: prod.splits sum.splits if_splits)
    then show ?thesis by blast
  qed
qed

lemma busy_client_laws: "node_laws busy_client fst"
  unfolding node_laws_def
proof (intro conjI)
  show "node_get_law busy_client fst"
    by (auto simp: node_get_law_def busy_client_def split: option.splits if_splits)
  show "node_update_law busy_client fst"
    by (auto simp: node_update_law_def busy_client_def split: if_splits)
  have "nc_RetryOnConflict busy_client = retry_times (nc_IsConflict busy_client) 4"
    by (simp add: busy_client_def)
  then show "retry_law busy_client"
    unfolding retry_law_def using retry_times_law [of busy_client] by simp
qed

end
