(* ===== verification/Nri_Main.thy ===== *)
theory Nri_Main
  imports Nri_Plugin Node_Label Cmdutil_Log Go_Flag
begin

text \<open>
  The command \<open>cmd/nri\<close>: \<open>main.go\<close>, \<open>init_mode.go\<close> and \<open>plugin_mode.go\<close>. In init mode it labels its
  node and ends; in plugin mode it installs the helper binaries and serves the NRI plugin. The set-up
  of the Kubernetes client and of the NRI stub are calls whose answers are the fields of
  \<open>nri_world\<close>; the goroutine that runs the client's cache is left out. Every run ends with an exit
  status, 0 for a return from \<open>main\<close>.
\<close>

section \<open>The world of the command\<close>

datatype stub_option = WithOnClose nat | WithPluginName string | WithPluginIdx string

text \<open>\<open>Run\<close> ends, with an error or not, or the stub finds the connection lost and calls the handler given
  to \<open>WithOnClose\<close>, which exits.\<close>

datatype stub_run = RunEnds "go_error option" | ConnectionLost

text \<open>The calls on the stub: \<open>stub.New\<close> with the log level of the plugin and its options, and \<open>Run\<close>.\<close>

datatype nri_call = StubNew string "stub_option list" | StubRun

record ('r, 's) nri_world =
  iw_addPodlock :: "go_error option"
  iw_addCore :: "go_error option"
  iw_restConfig :: "string \<Rightarrow> unit option"
  iw_newCache :: "go_error option"
  iw_synced :: bool
  iw_newClient :: "('r, 's) node_client result"
  iw_abi :: "int result"
  iw_stubNew :: "go_error option"
  iw_stubRun :: stub_run

section \<open>init_mode.go\<close>

definition NodeNameEvar :: string where
  "NodeNameEvar = ''NODE_NAME''"

definition startInitMode ::
  "('r, 's) nri_world \<Rightarrow> ('r, 's) node_client \<Rightarrow> string list \<Rightarrow> 's \<Rightarrow> nat \<times> 's" where
  "startInitMode w kubeClient env s =
     (let nodeName = os_Getenv env NodeNameEvar in
      if nodeName = [] then (1, s)
      else
        (let version = DetectLandlockVersion (iw_abi w) in
         case LabelNodeWithLandlockVersion kubeClient nodeName version s of
           (Inl e, s') \<Rightarrow> (1, s')
         | (Inr u, s') \<Rightarrow> (0, s')))"

section \<open>plugin_mode.go\<close>

definition startPluginMode ::
  "('r, 's) nri_world \<Rightarrow> string \<Rightarrow> string \<Rightarrow> string \<Rightarrow> host \<Rightarrow> nri_call list \<times> nat \<times> host" where
  "startPluginMode w pluginName pluginIdx logLevel h =
     (case copyBinaries h of
        (Inl e, h') \<Rightarrow> ([], 1, h')
      | (Inr u, h') \<Rightarrow>
          (let opts = [WithOnClose OnClose] @ (if pluginName \<noteq> [] then [WithPluginName pluginName] else [])
                 @ (if pluginIdx \<noteq> [] then [WithPluginIdx pluginIdx] else []) in
           case iw_stubNew w of
             Some e \<Rightarrow> ([StubNew logLevel opts], 1, h')
           | None \<Rightarrow>
               (case iw_stubRun w of
                  RunEnds (Some e) \<Rightarrow> ([StubNew logLevel opts, StubRun], 1, h')
                | RunEnds None \<Rightarrow> ([StubNew logLevel opts, StubRun], 0, h')
                | ConnectionLost \<Rightarrow> ([StubNew logLevel opts, StubRun], OnClose, h'))))"

section \<open>main.go\<close>

text \<open>The least level of the JSON handler; an error stands for the exit with status 1.\<close>

definition nri_setupLogger :: "string \<Rightarrow> int result" where
  "nri_setupLogger logLevel =
     (case ParseLogLevel logLevel of
        Inl e \<Rightarrow> Inl e
      | Inr slogLevel \<Rightarrow> Inr slogLevel)"

lemma nri_setupLogger_level [simp]: "nri_setupLogger logLevel = ParseLogLevel logLevel"
  by (simp add: nri_setupLogger_def split: sum.splits)

text \<open>\<open>None\<close> is the exit of \<open>GetConfigOrDie\<close>, with status 1; what it answers depends on the flag
  \<open>kubeconfig\<close>, which it reads.\<close>

definition setupKubeClient :: "('r, 's) nri_world \<Rightarrow> string \<Rightarrow> ('r, 's) node_client result option" where
  "setupKubeClient w kubeconfig =
     (case iw_addPodlock w of
        Some e \<Rightarrow> Some (Inl (Wrap ''failed to add podlockv1alpha1 to scheme: '' e))
      | None \<Rightarrow>
     (case iw_addCore w of
        Some e \<Rightarrow> Some (Inl (Wrap ''failed to add corev1 to scheme: '' e))
      | None \<Rightarrow>
     (case iw_restConfig w kubeconfig of
        None \<Rightarrow> None
      | Some restConfig \<Rightarrow>
     (case iw_newCache w of
        Some e \<Rightarrow> Some (Inl (Wrap ''failed to create cache: '' e))
      | None \<Rightarrow>
     (if \<not> iw_synced w then Some (Inl (Errorf ''cache did not sync''))
      else
     (case iw_newClient w of
        Inl e \<Rightarrow> Some (Inl (Wrap ''cannot create kube client: '' e))
      | Inr kubeClient \<Rightarrow> Some (Inr kubeClient)))))))"

text \<open>
  The variables the flags set. The package \<open>client/config\<close> of controller-runtime, which the command
  imports, adds the flag \<open>kubeconfig\<close> to those of the command line when it is loaded.
\<close>

record nri_vars =
  iv_pluginName :: string
  iv_pluginIdx :: string
  iv_logLevel :: string
  iv_initMode :: bool
  iv_kubeconfig :: string

definition nri_flags :: "nri_vars flag list" where
  "nri_flags =
     [StringVar ''kubeconfig'' (\<lambda>v c. c\<lparr>iv_kubeconfig := v\<rparr>),
      StringVar ''name'' (\<lambda>v c. c\<lparr>iv_pluginName := v\<rparr>),
      StringVar ''idx'' (\<lambda>v c. c\<lparr>iv_pluginIdx := v\<rparr>),
      StringVar ''log-level'' (\<lambda>v c. c\<lparr>iv_logLevel := v\<rparr>),
      BoolVar ''init-mode'' (\<lambda>b c. c\<lparr>iv_initMode := b\<rparr>)]"

definition nri_vars0 :: nri_vars where
  "nri_vars0 = \<lparr>iv_pluginName = [], iv_pluginIdx = [], iv_logLevel = ''INFO'', iv_initMode = False,
     iv_kubeconfig = []\<rparr>"

definition nri_main ::
  "('r, 's) nri_world \<Rightarrow> string list \<Rightarrow> string list \<Rightarrow> 's \<times> host \<Rightarrow> nri_call list \<times> nat \<times> 's \<times> host" where
  "nri_main w env args = (\<lambda>(s, h).
     (case parse_flags nri_flags args nri_vars0 of
        Inl e \<Rightarrow> ([], if e = ErrHelp then 0 else 2, s, h)
      | Inr (c, rest) \<Rightarrow>
     (case nri_setupLogger (iv_logLevel c) of
        Inl e \<Rightarrow> ([], 1, s, h)
      | Inr logger \<Rightarrow>
     (case setupKubeClient w (iv_kubeconfig c) of
        None \<Rightarrow> ([], 1, s, h)
      | Some (Inl e) \<Rightarrow> ([], 1, s, h)
      | Some (Inr kubeClient) \<Rightarrow>
          if iv_initMode c then
            (case startInitMode w kubeClient env s of (status, s') \<Rightarrow> ([], status, s', h))
          else
            (case startPluginMode w (iv_pluginName c) (iv_pluginIdx c) (iv_logLevel c) h of
               (calls, status, h') \<Rightarrow> (calls, status, s, h'))))))"

section \<open>Installing the helper binaries\<close>

text \<open>\<open>installed src dst h h'\<close>: the destination has the checksum of the source, and its bytes when it was
  missing before.\<close>

definition installed :: "fpath \<Rightarrow> fpath \<Rightarrow> host \<Rightarrow> host \<Rightarrow> bool" where
  "installed src dst h h' \<longleftrightarrow>
     (\<exists>b d. file_at h src = Some b \<and> file_at h' dst = Some d \<and> sha256_hex d = sha256_hex b \<and>
        (file_at h dst = None \<longrightarrow> d = b))"

definition host_bin :: "string \<Rightarrow> fpath" where
  "host_bin name = [''host'', ''opt'', ''podlock'', ''bin'', name]"

lemma host_paths [simp]:
  "clean_abs (Join [''/host'', SealBinaryPathHost])" "clean_abs (Join [''/host'', SwapOciHookBinaryPathHost])"
  by code_simp+

lemma copy_installed:
  assumes "CopyFileIfDifferent src dst h = (Inr (), h')" "clean_abs src" "clean_abs dst"
  shows "installed (comps src) (comps dst) h h'"
  using copy_if_different_stored [OF assms] copy_if_different_missing [OF assms]
  unfolding installed_def by fastforce

lemma copyBinaries_Inr:
  assumes "copyBinaries h = (Inr (), h')"
  shows "installed [''seal''] (host_bin ''seal'') h h'"
    and "installed [''swap-oci-hook''] (host_bin ''swap-oci-hook'') h h'"
proof -
  obtain h1 where c1: "CopyFileIfDifferent ''/seal'' (Join [''/host'', SealBinaryPathHost]) h = (Inr (), h1)"
    and c2: "CopyFileIfDifferent SwapOciHookBinaryPathContainer (Join [''/host'', SwapOciHookBinaryPathHost]) h1 =
      (Inr (), h')"
    using assms unfolding copyBinaries_def by (elim attempt_InrE) (auto simp del: bin_paths)
  note f1 = copy_if_different_frame [OF c1] and f2 = copy_if_different_frame [OF c2]
  show "installed [''seal''] (host_bin ''seal'') h h'"
    using copy_installed [OF c1] f2 [of "host_bin ''seal''"] by (simp add: installed_def host_bin_def)
  show "installed [''swap-oci-hook''] (host_bin ''swap-oci-hook'') h h'"
    using copy_installed [OF c2] f1 [of "host_bin ''swap-oci-hook''"] f1 [of "[''swap-oci-hook'']"]
    by (simp add: installed_def host_bin_def)
qed

text \<open>On a host where no call fails, the installation succeeds when the image has both binaries and
  nothing stands in the way of the destinations.\<close>

lemma copyBinaries_ok:
  assumes "tree_wf (tree h)" "no_faults h"
    and "file_at h [''seal''] = Some b1" "file_at h [''swap-oci-hook''] = Some b2"
    and "ready (tree h) (host_bin ''seal'')" "ready (tree h) (host_bin ''swap-oci-hook'')"
  shows "\<exists>h'. copyBinaries h = (Inr (), h')"
proof -
  note cs = bin_paths [folded host_bin_def]
  obtain h1 where h1: "CopyFileIfDifferent ''/seal'' (Join [''/host'', SealBinaryPathHost]) h = (Inr (), h1)"
    using copy_if_different_ok [OF assms(1,2) cs(1) host_paths(1), unfolded cs, OF assms(3,5)] by auto
  note env = copy_if_different_env [OF h1 cs(1) host_paths(1) assms(1)]
  have apart: "\<not> prefix (host_bin ''swap-oci-hook'') (host_bin ''seal'')"
    "\<not> prefix (host_bin ''seal'') (host_bin ''swap-oci-hook'')" "host_bin ''seal'' \<noteq> [''swap-oci-hook'']" by (simp_all add: host_bin_def)
  have rd: "ready (tree h1) (host_bin ''swap-oci-hook'')"
    by (rule copy_if_different_ready [OF h1 cs(1) host_paths(1) assms(6), unfolded cs]) (rule apart)+
  have src: "file_at h1 [''swap-oci-hook''] = Some b2"
    using copy_if_different_frame [OF h1 cs(1) host_paths(1), of "[''swap-oci-hook'']", unfolded cs] apart(3) assms(4)
    by simp
  obtain h2 where "CopyFileIfDifferent SwapOciHookBinaryPathContainer
      (Join [''/host'', SwapOciHookBinaryPathHost]) h1 = (Inr (), h2)"
    using copy_if_different_ok [of h1, OF conjunct2 [OF env] no_faults_same_env [OF conjunct1 [OF env] assms(2)]
        cs(2) host_paths(2), unfolded cs, OF src rd] by auto
  then show ?thesis using h1 by (simp add: copyBinaries_def)
qed

lemma copyBinaries_frame:
  assumes "copyBinaries h = (r, h')" "q \<notin> {host_bin ''seal'', host_bin ''swap-oci-hook''}"
  shows "file_at h' q = file_at h q"
proof (rule attempt_preserves [where P = "\<lambda>h'. file_at h' q = file_at h q", OF assms(1) [unfolded copyBinaries_def]])
  fix x h1
  assume "CopyFileIfDifferent ''/seal'' (Join [''/host'', SealBinaryPathHost]) h = (x, h1)"
  from copy_if_different_frame [OF this] show "file_at h1 q = file_at h q"
    using assms(2) by (simp add: host_bin_def)
next
  fix x h1 r' h2
  assume c: "attempt (CopyFileIfDifferent SwapOciHookBinaryPathContainer (Join [''/host'', SwapOciHookBinaryPathHost]))
      (Wrap ''failed to copy swap-oci-hook binary to host: '') return_ok h1 = (r', h2)"
    and h1: "file_at h1 q = file_at h q"
  from c obtain x where
    "CopyFileIfDifferent SwapOciHookBinaryPathContainer (Join [''/host'', SwapOciHookBinaryPathHost]) h1 = (x, h2)"
    by (cases rule: attempt_cases) auto
  from copy_if_different_frame [OF this] show "file_at h2 q = file_at h q"
    using assms(2) h1 by (simp add: host_bin_def)
qed

section \<open>The runs of the command\<close>

text \<open>The two modes; every other run ends with a status before it touches anything.\<close>

lemma nri_main_cases:
  assumes "nri_main w env args (s, h) = (calls, status, s', h')"
  obtains (early) "calls = []" "s' = s" "h' = h"
      "\<And>c rest. parse_flags nri_flags args nri_vars0 = Inr (c, rest) \<Longrightarrow> status \<noteq> 0"
    | (init) c rest client where "parse_flags nri_flags args nri_vars0 = Inr (c, rest)" "iv_initMode c"
        "setupKubeClient w (iv_kubeconfig c) = Some (Inr client)" "startInitMode w client env s = (status, s')" "calls = []" "h' = h"
    | (plugin) c rest where "parse_flags nri_flags args nri_vars0 = Inr (c, rest)" "\<not> iv_initMode c"
        "startPluginMode w (iv_pluginName c) (iv_pluginIdx c) (iv_logLevel c) h = (calls, status, h')" "s' = s"
  using assms unfolding nri_main_def
  by (auto split: sum.splits option.splits prod.splits if_splits)

lemma startPluginMode_StubRun:
  assumes "startPluginMode w name idx lvl h = (calls, status, h')" "StubRun \<in> set calls"
  shows "copyBinaries h = (Inr (), h')"
  using assms by (auto simp: startPluginMode_def Let_def split: prod.splits sum.splits option.splits stub_run.splits)

lemma startPluginMode_0:
  "startPluginMode w name idx lvl h = (calls, status, h') \<Longrightarrow>
     status = 0 \<longleftrightarrow> StubRun \<in> set calls \<and> iw_stubRun w = RunEnds None"
  by (auto simp: startPluginMode_def OnClose_def Let_def
      split: prod.splits sum.splits option.splits stub_run.splits)

lemma startPluginMode_copies:
  assumes "startPluginMode w name idx lvl h = (calls, status, h')"
  obtains r where "copyBinaries h = (r, h')"
  using assms by (auto simp: startPluginMode_def Let_def split: prod.splits sum.splits option.splits stub_run.splits)

lemma startInitMode_0:
  assumes "startInitMode w client env s = (0, s')"
  shows "os_Getenv env NodeNameEvar \<noteq> []"
    "LabelNodeWithLandlockVersion client (os_Getenv env NodeNameEvar) (DetectLandlockVersion (iw_abi w)) s =
      (Inr (), s')"
  using assms by (auto simp: startInitMode_def Let_def split: prod.splits sum.splits if_splits)

section \<open>Properties\<close>

text \<open>C29: The plugin serves only after both helper binaries are in place: once the stub runs, the host
  has the checksum of the image's \<open>seal\<close> and \<open>swap-oci-hook\<close> under \<open>/opt/podlock/bin\<close>, and their
  bytes where they were missing. No run, whatever its status, changes another file of the host. And a
  run in plugin mode ends with status 0 exactly when it ran the stub and the stub ended without an
  error: not when the set-up of the client failed, nor when a helper could not be installed, nor when the
  connection to the runtime was lost. A run whose flags are not parsed never calls the stub.\<close>

theorem plugin_serves_after_install:
  assumes "nri_main w env args (s, h) = (calls, status, s', h')"
  shows "(StubRun \<in> set calls \<longrightarrow>
      installed [''seal''] (host_bin ''seal'') h h' \<and>
      installed [''swap-oci-hook''] (host_bin ''swap-oci-hook'') h h') \<and>
    (\<forall>q. q \<notin> {host_bin ''seal'', host_bin ''swap-oci-hook''} \<longrightarrow> file_at h' q = file_at h q) \<and>
    (case parse_flags nri_flags args nri_vars0 of
       Inl e \<Rightarrow> calls = []
     | Inr (c, rest) \<Rightarrow>
         if iv_initMode c then calls = []
         else status = 0 \<longleftrightarrow> StubRun \<in> set calls \<and> iw_stubRun w = RunEnds None)"
  using assms
proof (cases rule: nri_main_cases)
  case (plugin c rest)
  have "file_at h' q = file_at h q" if "q \<notin> {host_bin ''seal'', host_bin ''swap-oci-hook''}" for q
    using plugin(3) by (rule startPluginMode_copies) (use that copyBinaries_frame in blast)
  moreover have "status = 0 \<longleftrightarrow> StubRun \<in> set calls \<and> iw_stubRun w = RunEnds None"
    by (rule startPluginMode_0 [OF plugin(3)])
  ultimately show ?thesis
    using startPluginMode_StubRun [OF plugin(3)] copyBinaries_Inr plugin(1,2) by simp
qed (auto split: sum.splits)


text \<open>An image with both helpers, and a node whose update conflicts once, for the witnesses.\<close>

definition image_host :: host where
  "image_host = host0\<lparr>tree := (tree host0)([''seal''] \<mapsto> FileNode 0x1ED ''ELF'',
     [''swap-oci-hook''] \<mapsto> FileNode 0x1ED ''ELF2'', [''host''] \<mapsto> DirNode 0x1ED)\<rparr>"

definition node0 :: "unit ObjectMeta_scheme" where
  "node0 = \<lparr>Name = ''n1'', Namespace = [], Labels = Some [(''os'', ''linux'')], Finalizers = [],
     DeletionTimestamp = None\<rparr>"

definition nri_world0 :: "(unit, unit nodes \<times> nat) nri_world" where
  "nri_world0 = \<lparr>iw_addPodlock = None, iw_addCore = None, iw_restConfig = (\<lambda>kubeconfig. Some ()), iw_newCache = None,
     iw_synced = True, iw_newClient = Inr busy_client, iw_abi = Inr 6, iw_stubNew = None, iw_stubRun = RunEnds None\<rparr>"

lemma image_host_ok:
  "tree_wf (tree image_host)" "no_faults image_host"
  "file_at image_host [''seal''] = Some ''ELF''" "file_at image_host [''swap-oci-hook''] = Some ''ELF2''"
  "file_at image_host (host_bin name) = None" "ready (tree image_host) (host_bin name)"
proof -
  have t: "tree image_host = (\<lambda>q. if q = [] then Some (DirNode 0x1ED) else if q = [''seal''] then
      Some (FileNode 0x1ED ''ELF'') else if q = [''swap-oci-hook''] then Some (FileNode 0x1ED ''ELF2'')
      else if q = [''host''] then Some (DirNode 0x1ED) else None)"
    by (auto simp: image_host_def host0_def fun_eq_iff)
  show "tree_wf (tree image_host)" by (rule tree_wfI) (auto simp: t split: if_splits)
  show "no_faults image_host" by (simp add: image_host_def host0_def no_faults_def)
  show "file_at image_host [''seal''] = Some ''ELF''" "file_at image_host [''swap-oci-hook''] = Some ''ELF2''"
    "file_at image_host (host_bin name) = None" by (simp_all add: file_at_def t host_bin_def)
  have "\<not> strict_prefix [''seal''] (host_bin name)" "\<not> strict_prefix [''swap-oci-hook''] (host_bin name)"
    by (simp_all add: host_bin_def)
  then show "ready (tree image_host) (host_bin name)" by (auto simp: ready_def t host_bin_def)
qed

theorem plugin_serves_after_install_witness:
  "\<exists>calls h'. nri_main nri_world0 [] [] ((Map.empty, 0), image_host) = (calls, 0, (Map.empty, 0), h') \<and> StubRun \<in> set calls \<and>
     file_at h' (host_bin ''seal'') = Some ''ELF'' \<and> file_at h' (host_bin ''swap-oci-hook'') = Some ''ELF2''"
proof -
  obtain h' where h': "copyBinaries image_host = (Inr (), h')"
    using copyBinaries_ok [OF image_host_ok(1-4) image_host_ok(6) image_host_ok(6)] by blast
  have run: "nri_main nri_world0 [] [] ((Map.empty, 0), image_host) =
      ([StubNew ''INFO'' [WithOnClose OnClose], StubRun], 0, (Map.empty, 0), h')"
    by (simp add: nri_main_def nri_vars0_def setupKubeClient_def nri_world0_def startPluginMode_def h')
  from plugin_serves_after_install [OF this]
  have "installed [''seal''] (host_bin ''seal'') image_host h'"
    "installed [''swap-oci-hook''] (host_bin ''swap-oci-hook'') image_host h'" by simp_all
  then show ?thesis using run by (auto simp: installed_def image_host_ok)
qed


end
