(* ===== verification/Nri_Recovery.thy ===== *)
theory Nri_Recovery
  imports Nri_Plugin
begin

text \<open>
  Trying again after a failure. A call of \<open>CreateContainer\<close> or \<open>CopyFileIfDifferent\<close> may fail anywhere
  and leave directories, empty files and torn files behind; the runtime calls the plugin again for the
  same container, and the command copies its binaries again when it is restarted. What a failed attempt
  leaves never stands in the way of the next one, and an attempt that succeeds leaves what it leaves on
  an untouched host.
\<close>

section \<open>Writing one file\<close>

text \<open>From \<open>t\<close> to \<open>t'\<close> at most a file at \<open>q\<close> was written and directories above it were made.\<close>

definition only_at :: "fpath \<Rightarrow> (fpath \<Rightarrow> node option) \<Rightarrow> (fpath \<Rightarrow> node option) \<Rightarrow> bool" where
  "only_at q t t' \<longleftrightarrow> (\<forall>x. t' x = t x \<or> x = q \<and> (\<exists>m b. t' x = Some (FileNode m b)) \<or>
     strict_prefix x q \<and> (\<exists>m. t' x = Some (DirNode m)))"

lemma only_at_refl [simp]: "only_at q t t"
  by (simp add: only_at_def)

lemma only_at_trans: "only_at q t t1 \<Longrightarrow> only_at q t1 t2 \<Longrightarrow> only_at q t t2"
  unfolding only_at_def by metis

lemma ready_only_at:
  assumes "only_at q t t'" "ready t q'" "q' = q \<or> \<not> strict_prefix q q' \<and> \<not> strict_prefix q' q"
  shows "ready t' q'"
proof -
  have "t' q' \<noteq> Some (DirNode m)" for m
    using assms(2,3) assms(1) [unfolded only_at_def, rule_format, of q'] by (auto simp: ready_def)
  moreover have "t' ds \<noteq> Some (FileNode m b)" if "strict_prefix ds q'" for ds m b
    using assms(2,3) that assms(1) [unfolded only_at_def, rule_format, of ds] by (auto simp: ready_def)
  ultimately show ?thesis using assms(2) by (simp add: ready_def)
qed

lemma mkdirs_only_at: "fs_mkdirs perm [] (butlast q) h = (r, h') \<Longrightarrow> q \<noteq> [] \<Longrightarrow> only_at q (tree h) (tree h')"
  unfolding only_at_def
proof
  fix x assume run: "fs_mkdirs perm [] (butlast q) h = (r, h')" "q \<noteq> []"
  note gr = fs_mkdirs_grows [OF run]
  show "tree h' x = tree h x \<or> x = q \<and> (\<exists>m b. tree h' x = Some (FileNode m b)) \<or>
      strict_prefix x q \<and> (\<exists>m. tree h' x = Some (DirNode m))"
  proof (cases "tree h x")
    case None
    then show ?thesis using growsD(3) [OF gr None] by (cases "tree h' x") auto
  next
    case (Some n)
    then show ?thesis using map_le_new [OF growsD(2) [OF gr] Some] by simp
  qed
qed

lemma create_only_at: "fs_create trunc perm q h = (r, h') \<Longrightarrow> only_at q (tree h) (tree h')"
  by (auto simp: fs_create_def only_at_def split: option.splits sum.splits node.splits if_splits)

lemma write_only_at: "fs_write q s h = (r, h') \<Longrightarrow> only_at q (tree h) (tree h')"
  by (erule fs_write_append) (auto simp: fs_append_def only_at_def split: option.splits node.splits)

lemma write_profile_only_at:
  assumes "writeLandlockProfileToHostFilesystem p c m h = (r, h')"
    and "comps (landlockProfilePathOnHost p c) \<noteq> []"
  shows "only_at (comps (landlockProfilePathOnHost p c)) (tree h) (tree h')"
  using assms(1) unfolding write_profile_eq Let_def
proof (cases rule: attempt_cases)
  case (failed e)
  then show ?thesis using mkdirs_only_at assms(2) by blast
next
  case mkdirs: (continued u h1)
  note h1 = mkdirs_only_at [OF mkdirs(1) assms(2)]
  from mkdirs(2) show ?thesis
  proof (cases rule: attempt_cases)
    case (failed e)
    then show ?thesis using only_at_trans [OF h1 create_only_at] by blast
  next
    case create: (continued f h2)
    obtain x where "fs_write f (encode_profiles m) h2 = (x, h')"
      using create(2) by (cases rule: attempt_cases) auto
    moreover have "f = comps (landlockProfilePathOnHost p c)" using fs_create_file [OF create(1)] by simp
    ultimately show ?thesis
      using only_at_trans [OF only_at_trans [OF h1 create_only_at [OF create(1)]] write_only_at] by simp
  qed
qed

lemma copy_file_only_at:
  assumes "copy_file src dst h = (r, h')" "clean_abs src" "clean_abs dst" "comps dst \<noteq> []"
  shows "only_at (comps dst) (tree h) (tree h')"
proof -
  have copy: "only_at (comps dst) (tree h1) (tree h2)" if "io_Copy (comps dst) (comps src) h1 = (x, h2)" for x h1 h2
    using that by (cases rule: io_Copy_steps) (auto intro: write_only_at)
  from assms(1-3) show ?thesis
  proof (cases rule: copy_file_steps)
    case (3 h1 e)
    then show ?thesis using only_at_trans mkdirs_only_at create_only_at assms(4) by blast
  next
    case (4 h1 h2 r2)
    then show ?thesis using only_at_trans mkdirs_only_at create_only_at copy assms(4) by metis
  qed (use mkdirs_only_at assms(4) in blast)+
qed

lemma copy_only_at:
  assumes "CopyFileIfDifferent src dst h = (r, h')" "clean_abs src" "clean_abs dst" "comps dst \<noteq> []"
  shows "only_at (comps dst) (tree h) (tree h')"
  using assms(1)
  by (cases rule: CopyFileIfDifferent_steps) (use copy_file_only_at assms(2-4) in auto)

section \<open>Creating a container again\<close>

text \<open>Every file the plugin writes for a container can be written.\<close>

definition container_ready :: "host \<Rightarrow> string \<Rightarrow> string \<Rightarrow> ProfileByBinary \<Rightarrow> bool" where
  "container_ready h podID containerName m \<longleftrightarrow> tree_wf (tree h) \<and>
     (\<forall>b \<in> set (keys m). ready (tree h) (swapped podID containerName b)) \<and>
     ready (tree h) (comps (landlockProfilePathOnHost podID containerName))"

text \<open>The paths of a container: none is above another.\<close>

lemma paths_apart:
  assumes "names_ok p c" "binaries_ok m" "prefix_free (keys m)" "a \<in> set (keys m)"
  shows "b \<in> set (keys m) \<Longrightarrow>
      \<not> strict_prefix (swapped (pod_Id p) (ctr_Name c) a) (swapped (pod_Id p) (ctr_Name c) b)"
    and "\<not> strict_prefix (swapped (pod_Id p) (ctr_Name c) a) (comps (landlockProfilePathOnHost (pod_Id p) (ctr_Name c)))"
    and "\<not> strict_prefix (comps (landlockProfilePathOnHost (pod_Id p) (ctr_Name c))) (swapped (pod_Id p) (ctr_Name c) a)"
proof -
  have n: "proper (pod_Id p)" "proper (ctr_Name c)" using assms(1) by (simp_all add: names_ok_def)
  have clean: "clean_abs b" if "b \<in> set (keys m)" for b using assms(2) that by (simp add: binaries_ok_def)
  show "\<not> strict_prefix (swapped (pod_Id p) (ctr_Name c) a) (swapped (pod_Id p) (ctr_Name c) b)"
    if "b \<in> set (keys m)"
    using assms(3,4) that clean n by (auto simp: comps_swappedBinaryPathOnHost prefix_free_def)
  show "\<not> strict_prefix (swapped (pod_Id p) (ctr_Name c) a) (comps (landlockProfilePathOnHost (pod_Id p) (ctr_Name c)))"
    "\<not> strict_prefix (comps (landlockProfilePathOnHost (pod_Id p) (ctr_Name c))) (swapped (pod_Id p) (ctr_Name c) a)"
    using clean [OF assms(4)] n
    by (auto simp: comps_swappedBinaryPathOnHost comps_landlockProfilePathOnHost swapped_dir_def ContainerProfileName_def)
qed

lemma reserve_keeps_ready:
  assumes rd: "container_ready h (pod_Id p) (ctr_Name c) m"
    and names: "names_ok p c" and bins: "binaries_ok m" and pf: "prefix_free (keys m)"
    and run: "reserveSwappedBinaries (pod_Id p) (ctr_Name c) m h = (r, h1)"
  shows "container_ready h1 (pod_Id p) (ctr_Name c) m"
proof -
  have gr: "grows (swapped (pod_Id p) (ctr_Name c) ` set (keys m)) h h1"
    by (rule reserve_loop_grows [OF run [unfolded reserveSwappedBinaries_def]])
      (use rd in \<open>auto simp: container_ready_def ready_def\<close>)
  have "tree_wf (tree h1)"
    using rd reserve_loop_wf [OF run [unfolded reserveSwappedBinaries_def]] by (simp add: container_ready_def)
  then show ?thesis
    using rd paths_apart [OF names bins pf]
    by (auto simp: container_ready_def intro!: ready_grows [OF gr])
qed

lemma write_keeps_ready:
  assumes rd: "container_ready h (pod_Id p) (ctr_Name c) m"
    and names: "names_ok p c" and bins: "binaries_ok m" and pf: "prefix_free (keys m)"
    and run: "writeLandlockProfileToHostFilesystem (pod_Id p) (ctr_Name c) m h = (r, h1)"
  shows "container_ready h1 (pod_Id p) (ctr_Name c) m"
proof -
  have "comps (landlockProfilePathOnHost (pod_Id p) (ctr_Name c)) \<noteq> []"
    using rd by (simp add: container_ready_def ready_def)
  note at = write_profile_only_at [OF run this]
  have "tree_wf (tree h1)" using rd write_profile_env [OF run] by (simp add: container_ready_def)
  then show ?thesis
    using rd paths_apart [OF names bins pf]
    by (auto simp: container_ready_def intro!: ready_only_at [OF at])
qed

lemma create_keeps_ready:
  assumes rd: "container_ready h (pod_Id p) (ctr_Name c) m"
    and names: "names_ok p c" and bins: "binaries_ok m" and pf: "prefix_free (keys m)"
    and sel: "selected get p c m"
    and run: "CreateContainer get lvl (Some p) (Some c) h = (r, h')"
  shows "container_ready h' (pod_Id p) (ctr_Name c) m"
  using run
proof (cases rule: CreateContainer_steps)
  case (3 p' c' m' e)
  then show ?thesis using reserve_keeps_ready [OF rd names bins pf] selected_unique [OF sel] by simp
next
  case (4 p' c' m' h1 e)
  then have "m' = m" using selected_unique [OF sel] by simp
  with 4 show ?thesis
    using write_keeps_ready [OF reserve_keeps_ready [OF rd names bins pf] names bins pf] by simp
next
  case (5 p' c' m' h1)
  then have "m' = m" using selected_unique [OF sel] by simp
  with 5 show ?thesis
    using write_keeps_ready [OF reserve_keeps_ready [OF rd names bins pf] names bins pf] by simp
qed (use rd in simp_all)

lemma create_when_ready:
  assumes sel: "selected get p c m" and names: "names_ok p c" and bins: "binaries_ok m"
    and rd: "container_ready h (pod_Id p) (ctr_Name c) m" and nf: "no_faults h"
    and pf: "prefix_free (keys m)"
  shows "\<exists>h'. CreateContainer get lvl (Some p) (Some c) h =
    (Inr (Some (createContainerAdjustment (pod_Id p) (ctr_Name c) m lvl)), h')"
proof -
  obtain h1 where h1: "reserveSwappedBinaries (pod_Id p) (ctr_Name c) m h = (Inr (), h1)"
    unfolding reserveSwappedBinaries_def
    using reserve_loop_ok [of h "keys m" "pod_Id p" "ctr_Name c"] rd nf paths_apart(1) [OF names bins pf]
    by (auto simp: container_ready_def)
  have "container_ready h1 (pod_Id p) (ctr_Name c) m" by (rule reserve_keeps_ready [OF rd names bins pf h1])
  moreover have "no_faults h1" using growsD(1) [OF reserve_grows [OF h1 names bins]] nf by (rule no_faults_same_env)
  ultimately obtain h2 where "writeLandlockProfileToHostFilesystem (pod_Id p) (ctr_Name c) m h1 = (Inr (), h2)"
    using write_profile_ok [of h1 "pod_Id p" "ctr_Name c" m] by (auto simp: container_ready_def)
  with h1 show ?thesis using CreateContainer_runs [OF sel] by blast
qed

lemma fresh_container_ready:
  assumes "fresh_container h (pod_Id p) (ctr_Name c)" "tree_wf (tree h)" "names_ok p c" "binaries_ok m"
  shows "container_ready h (pod_Id p) (ctr_Name c) m"
  using assms fresh_ready [OF assms(1)]
  by (auto simp: container_ready_def names_ok_def binaries_ok_def comps_swappedBinaryPathOnHost
      comps_landlockProfilePathOnHost swapped_dir_def)

text \<open>Attempts on a host whose failures change from one to the next.\<close>

type_synonym failures = "(syscall \<Rightarrow> fpath \<Rightarrow> errno option) \<times> (fpath \<Rightarrow> nat)"

definition under_failures :: "failures \<Rightarrow> host \<Rightarrow> host" where
  "under_failures f h = h\<lparr>fault := fst f, progress := snd f\<rparr>"

definition no_failures :: failures where
  "no_failures = ((\<lambda>_ _. None), (\<lambda>_. 0))"

fun attempts :: "(host \<Rightarrow> 'a \<times> host) \<Rightarrow> failures list \<Rightarrow> host \<Rightarrow> host" where
  "attempts run [] h = h"
| "attempts run (f # fs) h = attempts run fs (snd (run (under_failures f h)))"

lemma attempts_keep:
  assumes "\<And>h r h'. run h = (r, h') \<Longrightarrow> P (tree h) \<Longrightarrow> P (tree h')" "P (tree h)"
  shows "P (tree (attempts run fs h))"
  using assms(2)
proof (induction fs arbitrary: h)
  case (Cons f fs)
  have "P (tree (snd (run (under_failures f h))))"
    by (rule assms(1) [OF prod.collapse [symmetric]]) (use Cons.prems in \<open>simp add: under_failures_def\<close>)
  then show ?case using Cons.IH by simp
qed simp

section \<open>Properties\<close>

text \<open>C13: A container can be created after any number of failed attempts, when its profile can be delivered at
  all. Let the profile be one whose binaries are clean absolute paths, as the webhook ensures, none of
  them below another (else reserving their files fails every time), and the names of pod and container be
  path components. Let the host have nothing of the container, and \<open>CreateContainer\<close> be called for it any number of times, with any calls failing at
  any point, torn writes included. Once the calls work, the next attempt answers the adjustment, and
  the profile file holds exactly the encoded profile.\<close>

theorem create_retry_recovers:
  assumes "selected get p c m" "names_ok p c" "binaries_ok m" "prefix_free (keys m)"
    and "tree_wf (tree h)" "fresh_container h (pod_Id p) (ctr_Name c)"
  shows "\<exists>h'. CreateContainer get lvl (Some p) (Some c)
      (under_failures no_failures (attempts (CreateContainer get lvl (Some p) (Some c)) fs h)) =
      (Inr (Some (createContainerAdjustment (pod_Id p) (ctr_Name c) m lvl)), h') \<and>
    file_at h' (comps (landlockProfilePathOnHost (pod_Id p) (ctr_Name c))) = Some (encode_profiles m)"
proof -
  let ?run = "CreateContainer get lvl (Some p) (Some c)"
  let ?h = "under_failures no_failures (attempts ?run fs h)"
  have "container_ready (h\<lparr>tree := tree (attempts ?run fs h)\<rparr>) (pod_Id p) (ctr_Name c) m"
  proof (rule attempts_keep)
    show "container_ready (h\<lparr>tree := tree h2\<rparr>) (pod_Id p) (ctr_Name c) m"
      if "?run h1 = (r, h2)" "container_ready (h\<lparr>tree := tree h1\<rparr>) (pod_Id p) (ctr_Name c) m" for h1 r h2
      using create_keeps_ready [OF _ assms(2-4,1) that(1)] that(2) by (simp add: container_ready_def)
    show "container_ready (h\<lparr>tree := tree h\<rparr>) (pod_Id p) (ctr_Name c) m"
      using fresh_container_ready [OF assms(6,5,2,3)] by (simp add: container_ready_def)
  qed
  then have rd: "container_ready ?h (pod_Id p) (ctr_Name c) m"
    by (simp add: container_ready_def under_failures_def)
  have "no_faults ?h" by (simp add: no_faults_def under_failures_def no_failures_def)
  from create_when_ready [OF assms(1-3) rd this assms(4)]
  obtain h' where run: "?run ?h = (Inr (Some (createContainerAdjustment (pod_Id p) (ctr_Name c) m lvl)), h')" by blast
  from run have "file_at h' (comps (landlockProfilePathOnHost (pod_Id p) (ctr_Name c))) = Some (encode_profiles m)"
    by (cases rule: CreateContainer_steps)
      (use selected_unique [OF assms(1)] write_profile_stored in fastforce)+
  then show ?thesis using run by blast
qed

text \<open>For the witness: first no directory can be made, then the disk is full after ten bytes.\<close>

definition bad_days :: "failures list" where
  "bad_days = [(\<lambda>s p. if s = Sys_mkdir then Some EACCES else None, \<lambda>_. 0),
     (\<lambda>s p. if s = Sys_write then Some ENOSPC else None, \<lambda>_. 10)]"

theorem create_retry_recovers_witness:
  "\<exists>h'. CreateContainer get0 ''info'' (Some pod0) (Some web0) (under_failures no_failures
       (attempts (CreateContainer get0 ''info'' (Some pod0) (Some web0)) bad_days host0)) =
       (Inr (Some (createContainerAdjustment ''pod1'' ''web'' bins0 ''info'')), h') \<and>
     file_at h' (comps (landlockProfilePathOnHost ''pod1'' ''web'')) = Some (encode_profiles bins0)"
  using create_retry_recovers [OF fixture0(1-4) host0_wf(1), of "''info''" bad_days] host0_fresh
  by (simp add: pod0_def web0_def)

text \<open>C30: An interrupted installation is repaired. However many copies of a binary to the host have
  failed, at whatever point, once the calls work the next one reports success, and the destination has
  the checksum of the source; a copy that reports success when nothing failed is not repeated.\<close>

theorem install_recovers:
  assumes "clean_abs src" "clean_abs dst" "comps src \<noteq> comps dst" "tree_wf (tree h)"
    and "file_at h (comps src) = Some b" "ready (tree h) (comps dst)"
  shows "\<exists>h' d. CopyFileIfDifferent src dst
      (under_failures no_failures (attempts (CopyFileIfDifferent src dst) fs h)) = (Inr (), h') \<and>
    file_at h' (comps dst) = Some d \<and> sha256_hex d = sha256_hex b \<and>
    CopyFileIfDifferent src dst h' = (Inr (), h')"
proof -
  let ?run = "CopyFileIfDifferent src dst"
  let ?h = "under_failures no_failures (attempts ?run fs h)"
  let ?P = "\<lambda>t. tree_wf t \<and> file_at (h\<lparr>tree := t\<rparr>) (comps src) = Some b \<and> ready t (comps dst)"
  have "?P (tree (attempts ?run fs h))"
  proof (rule attempts_keep [where P = ?P])
    show "?P (tree h2)" if "?run h1 = (r, h2)" "?P (tree h1)" for h1 r h2
    proof -
      have "comps dst \<noteq> []" using assms(6) by (simp add: ready_def)
      note at = copy_only_at [OF that(1) assms(1,2) this]
      have "tree_wf (tree h2)" using copy_if_different_env [OF that(1) assms(1,2)] that(2) by simp
      moreover have "file_at h2 (comps src) = file_at h1 (comps src)"
        by (rule copy_if_different_frame [OF that(1) assms(1,2,3)])
      ultimately show ?thesis using that(2) ready_only_at [OF at] by (simp add: file_at_def)
    qed
  qed (use assms(4-6) in simp)
  then have h: "tree_wf (tree ?h)" "file_at ?h (comps src) = Some b" "ready (tree ?h) (comps dst)" "no_faults ?h"
    by (simp_all add: under_failures_def no_failures_def no_faults_def file_at_def)
  from copy_if_different_ok [OF h(1,4) assms(1,2) h(2,3)]
  obtain h' where run: "?run ?h = (Inr (), h')" by blast
  then show ?thesis
    using copy_if_different_stored [OF run assms(1,2)] h(2) copy_if_different_again [OF run assms(1,2) h(1,4)]
    by auto
qed

theorem install_recovers_witness:
  "\<exists>h' d. CopyFileIfDifferent ''/seal'' ''/host/seal''
      (under_failures no_failures (attempts (CopyFileIfDifferent ''/seal'' ''/host/seal'') bad_days host_seal)) =
      (Inr (), h') \<and> file_at h' [''host'', ''seal''] = Some d \<and> sha256_hex d = sha256_hex ''ELF''"
proof -
  have paths: "clean_abs ''/seal''" "clean_abs ''/host/seal''" by code_simp+
  have c: "comps ''/seal'' = [''seal'']" "comps ''/host/seal'' = [''host'', ''seal'']" by code_simp+
  have "tree_wf (tree host_seal)" by (auto simp: host_seal_def host0_def intro!: tree_wfI split: if_splits)
  moreover have "ready (tree host_seal) [''host'', ''seal'']"
    by (auto simp: ready_def host_seal_def host0_def strict_prefix_def prefix_def split: if_splits)
  moreover have "file_at host_seal [''seal''] = Some ''ELF''" by code_simp
  ultimately show ?thesis
    using install_recovers [OF paths, of host_seal "''ELF''" bad_days] by (auto simp: c)
qed

end
