(* ===== verification/Controller_Main.thy ===== *)
theory Controller_Main
  imports Controller Go_Flag
begin

text \<open>
  The command \<open>cmd/controller/main.go\<close>, with the registration of the webhook
  (\<open>SetupRegistryWebhookWithManager\<close>): the flags, the options of the two servers they turn into, and the
  start of the manager step by step. The calls on the
  controller-runtime manager are parameters that answer an error or not; the flags that zap adds and
  their variables are the parameter \<open>zap_flags\<close> on the type \<open>'z\<close>. A TLS option is a function on the
  TLS configuration, of which the code sets the protocols.
\<close>

section \<open>Registrations\<close>

text \<open>The webhook's functions as the builder gets them: the validators and the defaulter.\<close>

record webhook_registration =
  wr_Create :: "LandlockProfile \<Rightarrow> status_error option"
  wr_Update :: "LandlockProfile \<Rightarrow> LandlockProfile \<Rightarrow> status_error option"
  wr_Delete :: "LandlockProfile \<Rightarrow> status_error option"
  wr_Default :: "LandlockProfile \<Rightarrow> LandlockProfile"

definition webhook_handlers ::
  "controllerutil \<Rightarrow> (string set \<Rightarrow> string list) \<Rightarrow> webhook_registration" where
  "webhook_handlers cu sets_List =
     \<lparr>wr_Create = ValidateCreate sets_List, wr_Update = ValidateUpdate sets_List,
      wr_Delete = ValidateDelete, wr_Default = Default cu\<rparr>"

definition SetupRegistryWebhookWithManager ::
  "controllerutil \<Rightarrow> (string set \<Rightarrow> string list) \<Rightarrow> (webhook_registration \<Rightarrow> go_error option) \<Rightarrow>
     go_error option" where
  "SetupRegistryWebhookWithManager cu sets_List complete =
     (case complete (webhook_handlers cu sets_List) of
        Some e \<Rightarrow> Some (Wrap ''failed to setup LandlockProfile webhook: '' e)
      | None \<Rightarrow> None)"

section \<open>Flags\<close>

text \<open>
  The variables the flags set. The package \<open>client/config\<close> of controller-runtime, which the command
  imports, adds the flag \<open>kubeconfig\<close> to those of the command line when it is loaded; \<open>GetConfigOrDie\<close> reads it.
\<close>

record 'z manager_vars =
  mv_metricsAddr :: string
  mv_probeAddr :: string
  mv_enableLeaderElection :: bool
  mv_secureMetrics :: bool
  mv_webhookCertPath :: string
  mv_webhookCertName :: string
  mv_webhookCertKey :: string
  mv_metricsCertPath :: string
  mv_metricsCertName :: string
  mv_metricsCertKey :: string
  mv_enableHTTP2 :: bool
  mv_kubeconfig :: string
  mv_zap :: 'z

definition manager_flags :: "'z manager_vars flag list" where
  "manager_flags =
     [StringVar ''kubeconfig'' (\<lambda>v c. c\<lparr>mv_kubeconfig := v\<rparr>),
      StringVar ''metrics-bind-address'' (\<lambda>v c. c\<lparr>mv_metricsAddr := v\<rparr>),
      StringVar ''health-probe-bind-address'' (\<lambda>v c. c\<lparr>mv_probeAddr := v\<rparr>),
      BoolVar ''leader-elect'' (\<lambda>b c. c\<lparr>mv_enableLeaderElection := b\<rparr>),
      BoolVar ''metrics-secure'' (\<lambda>b c. c\<lparr>mv_secureMetrics := b\<rparr>),
      StringVar ''webhook-cert-path'' (\<lambda>v c. c\<lparr>mv_webhookCertPath := v\<rparr>),
      StringVar ''webhook-cert-name'' (\<lambda>v c. c\<lparr>mv_webhookCertName := v\<rparr>),
      StringVar ''webhook-cert-key'' (\<lambda>v c. c\<lparr>mv_webhookCertKey := v\<rparr>),
      StringVar ''metrics-cert-path'' (\<lambda>v c. c\<lparr>mv_metricsCertPath := v\<rparr>),
      StringVar ''metrics-cert-name'' (\<lambda>v c. c\<lparr>mv_metricsCertName := v\<rparr>),
      StringVar ''metrics-cert-key'' (\<lambda>v c. c\<lparr>mv_metricsCertKey := v\<rparr>),
      BoolVar ''enable-http2'' (\<lambda>b c. c\<lparr>mv_enableHTTP2 := b\<rparr>)]"

definition manager_vars0 :: "'z \<Rightarrow> 'z manager_vars" where
  "manager_vars0 z =
     \<lparr>mv_metricsAddr = ''0'', mv_probeAddr = '':8081'', mv_enableLeaderElection = False,
      mv_secureMetrics = True, mv_webhookCertPath = [], mv_webhookCertName = ''tls.crt'',
      mv_webhookCertKey = ''tls.key'', mv_metricsCertPath = [], mv_metricsCertName = ''tls.crt'',
      mv_metricsCertKey = ''tls.key'', mv_enableHTTP2 = False, mv_kubeconfig = [],
      mv_zap = z\<rparr>"

section \<open>The options of the servers\<close>

record tls_config =
  NextProtos :: "string list"

record server_options =
  so_TLSOpts :: "(tls_config \<Rightarrow> tls_config) list"
  so_CertDir :: string
  so_CertName :: string
  so_KeyName :: string

text \<open>\<open>filters.WithAuthenticationAndAuthorization\<close> is the only filter the code sets.\<close>

datatype filter_provider = WithAuthenticationAndAuthorization

record metrics_options = server_options +
  mo_BindAddress :: string
  mo_SecureServing :: bool
  mo_FilterProvider :: "filter_provider option"

record manager_options =
  mg_Metrics :: metrics_options
  mg_WebhookServer :: server_options
  mg_HealthProbeBindAddress :: string
  mg_LeaderElection :: bool
  mg_LeaderElectionID :: string

definition disableHTTP2 :: "tls_config \<Rightarrow> tls_config" where
  "disableHTTP2 c = c\<lparr>NextProtos := [''http/1.1'']\<rparr>"

definition tlsOpts :: "'z manager_vars \<Rightarrow> (tls_config \<Rightarrow> tls_config) list" where
  "tlsOpts v = (if \<not> mv_enableHTTP2 v then [disableHTTP2] else [])"

definition webhookServerOptions :: "'z manager_vars \<Rightarrow> server_options" where
  "webhookServerOptions v =
     (let opts = \<lparr>so_TLSOpts = tlsOpts v, so_CertDir = [], so_CertName = [], so_KeyName = []\<rparr> in
      if length (mv_webhookCertPath v) > 0
      then opts\<lparr>so_CertDir := mv_webhookCertPath v, so_CertName := mv_webhookCertName v,
             so_KeyName := mv_webhookCertKey v\<rparr>
      else opts)"

definition metricsServerOptions :: "'z manager_vars \<Rightarrow> metrics_options" where
  "metricsServerOptions v =
     (let opts0 = \<lparr>so_TLSOpts = tlsOpts v, so_CertDir = [], so_CertName = [], so_KeyName = [],
                   mo_BindAddress = mv_metricsAddr v, mo_SecureServing = mv_secureMetrics v,
                   mo_FilterProvider = None\<rparr>;
          opts1 = (if mv_secureMetrics v
                   then opts0\<lparr>mo_FilterProvider := Some WithAuthenticationAndAuthorization\<rparr> else opts0)
      in if length (mv_metricsCertPath v) > 0
         then opts1\<lparr>so_CertDir := mv_metricsCertPath v, so_CertName := mv_metricsCertName v,
                so_KeyName := mv_metricsCertKey v\<rparr>
         else opts1)"

definition managerOptions :: "'z manager_vars \<Rightarrow> manager_options" where
  "managerOptions v =
     \<lparr>mg_Metrics = metricsServerOptions v, mg_WebhookServer = webhookServerOptions v,
      mg_HealthProbeBindAddress = mv_probeAddr v, mg_LeaderElection = mv_enableLeaderElection v,
      mg_LeaderElectionID = ''5dbef21c.io.kubewarden.podlock''\<rparr>"

section \<open>main\<close>

text \<open>The calls on the manager, in the order they are made, and their answers.\<close>

datatype manager_call =
    NewManager manager_options
  | SetupReconciler
  | SetupWebhook
  | AddHealthzCheck string
  | AddReadyzCheck string
  | Start

record manager_world =
  mw_addClientgo :: "go_error option"
  mw_addSecurity :: "go_error option"
  mw_config :: "string \<Rightarrow> bool"
  mw_NewManager :: "manager_options \<Rightarrow> go_error option"
  mw_completeController :: "registration \<Rightarrow> go_error option"
  mw_completeWebhook :: "webhook_registration \<Rightarrow> go_error option"
  mw_AddHealthzCheck :: "string \<Rightarrow> go_error option"
  mw_AddReadyzCheck :: "string \<Rightarrow> go_error option"
  mw_Start :: "go_error option"

text \<open>\<open>init\<close> registers the types of Kubernetes and of PodLock; \<open>Must\<close> panics on an error.\<close>

definition controller_init :: "manager_world \<Rightarrow> go_error option" where
  "controller_init w =
     (case mw_addClientgo w of Some e \<Rightarrow> Some e | None \<Rightarrow> (case mw_addSecurity w of Some e \<Rightarrow> Some e | None \<Rightarrow> None))"

text \<open>The value is the calls made and the exit status; without a configuration, \<open>GetConfigOrDie\<close> exits.\<close>

definition start_manager ::
  "controllerutil \<Rightarrow> (string set \<Rightarrow> string list) \<Rightarrow> manager_world \<Rightarrow> string \<Rightarrow> manager_options \<Rightarrow>
     manager_call list \<times> nat" where
  "start_manager cu sets_List w kubeconfig opts =
     (if \<not> mw_config w kubeconfig then ([], 1)
      else case mw_NewManager w opts of Some e \<Rightarrow> ([NewManager opts], 1) | None \<Rightarrow>
     (case SetupWithManager (mw_completeController w) of
        Some e \<Rightarrow> ([NewManager opts, SetupReconciler], 1)
      | None \<Rightarrow>
     (case SetupRegistryWebhookWithManager cu sets_List (mw_completeWebhook w) of
        Some e \<Rightarrow> ([NewManager opts, SetupReconciler, SetupWebhook], 1)
      | None \<Rightarrow>
     (case mw_AddHealthzCheck w ''healthz'' of
        Some e \<Rightarrow> ([NewManager opts, SetupReconciler, SetupWebhook, AddHealthzCheck ''healthz''], 1)
      | None \<Rightarrow>
     (case mw_AddReadyzCheck w ''readyz'' of
        Some e \<Rightarrow> ([NewManager opts, SetupReconciler, SetupWebhook, AddHealthzCheck ''healthz'',
                   AddReadyzCheck ''readyz''], 1)
      | None \<Rightarrow>
          ([NewManager opts, SetupReconciler, SetupWebhook, AddHealthzCheck ''healthz'',
            AddReadyzCheck ''readyz'', Start],
           case mw_Start w of Some e \<Rightarrow> 1 | None \<Rightarrow> 0))))))"

definition controller_main ::
  "controllerutil \<Rightarrow> (string set \<Rightarrow> string list) \<Rightarrow> 'z manager_vars flag list \<Rightarrow> 'z \<Rightarrow> manager_world \<Rightarrow>
     string list \<Rightarrow> manager_call list \<times> nat" where
  "controller_main cu sets_List zap_flags z w args =
     (case controller_init w of
        Some e \<Rightarrow> ([], 2)
      | None \<Rightarrow>
     (case parse_flags (manager_flags @ zap_flags) args (manager_vars0 z) of
        Inl e \<Rightarrow> ([], if e = ErrHelp then 0 else 2)
      | Inr (v, rest) \<Rightarrow> start_manager cu sets_List w (mv_kubeconfig v) (managerOptions v)))"

section \<open>Properties\<close>

lemma start_manager_Start:
  "Start \<in> set (fst (start_manager cu sl w kc opts)) \<longleftrightarrow>
     mw_config w kc \<and> mw_NewManager w opts = None \<and> mw_completeController w controller_registration = None \<and>
     mw_completeWebhook w (webhook_handlers cu sl) = None \<and> mw_AddHealthzCheck w ''healthz'' = None \<and>
     mw_AddReadyzCheck w ''readyz'' = None"
  by (auto simp: start_manager_def SetupWithManager_def SetupRegistryWebhookWithManager_def split: option.splits)

lemma start_manager_status:
  "snd (start_manager cu sl w kc opts) = 0 \<longleftrightarrow>
     Start \<in> set (fst (start_manager cu sl w kc opts)) \<and> mw_Start w = None"
  by (auto simp: start_manager_def split: option.splits)

text \<open>C37: The manager is started only when everything it serves is in place: the types registered, the reconciler registered
  with the pod watch that maps to the profiles in use, the webhook with this validator and defaulter,
  and both health checks; and a run that got past its flags ends with status 0 exactly when the manager
  was started and ended without an error.\<close>

theorem manager_start_guarded:
  assumes "parse_flags (manager_flags @ zap_flags) args (manager_vars0 z) = Inr (v, rest)"
  shows "let (calls, status) = controller_main cu sets_List zap_flags z w args in
    (Start \<in> set calls \<longrightarrow>
       mw_addClientgo w = None \<and> mw_addSecurity w = None \<and> mw_config w (mv_kubeconfig v) \<and>
       hd calls = NewManager (managerOptions v) \<and> mw_NewManager w (managerOptions v) = None \<and>
       mw_completeController w controller_registration = None \<and>
       reg_Map controller_registration = findProfilesForPod \<and>
       mw_completeWebhook w (webhook_handlers cu sets_List) = None \<and>
       mw_AddHealthzCheck w ''healthz'' = None \<and> mw_AddReadyzCheck w ''readyz'' = None) \<and>
    (status = 0 \<longleftrightarrow> Start \<in> set calls \<and> mw_Start w = None)"
proof -
  let ?r = "start_manager cu sets_List w (mv_kubeconfig v) (managerOptions v)"
  have init: "controller_init w = None \<longleftrightarrow> mw_addClientgo w = None \<and> mw_addSecurity w = None"
    by (auto simp: controller_init_def split: option.splits)
  have run: "controller_main cu sets_List zap_flags z w args = (if controller_init w = None then ?r else ([], 2))"
    using assms by (auto simp: controller_main_def)
  have "hd (fst ?r) = NewManager (managerOptions v)" if "Start \<in> set (fst ?r)"
    using that by (auto simp: start_manager_def split: option.splits if_splits)
  then show ?thesis
    using start_manager_Start [of cu sets_List w "mv_kubeconfig v" "managerOptions v"]
      start_manager_status [of cu sets_List w "mv_kubeconfig v" "managerOptions v"]
    by (auto simp: run init controller_registration_def split: prod.splits if_splits)
qed

text \<open>C38: Without the flag \<open>enable-http2\<close> neither server speaks HTTP/2: whatever the other arguments, every
  TLS configuration that goes through the options of the webhook server or of the metrics server is left
  with \<open>http/1.1\<close> as its only protocol. And whatever the arguments, metrics are served over TLS exactly
  with the filter that authenticates and authorizes.\<close>

theorem servers_hardened:
  assumes "parse_flags (manager_flags @ zap_flags) args (manager_vars0 z) = Inr (v, rest)"
    and "\<And>f x c c'. f \<in> set zap_flags \<Longrightarrow> flag_set f x c = Inr c' \<Longrightarrow> mv_enableHTTP2 c' = mv_enableHTTP2 c"
    and "\<And>a x. a \<in> set args \<Longrightarrow> read_flag a \<noteq> Flag ''enable-http2'' x"
  shows "NextProtos (fold (\<lambda>f. f) (so_TLSOpts (mg_WebhookServer (managerOptions v))) c) = [''http/1.1''] \<and>
    NextProtos (fold (\<lambda>f. f) (so_TLSOpts (mg_Metrics (managerOptions v))) c) = [''http/1.1''] \<and>
    (mo_SecureServing (mg_Metrics (managerOptions v)) \<longleftrightarrow>
       mo_FilterProvider (mg_Metrics (managerOptions v)) = Some WithAuthenticationAndAuthorization)"
proof -
  have "\<not> mv_enableHTTP2 v"
  proof (rule parse_flags_keeps [OF _ assms(1), where P = "\<lambda>c. \<not> mv_enableHTTP2 c" and n = "''enable-http2''"])
    fix f x and c c' :: "'a manager_vars"
    assume "f \<in> set (manager_flags @ zap_flags)" "flag_name f \<noteq> ''enable-http2''" "flag_set f x c = Inr c'"
      "\<not> mv_enableHTTP2 c"
    then show "\<not> mv_enableHTTP2 c'"
      using assms(2) [of f x c c'] by (auto simp: manager_flags_def StringVar_def BoolVar_def split: option.splits)
  qed (use assms(3) in \<open>simp_all add: manager_vars0_def\<close>)
  then show ?thesis
    by (simp add: managerOptions_def webhookServerOptions_def metricsServerOptions_def tlsOpts_def
        disableHTTP2_def Let_def)
qed

text \<open>A manager whose calls succeed, for the witnesses.\<close>

definition manager_world0 :: manager_world where
  "manager_world0 =
     \<lparr>mw_addClientgo = None, mw_addSecurity = None, mw_config = (\<lambda>kubeconfig. True), mw_NewManager = (\<lambda>_. None), mw_completeController = (\<lambda>_. None),
      mw_completeWebhook = (\<lambda>_. None), mw_AddHealthzCheck = (\<lambda>_. None), mw_AddReadyzCheck = (\<lambda>_. None),
      mw_Start = None\<rparr>"

lemma flags0:
  "parse_flags (manager_flags @ []) [''-leader-elect'', ''-metrics-bind-address'', '':8443''] (manager_vars0 ()) =
     Inr ((manager_vars0 ())\<lparr>mv_enableLeaderElection := True, mv_metricsAddr := '':8443''\<rparr>, [])"
  by code_simp

theorem manager_start_guarded_witness:
  "snd (controller_main list_controllerutil list_of_set [] () manager_world0
     [''-leader-elect'', ''-metrics-bind-address'', '':8443'']) = 0"
proof -
  have "Start \<in> set (fst (start_manager list_controllerutil list_of_set manager_world0 kc opts))" for kc opts
    by (simp add: start_manager_Start manager_world0_def)
  then have "Start \<in> set (fst (controller_main list_controllerutil list_of_set [] () manager_world0
      [''-leader-elect'', ''-metrics-bind-address'', '':8443'']))"
    using flags0 by (simp add: controller_main_def controller_init_def manager_world0_def del: parse_flags.simps)
  then show ?thesis
    using manager_start_guarded [OF flags0, of list_controllerutil list_of_set manager_world0]
    by (auto simp: manager_world0_def split: prod.splits)
qed

theorem servers_hardened_witness:
  "NextProtos (fold (\<lambda>f. f) (so_TLSOpts (mg_WebhookServer (managerOptions
     ((manager_vars0 ())\<lparr>mv_enableLeaderElection := True, mv_metricsAddr := '':8443''\<rparr>)))) \<lparr>NextProtos = [''h2'']\<rparr>) =
   [''http/1.1'']"
proof -
  have "\<forall>a \<in> set [''-leader-elect'', ''-metrics-bind-address'', '':8443'']. \<forall>x. read_flag a \<noteq> Flag ''enable-http2'' x"
    by (simp add: read_flag_def flag_body_def)
  then show ?thesis using servers_hardened [OF flags0, of "\<lparr>NextProtos = [''h2'']\<rparr>"] by auto
qed

end
