(* ===== verification/Deep_Copy_Store.thy ===== *)
theory Deep_Copy_Store
  imports Api_Types "HOL-Library.AList"
begin

text \<open>
  The store on which \<open>Deep_Copy\<close> runs the generated copies: slices and maps are references, and a struct
  copied by assignment shares them. The contract of a copy (\<open>stored_copy\<close>), of the copy of a map entry
  by entry (\<open>stored_map\<close>) and of an array element by element (\<open>stored_array\<close>) are locales; a map and
  an array of things that can be copied can be copied themselves, which two sublocales state. A Go map is
  the list of its entries in the order a \<open>range\<close> visits them, as everywhere.
\<close>

section \<open>The store\<close>

record slice =
  sl_arr :: nat
  sl_off :: nat
  sl_len :: nat

record profile_struct =
  ps_ReadOnly :: "slice option"
  ps_ReadWrite :: "slice option"
  ps_ReadExec :: "slice option"
  ps_ReadWriteExec :: "slice option"

text \<open>A \<open>LandlockProfile\<close>: kind and version, metadata, the map of the specification, the conditions of the status.\<close>

record 'm object_struct =
  ob_type :: "string \<times> string"
  ob_meta :: 'm
  ob_spec :: "nat option"
  ob_status :: "slice option"

text \<open>Arrays of strings, conditions and objects, maps of profiles and maps of references to these, by
  address, and what else other packages keep for the metadata and the conditions (\<open>hp_other\<close>, of any type:
  maps of labels, owner references, times); what is not allocated yet starts at \<open>hp_next\<close>.\<close>

record ('m, 'c, 'o) heap =
  hp_next :: nat
  hp_arrays :: "nat \<Rightarrow> string list"
  hp_conds :: "nat \<Rightarrow> 'c list"
  hp_objs :: "nat \<Rightarrow> 'm object_struct list"
  hp_bins :: "nat \<Rightarrow> (string \<times> profile_struct) list"
  hp_ctrs :: "nat \<Rightarrow> (string \<times> nat option) list"
  hp_other :: "nat \<Rightarrow> 'o"

text \<open>The elements of a slice, in the arrays of one kind.\<close>

definition elems :: "(('m, 'c, 'o) heap \<Rightarrow> nat \<Rightarrow> 'x list) \<Rightarrow> ('m, 'c, 'o) heap \<Rightarrow> slice \<Rightarrow> 'x list" where
  "elems get h s = take (sl_len s) (drop (sl_off s) (get h (sl_arr s)))"

lemma elems_nth:
  "sl_off s + sl_len s \<le> length (get h (sl_arr s)) \<Longrightarrow> i < sl_len s \<Longrightarrow>
     elems get h s ! i = get h (sl_arr s) ! (sl_off s + i)"
  by (simp add: elems_def)

section \<open>Values, references and well-formedness\<close>

text \<open>
  Each kind of reference has the value it stands for in a store, the addresses a reader of it visits,
  and a test that these are allocated, with slices within their arrays and maps without duplicate keys.
  First an array whose elements have values, references and a test of their own.
\<close>

definition array_value ::
  "(('m, 'c, 'o) heap \<Rightarrow> 'x \<Rightarrow> 'v) \<Rightarrow> (('m, 'c, 'o) heap \<Rightarrow> nat \<Rightarrow> 'x list) \<Rightarrow> ('m, 'c, 'o) heap \<Rightarrow> slice option \<Rightarrow> 'v list" where
  "array_value val get h s = (case s of None \<Rightarrow> [] | Some s \<Rightarrow> map (val h) (elems get h s))"

definition array_refs ::
  "(('m, 'c, 'o) heap \<Rightarrow> 'x \<Rightarrow> nat set) \<Rightarrow> (('m, 'c, 'o) heap \<Rightarrow> nat \<Rightarrow> 'x list) \<Rightarrow> ('m, 'c, 'o) heap \<Rightarrow> slice option \<Rightarrow> nat set" where
  "array_refs refs get h s =
     (case s of None \<Rightarrow> {} | Some s \<Rightarrow> insert (sl_arr s) (\<Union>x \<in> set (elems get h s). refs h x))"

definition array_ok ::
  "(('m, 'c, 'o) heap \<Rightarrow> 'x \<Rightarrow> bool) \<Rightarrow> (('m, 'c, 'o) heap \<Rightarrow> nat \<Rightarrow> 'x list) \<Rightarrow> ('m, 'c, 'o) heap \<Rightarrow> slice option \<Rightarrow> bool" where
  "array_ok ok get h s = (case s of None \<Rightarrow> True
     | Some s \<Rightarrow> sl_arr s < hp_next h \<and> sl_off s + sl_len s \<le> length (get h (sl_arr s)) \<and>
         (\<forall>x \<in> set (elems get h s). ok h x))"

text \<open>A map whose entries have values, references and a test of their own.\<close>

definition map_value ::
  "(('m, 'c, 'o) heap \<Rightarrow> 'x \<Rightarrow> 'v) \<Rightarrow> (('m, 'c, 'o) heap \<Rightarrow> nat \<Rightarrow> (string \<times> 'x) list) \<Rightarrow> ('m, 'c, 'o) heap \<Rightarrow> nat option \<Rightarrow> 'v go_map" where
  "map_value val get h m = map_option (\<lambda>a. map (\<lambda>(k, x). (k, val h x)) (get h a)) m"

definition map_refs ::
  "(('m, 'c, 'o) heap \<Rightarrow> 'x \<Rightarrow> nat set) \<Rightarrow> (('m, 'c, 'o) heap \<Rightarrow> nat \<Rightarrow> (string \<times> 'x) list) \<Rightarrow> ('m, 'c, 'o) heap \<Rightarrow> nat option \<Rightarrow> nat set" where
  "map_refs refs get h m =
     (case m of None \<Rightarrow> {} | Some a \<Rightarrow> insert a (\<Union>x \<in> snd ` set (get h a). refs h x))"

definition map_ok ::
  "(('m, 'c, 'o) heap \<Rightarrow> 'x \<Rightarrow> bool) \<Rightarrow> (('m, 'c, 'o) heap \<Rightarrow> nat \<Rightarrow> (string \<times> 'x) list) \<Rightarrow> ('m, 'c, 'o) heap \<Rightarrow> nat option \<Rightarrow> bool" where
  "map_ok ok get h m = (case m of None \<Rightarrow> True
     | Some a \<Rightarrow> a < hp_next h \<and> distinct (map fst (get h a)) \<and> (\<forall>x \<in> snd ` set (get h a). ok h x))"

section \<open>Stores that agree\<close>

text \<open>\<open>keeps A h h'\<close>: from \<open>h\<close> to \<open>h'\<close> the program allocated, and wrote to old addresses in \<open>A\<close> only.\<close>

definition keeps :: "nat set \<Rightarrow> ('m, 'c, 'o) heap \<Rightarrow> ('m, 'c, 'o) heap \<Rightarrow> bool" where
  "keeps A h h' \<longleftrightarrow> hp_next h \<le> hp_next h' \<and>
     (\<forall>a. a < hp_next h \<longrightarrow> a \<notin> A \<longrightarrow>
        hp_arrays h' a = hp_arrays h a \<and> hp_conds h' a = hp_conds h a \<and> hp_objs h' a = hp_objs h a \<and>
        hp_bins h' a = hp_bins h a \<and> hp_ctrs h' a = hp_ctrs h a \<and> hp_other h' a = hp_other h a)"

lemma keepsD:
  assumes "keeps A h h'"
  shows "hp_next h \<le> hp_next h'"
    and "a < hp_next h \<Longrightarrow> a \<notin> A \<Longrightarrow> hp_arrays h' a = hp_arrays h a"
    and "a < hp_next h \<Longrightarrow> a \<notin> A \<Longrightarrow> hp_conds h' a = hp_conds h a"
    and "a < hp_next h \<Longrightarrow> a \<notin> A \<Longrightarrow> hp_objs h' a = hp_objs h a"
    and "a < hp_next h \<Longrightarrow> a \<notin> A \<Longrightarrow> hp_bins h' a = hp_bins h a"
    and "a < hp_next h \<Longrightarrow> a \<notin> A \<Longrightarrow> hp_ctrs h' a = hp_ctrs h a"
    and "a < hp_next h \<Longrightarrow> a \<notin> A \<Longrightarrow> hp_other h' a = hp_other h a"
  using assms by (simp_all add: keeps_def)

lemma keeps_refl [simp]: "keeps A h h"
  by (simp add: keeps_def)

lemma keeps_trans: "keeps A h h1 \<Longrightarrow> keeps A h1 h2 \<Longrightarrow> keeps A h h2"
  by (auto simp: keeps_def)

lemma keeps_mono: "keeps A h h' \<Longrightarrow> A \<subseteq> B \<Longrightarrow> keeps B h h'"
  by (auto simp: keeps_def)

lemma keeps_fresh: "keeps (insert (hp_next h) A) h h' \<Longrightarrow> keeps A h h'"
  by (auto simp: keeps_def)

lemma alist_update_new: "k \<notin> fst ` set m \<Longrightarrow> AList.update k v m = m @ [(k, v)]"
  by (induction m) auto

text \<open>The result of a copy: the same value, at addresses the store did not have.\<close>

definition fresh_copy ::
  "(('m, 'c, 'o) heap \<Rightarrow> 'x \<Rightarrow> 'v) \<Rightarrow> (('m, 'c, 'o) heap \<Rightarrow> 'x \<Rightarrow> nat set) \<Rightarrow> (('m, 'c, 'o) heap \<Rightarrow> 'x \<Rightarrow> bool) \<Rightarrow> ('m, 'c, 'o) heap \<Rightarrow> 'x \<Rightarrow> ('m, 'c, 'o) heap \<Rightarrow> 'x \<Rightarrow> bool" where
  "fresh_copy val refs ok h x h' y \<longleftrightarrow> keeps {} h h' \<and> ok h' y \<and>
     refs h' y \<subseteq> {hp_next h..<hp_next h'} \<and> val h' y = val h x"

lemma fresh_copyD:
  assumes "fresh_copy val refs ok h x h' y"
  shows "keeps {} h h'" "ok h' y" "refs h' y \<subseteq> {hp_next h..<hp_next h'}" "val h' y = val h x"
  using assms by (simp_all add: fresh_copy_def)

section \<open>The contract of a copy\<close>

text \<open>What a kind of reference needs: writes elsewhere do not change it.\<close>

locale stored =
  fixes val :: "('m, 'c, 'o) heap \<Rightarrow> 'x \<Rightarrow> 'v"
    and refs :: "('m, 'c, 'o) heap \<Rightarrow> 'x \<Rightarrow> nat set"
    and ok :: "('m, 'c, 'o) heap \<Rightarrow> 'x \<Rightarrow> bool"
  assumes ok_refs: "ok h x \<Longrightarrow> refs h x \<subseteq> {..<hp_next h}"
    and stable: "ok h x \<Longrightarrow> keeps A h h' \<Longrightarrow> refs h x \<inter> A = {} \<Longrightarrow>
      ok h' x \<and> refs h' x = refs h x \<and> val h' x = val h x"
begin

lemma stableD:
  assumes "ok h x" "keeps A h h'" "refs h x \<inter> A = {}"
  shows "ok h' x" "refs h' x = refs h x" "val h' x = val h x"
  using stable [OF assms] by simp_all

lemma original_kept:
  assumes "ok h x" "fresh_copy val refs ok h x h' y"
  shows "ok h' x" "refs h' x = refs h x" "val h' x = val h x"
  using stable [OF assms(1) fresh_copyD(1) [OF assms(2)]] by simp_all

lemma copy_disjoint:
  assumes "ok h x" "fresh_copy val refs ok h x h' y"
  shows "refs h' x \<inter> refs h' y = {}"
  using original_kept(2) [OF assms] ok_refs [OF assms(1)] fresh_copyD(3) [OF assms(2)] by fastforce

text \<open>A copy lasts, and may be taken later.\<close>

lemma fresh_later:
  assumes "fresh_copy val refs ok h x h1 y" "keeps {} h1 h2"
  shows "fresh_copy val refs ok h x h2 y"
  using assms stable [OF fresh_copyD(2) [OF assms(1)] assms(2)] keepsD(1) [OF assms(2)]
  by (auto simp: fresh_copy_def intro: keeps_trans)

lemma fresh_from:
  assumes "ok h x" "keeps {} h h1" "fresh_copy val refs ok h1 x h2 y"
  shows "fresh_copy val refs ok h x h2 y"
  using assms(3) stable [OF assms(1,2)] keepsD(1) [OF assms(2)] keeps_trans [OF assms(2)]
  by (auto simp: fresh_copy_def)

text \<open>A write through one of the two is not seen through the other.\<close>

lemma copy_independent:
  assumes ok: "ok h x" and copy: "fresh_copy val refs ok h x h' y"
  shows "keeps (refs h' x) h' h'' \<Longrightarrow> val h'' y = val h x"
    and "keeps (refs h' y) h' h'' \<Longrightarrow> val h'' x = val h x"
proof -
  assume "keeps (refs h' x) h' h''"
  then have "val h'' y = val h' y"
    using copy_disjoint [OF ok copy] by (intro stableD(3) [OF fresh_copyD(2) [OF copy]]) auto
  then show "val h'' y = val h x" by (simp add: fresh_copyD(4) [OF copy])
next
  assume "keeps (refs h' y) h' h''"
  then have "val h'' x = val h' x"
    using copy_disjoint [OF ok copy] by (intro stableD(3) [OF original_kept(1) [OF ok copy]]) auto
  then show "val h'' x = val h x" by (simp add: original_kept(3) [OF ok copy])
qed

text \<open>What a copy is worth in a later store.\<close>

definition copied_as :: "('m, 'c, 'o) heap \<Rightarrow> ('m, 'c, 'o) heap \<Rightarrow> 'x \<Rightarrow> 'x \<Rightarrow> bool" where
  "copied_as h h' x y \<longleftrightarrow> ok h' y \<and> refs h' y \<subseteq> {hp_next h..<hp_next h'} \<and> val h' y = val h x"

end

text \<open>A copy of that kind of reference.\<close>

locale stored_copy = stored val refs ok
  for val :: "('m, 'c, 'o) heap \<Rightarrow> 'x \<Rightarrow> 'v" and refs :: "('m, 'c, 'o) heap \<Rightarrow> 'x \<Rightarrow> nat set" and ok :: "('m, 'c, 'o) heap \<Rightarrow> 'x \<Rightarrow> bool" +
  fixes copy :: "'x \<Rightarrow> ('m, 'c, 'o) heap \<Rightarrow> 'x \<times> ('m, 'c, 'o) heap"
  assumes copied: "ok h x \<Longrightarrow> copy x h = (y, h') \<Longrightarrow> fresh_copy val refs ok h x h' y"

text \<open>A copy that keeps the contract as soon as \<open>L\<close> holds.\<close>

lemma stored_copy_when:
  assumes "L \<Longrightarrow> stored_copy val refs ok copy"
  shows "stored_copy val refs (\<lambda>h x. L \<and> ok h x) copy"
proof (cases L)
  case True
  then show ?thesis using assms by simp
qed (simp add: stored_copy_def stored_def stored_copy_axioms_def)

text \<open>
  Assignments to the cells of one kind, maps or arrays, and copying into them what can be copied. The
  laws on \<open>put\<close> are those of an assignment to one cell of the store.
\<close>

locale stored_cells = stored_copy val refs ok copy
  for val :: "('m, 'c, 'o) heap \<Rightarrow> 'x \<Rightarrow> 'v" and refs :: "('m, 'c, 'o) heap \<Rightarrow> 'x \<Rightarrow> nat set"
    and ok :: "('m, 'c, 'o) heap \<Rightarrow> 'x \<Rightarrow> bool" and copy :: "'x \<Rightarrow> ('m, 'c, 'o) heap \<Rightarrow> 'x \<times> ('m, 'c, 'o) heap" +
  fixes get :: "('m, 'c, 'o) heap \<Rightarrow> nat \<Rightarrow> 'y list"
    and put :: "nat \<Rightarrow> 'y list \<Rightarrow> ('m, 'c, 'o) heap \<Rightarrow> ('m, 'c, 'o) heap"
  assumes get_put: "get (put a m h) = (get h)(a := m)"
    and keeps_put: "keeps {a} h (put a m h)"
    and next_put: "hp_next (put a m h) = hp_next h"
    and get_keeps: "keeps A h h' \<Longrightarrow> a < hp_next h \<Longrightarrow> a \<notin> A \<Longrightarrow> get h' a = get h a"
begin

lemma cell_kept: "ok h x \<Longrightarrow> copy x h = (y, h1) \<Longrightarrow> a < hp_next h \<Longrightarrow> get h1 a = get h a"
  using get_keeps [OF fresh_copyD(1) [OF copied]] by simp

text \<open>One round of a loop that copies into the cell at \<open>a\<close>.\<close>

lemma one_round:
  assumes "ok h x" "copy x h = (y, h1)" "a < hp_next h"
  shows "keeps {a} h (put a m h1)" "hp_next h \<le> hp_next (put a m h1)"
    and "keeps {a} (put a m h1) h' \<Longrightarrow> copied_as h h' x y"
    and "ok h z \<Longrightarrow> a \<notin> refs h z \<Longrightarrow>
      ok (put a m h1) z \<and> a \<notin> refs (put a m h1) z \<and> val (put a m h1) z = val h z"
proof -
  note fresh = copied [OF assms(1,2)]
  note k1 = fresh_copyD(1) [OF fresh]
  show k: "keeps {a} h (put a m h1)" using keeps_trans [OF keeps_mono [OF k1] keeps_put] by simp
  show "hp_next h \<le> hp_next (put a m h1)" by (rule keepsD(1) [OF k])
  show "copied_as h h' x y" if k2: "keeps {a} (put a m h1) h'"
  proof -
    have "refs h1 y \<inter> {a} = {}" using fresh_copyD(3) [OF fresh] assms(3) by auto
    note y' = stableD [OF fresh_copyD(2) [OF fresh] keeps_trans [OF keeps_put k2] this]
    show ?thesis
      using y' fresh_copyD(3,4) [OF fresh] keepsD(1) [OF k2] next_put by (fastforce simp: copied_as_def)
  qed
  show "ok (put a m h1) z \<and> a \<notin> refs (put a m h1) z \<and> val (put a m h1) z = val h z"
    if "ok h z" "a \<notin> refs h z"
    using stable [OF that(1) k] that(2) by simp
qed

lemma copied_earlier: "copied_as h2 h' x y \<Longrightarrow> val h2 x = val h x \<Longrightarrow> hp_next h \<le> hp_next h2 \<Longrightarrow> copied_as h h' x y"
  by (auto simp: copied_as_def)

end

section \<open>Maps\<close>

text \<open>A map whose entries are copied one by one: allocation, the loop, and the copy of the whole.\<close>

locale stored_map = stored_cells val refs ok copy get put
  for val :: "('m, 'c, 'o) heap \<Rightarrow> 'x \<Rightarrow> 'v" and refs :: "('m, 'c, 'o) heap \<Rightarrow> 'x \<Rightarrow> nat set"
    and ok :: "('m, 'c, 'o) heap \<Rightarrow> 'x \<Rightarrow> bool" and copy :: "'x \<Rightarrow> ('m, 'c, 'o) heap \<Rightarrow> 'x \<times> ('m, 'c, 'o) heap"
    and get :: "('m, 'c, 'o) heap \<Rightarrow> nat \<Rightarrow> (string \<times> 'x) list"
    and put :: "nat \<Rightarrow> (string \<times> 'x) list \<Rightarrow> ('m, 'c, 'o) heap \<Rightarrow> ('m, 'c, 'o) heap" +
  fixes alloc :: "('m, 'c, 'o) heap \<Rightarrow> nat \<times> ('m, 'c, 'o) heap"
    and loop :: "(string \<times> 'x) list \<Rightarrow> nat \<Rightarrow> ('m, 'c, 'o) heap \<Rightarrow> ('m, 'c, 'o) heap"
    and copy_map :: "nat option \<Rightarrow> ('m, 'c, 'o) heap \<Rightarrow> nat option \<times> ('m, 'c, 'o) heap"
  assumes alloc_new: "\<exists>h1. alloc h = (hp_next h, h1) \<and> hp_next h1 = Suc (hp_next h) \<and> keeps {} h h1
      \<and> get h1 (hp_next h) = []"
    and loop_Nil: "loop [] a h = h"
    and loop_Cons: "loop ((k, x) # rest) a h =
      (let (y, h1) = copy x h in loop rest a (put a (AList.update k y (get h1 a)) h1))"
    and copy_map: "copy_map r h =
      (case r of None \<Rightarrow> (None, h) | Some src \<Rightarrow> (let (dst, h1) = alloc h in (Some dst, loop (get h1 src) dst h1)))"
begin

text \<open>One entry of the copy beside the entry it is a copy of.\<close>

definition entry_copied :: "('m, 'c, 'o) heap \<Rightarrow> ('m, 'c, 'o) heap \<Rightarrow> string \<times> 'x \<Rightarrow> string \<times> 'x \<Rightarrow> bool" where
  "entry_copied h h' e e' \<longleftrightarrow> fst e' = fst e \<and> copied_as h h' (snd e) (snd e')"

lemma loop_copies:
  assumes "a < hp_next h" "distinct (map fst xs)" "fst ` set xs \<inter> fst ` set (get h a) = {}"
    and "\<And>x. x \<in> snd ` set xs \<Longrightarrow> ok h x \<and> a \<notin> refs h x"
  shows "keeps {a} h (loop xs a h) \<and>
     (\<exists>ys. get (loop xs a h) a = get h a @ ys \<and> list_all2 (entry_copied h (loop xs a h)) xs ys)"
  using assms
proof (induction xs arbitrary: h)
  case Nil
  then show ?case by (simp add: loop_Nil)
next
  case (Cons e rest)
  obtain k x where e: "e = (k, x)" by (cases e)
  obtain y h1 where y: "copy x h = (y, h1)" by (cases "copy x h")
  define h2 where "h2 = put a (AList.update k y (get h1 a)) h1"
  let ?h' = "loop rest a h2"
  have loop: "loop (e # rest) a h = ?h'" by (simp add: e y loop_Cons h2_def)
  have okx: "ok h x" using Cons.prems(4) [of x] by (simp add: e)
  note this_round = one_round [OF okx y Cons.prems(1), where m = "AList.update k y (get h1 a)", folded h2_def]
  have g2: "get h2 a = get h a @ [(k, y)]"
    using cell_kept [OF okx y Cons.prems(1)] Cons.prems(3) by (simp add: h2_def get_put e alist_update_new)
  have rest: "ok h2 z \<and> a \<notin> refs h2 z \<and> val h2 z = val h z" if "z \<in> snd ` set rest" for z
    using this_round(4) Cons.prems(4) [of z] that by auto
  have IH: "keeps {a} h2 ?h' \<and> (\<exists>ys. get ?h' a = get h2 a @ ys \<and> list_all2 (entry_copied h2 ?h') rest ys)"
  proof (rule Cons.IH)
    show "a < hp_next h2" using Cons.prems(1) this_round(2) by simp
    show "distinct (map fst rest)" using Cons.prems(2) by simp
    show "fst ` set rest \<inter> fst ` set (get h2 a) = {}" using Cons.prems(2,3) by (auto simp: g2 e)
    show "\<And>z. z \<in> snd ` set rest \<Longrightarrow> ok h2 z \<and> a \<notin> refs h2 z" using rest by blast
  qed
  then obtain ys where k2: "keeps {a} h2 ?h'" and g: "get ?h' a = get h2 a @ ys"
    and all: "list_all2 (entry_copied h2 ?h') rest ys" by blast
  have "entry_copied h ?h' e (k, y)" using this_round(3) [OF k2] by (simp add: entry_copied_def e)
  moreover have "list_all2 (entry_copied h ?h') rest ys"
    using all rest copied_earlier [OF _ _ this_round(2)]
    by (elim list.rel_mono_strong) (auto simp: entry_copied_def)
  ultimately show ?case
    using keeps_trans [OF this_round(1) k2] by (auto simp: loop g g2 intro!: exI [of _ "(k, y) # ys"])
qed

lemma map_stable:
  assumes ok: "map_ok ok get h m" and k: "keeps A h h'" and disj: "map_refs refs get h m \<inter> A = {}"
  shows "map_ok ok get h' m \<and> map_refs refs get h' m = map_refs refs get h m
     \<and> map_value val get h' m = map_value val get h m"
proof (cases m)
  case None
  then show ?thesis by (simp add: map_ok_def map_refs_def map_value_def)
next
  case (Some a)
  have a: "a < hp_next h" "a \<notin> A" using ok disj by (auto simp: Some map_ok_def map_refs_def)
  note g = get_keeps [OF k a]
  have each: "ok h' x \<and> refs h' x = refs h x \<and> val h' x = val h x" if "(n, x) \<in> set (get h a)" for n x
    using that ok disj by (intro stable [OF _ k]) (force simp: Some map_ok_def map_refs_def)+
  show ?thesis
    using ok each a keepsD(1) [OF k] by (fastforce simp: Some g map_ok_def map_refs_def map_value_def)
qed

lemma map_in_store: "map_ok ok get h m \<Longrightarrow> map_refs refs get h m \<subseteq> {..<hp_next h}"
  using ok_refs by (fastforce simp: map_ok_def map_refs_def split: option.splits)

lemma entries_copied:
  assumes "list_all2 (entry_copied h h') xs ys"
  shows "map fst ys = map fst xs"
    and "map (\<lambda>(k, y). (k, val h' y)) ys = map (\<lambda>(k, x). (k, val h x)) xs"
    and "\<And>y. y \<in> snd ` set ys \<Longrightarrow> ok h' y \<and> refs h' y \<subseteq> {hp_next h..<hp_next h'}"
  using assms by (induction rule: list_all2_induct) (auto simp: entry_copied_def copied_as_def)

lemma map_copied:
  assumes ok: "map_ok ok get h m" and copy: "copy_map m h = (m', h')"
  shows "fresh_copy (map_value val get) (map_refs refs get) (map_ok ok get) h m h' m'"
proof (cases m)
  case None
  then show ?thesis
    using copy by (auto simp: copy_map fresh_copy_def map_ok_def map_refs_def map_value_def)
next
  case (Some src)
  obtain h1 where al: "alloc h = (hp_next h, h1)" and n1: "hp_next h1 = Suc (hp_next h)"
    and k1: "keeps {} h h1" and g1: "get h1 (hp_next h) = []"
    using alloc_new by blast
  define xs where "xs = get h src"
  have g: "get h1 src = xs" using get_keeps [OF k1] ok by (simp add: Some map_ok_def xs_def)
  have m': "m' = Some (hp_next h)" and h': "h' = loop xs (hp_next h) h1"
    using copy by (simp_all add: Some copy_map al g)
  have xs: "distinct (map fst xs)" "\<And>x. x \<in> snd ` set xs \<Longrightarrow> ok h x"
    using ok by (auto simp: Some map_ok_def xs_def)
  have each: "ok h1 x \<and> hp_next h \<notin> refs h1 x \<and> val h1 x = val h x" if "x \<in> snd ` set xs" for x
    using stable [OF xs(2) [OF that] k1] ok_refs [OF xs(2) [OF that]] by auto
  have "keeps {hp_next h} h1 h' \<and>
      (\<exists>ys. get h' (hp_next h) = get h1 (hp_next h) @ ys \<and> list_all2 (entry_copied h1 h') xs ys)"
    unfolding h' using xs(1) each by (intro loop_copies) (simp_all add: n1 g1)
  then obtain ys where k2: "keeps {hp_next h} h1 h'" and ys: "get h' (hp_next h) = ys"
    and all: "list_all2 (entry_copied h1 h') xs ys" by (auto simp: g1)
  have k: "keeps {} h h'" by (rule keeps_fresh, rule keeps_trans [OF keeps_mono [OF k1] k2]) simp
  have vals: "map (\<lambda>(k, x). (k, val h1 x)) xs = map (\<lambda>(k, x). (k, val h x)) xs"
    using each by (force intro!: map_cong)
  have n: "hp_next h < hp_next h'" using n1 keepsD(1) [OF k2] by simp
  have "map_ok ok get h' m'"
    using entries_copied [OF all] xs(1) n by (auto simp: map_ok_def m' ys)
  moreover have "map_refs refs get h' m' \<subseteq> {hp_next h..<hp_next h'}"
    using entries_copied(3) [OF all] n n1 by (fastforce simp: map_refs_def m' ys)
  moreover have "map_value val get h' m' = map_value val get h m"
    using entries_copied(2) [OF all] vals by (simp add: map_value_def m' ys Some flip: xs_def)
  ultimately show ?thesis using k by (simp add: fresh_copy_def)
qed

end

text \<open>So a map of things that can be copied can be copied itself.\<close>

sublocale stored_map \<subseteq> whole: stored_copy "map_value val get" "map_refs refs get" "map_ok ok get" copy_map
proof unfold_locales
  fix h m h' and A :: "nat set"
  assume ok: "map_ok ok get h m"
  show "map_refs refs get h m \<subseteq> {..<hp_next h}" by (rule map_in_store [OF ok])
  show "map_ok ok get h' m \<and> map_refs refs get h' m = map_refs refs get h m
      \<and> map_value val get h' m = map_value val get h m"
    if "keeps A h h'" "map_refs refs get h m \<inter> A = {}"
    by (rule map_stable [OF ok that])
  show "fresh_copy (map_value val get) (map_refs refs get) (map_ok ok get) h m h' m'"
    if "copy_map m h = (m', h')" for m'
    by (rule map_copied [OF ok that])
qed

section \<open>Arrays\<close>

text \<open>
  An array whose elements are copied one by one, by index, into a new array of the same length: the loop
  \<open>for i := range *in\<close> runs over the list of the indices.
\<close>

locale stored_array = stored_cells val refs ok copy get put
  for val :: "('m, 'c, 'o) heap \<Rightarrow> 'x \<Rightarrow> 'v" and refs :: "('m, 'c, 'o) heap \<Rightarrow> 'x \<Rightarrow> nat set"
    and ok :: "('m, 'c, 'o) heap \<Rightarrow> 'x \<Rightarrow> bool" and copy :: "'x \<Rightarrow> ('m, 'c, 'o) heap \<Rightarrow> 'x \<times> ('m, 'c, 'o) heap"
    and get :: "('m, 'c, 'o) heap \<Rightarrow> nat \<Rightarrow> 'x list"
    and put :: "nat \<Rightarrow> 'x list \<Rightarrow> ('m, 'c, 'o) heap \<Rightarrow> ('m, 'c, 'o) heap" +
  fixes alloc :: "nat \<Rightarrow> ('m, 'c, 'o) heap \<Rightarrow> slice \<times> ('m, 'c, 'o) heap"
    and loop :: "nat list \<Rightarrow> slice \<Rightarrow> slice \<Rightarrow> ('m, 'c, 'o) heap \<Rightarrow> ('m, 'c, 'o) heap"
    and copy_array :: "slice option \<Rightarrow> ('m, 'c, 'o) heap \<Rightarrow> slice option \<times> ('m, 'c, 'o) heap"
  assumes alloc_new: "\<exists>h1. alloc n h = (\<lparr>sl_arr = hp_next h, sl_off = 0, sl_len = n\<rparr>, h1) \<and>
      hp_next h1 = Suc (hp_next h) \<and> keeps {} h h1 \<and> length (get h1 (hp_next h)) = n"
    and loop_Nil: "loop [] dst src h = h"
    and loop_Cons: "loop (i # rest) dst src h =
      (let (y, h1) = copy (get h (sl_arr src) ! (sl_off src + i)) h in
       loop rest dst src (put (sl_arr dst) ((get h1 (sl_arr dst))[sl_off dst + i := y]) h1))"
    and copy_array: "copy_array s h =
      (case s of None \<Rightarrow> (None, h)
       | Some src \<Rightarrow> (let (dst, h1) = alloc (sl_len src) h in (Some dst, loop [0..<sl_len src] dst src h1)))"
begin

lemma loop_copies:
  assumes "dst = \<lparr>sl_arr = a, sl_off = 0, sl_len = n\<rparr>" "a < hp_next h"
    and "sl_arr src < hp_next h" "sl_arr src \<noteq> a" "sl_off src + sl_len src \<le> length (get h (sl_arr src))"
    and "sl_len src = length pre + length xs" "elems get h src = pre @ xs"
    and "length (get h a) = length pre + length xs"
    and "\<And>x. x \<in> set xs \<Longrightarrow> ok h x \<and> a \<notin> refs h x"
    and "h' = loop [length pre..<sl_len src] dst src h"
  shows "keeps {a} h h' \<and> (\<exists>ys. get h' a = take (length pre) (get h a) @ ys \<and> list_all2 (copied_as h h') xs ys)"
  using assms(2-)
proof (induction xs arbitrary: pre h)
  case Nil
  then show ?case by (simp add: loop_Nil)
next
  case (Cons x rest)
  let ?j = "length pre"
  obtain y h1 where y: "copy x h = (y, h1)" by (cases "copy x h")
  have x: "get h (sl_arr src) ! (sl_off src + ?j) = x"
    using Cons.prems(4-6) elems_nth [where get = get and h = h and s = src and i = ?j] by simp
  define h2 where "h2 = put a ((get h1 a)[?j := y]) h1"
  have "[?j..<sl_len src] = ?j # [Suc ?j..<sl_len src]"
    using Cons.prems(5) by (intro upt_conv_Cons) simp
  then have loop: "h' = loop [Suc ?j..<sl_len src] dst src h2"
    by (simp add: Cons.prems(9) loop_Cons x y h2_def assms(1))
  have okx: "ok h x" using Cons.prems(8) by simp
  note this_round = one_round [OF okx y Cons.prems(1), where m = "(get h1 a)[?j := y]", folded h2_def]
  have g2: "get h2 a = (get h a)[?j := y]"
    using cell_kept [OF okx y Cons.prems(1)] by (simp add: h2_def get_put)
  have src: "get h2 (sl_arr src) = get h (sl_arr src)"
    using get_keeps [OF this_round(1) Cons.prems(2)] Cons.prems(3) by simp
  have rest: "ok h2 z \<and> a \<notin> refs h2 z \<and> val h2 z = val h z" if "z \<in> set rest" for z
    using this_round(4) Cons.prems(8) [of z] that by auto
  have "keeps {a} h2 h' \<and> (\<exists>ys. get h' a = take (length (pre @ [x])) (get h2 a) @ ys \<and>
      list_all2 (copied_as h2 h') rest ys)"
    by (rule Cons.IH)
      (use Cons.prems(1-7) rest this_round(2) src loop in \<open>auto simp: elems_def g2\<close>)
  then obtain ys where k2: "keeps {a} h2 h'" and g: "get h' a = take (Suc ?j) (get h2 a) @ ys"
    and all: "list_all2 (copied_as h2 h') rest ys" by auto
  have "take (Suc ?j) (get h2 a) = take ?j (get h a) @ [y]"
    using Cons.prems(7) by (simp add: g2 take_Suc_conv_app_nth)
  moreover have "list_all2 (copied_as h h') rest ys"
    using all rest copied_earlier [OF _ _ this_round(2)] by (elim list.rel_mono_strong) auto
  ultimately show ?case
    using keeps_trans [OF this_round(1) k2] this_round(3) [OF k2] by (auto simp: g intro!: exI [of _ "y # ys"])
qed

lemma array_in_store: "array_ok ok get h s \<Longrightarrow> array_refs refs get h s \<subseteq> {..<hp_next h}"
  using ok_refs by (fastforce simp: array_ok_def array_refs_def split: option.splits)

lemma array_stable:
  assumes ok: "array_ok ok get h s" and k: "keeps A h h'" and disj: "array_refs refs get h s \<inter> A = {}"
  shows "array_ok ok get h' s \<and> array_refs refs get h' s = array_refs refs get h s
     \<and> array_value val get h' s = array_value val get h s"
proof (cases s)
  case None
  then show ?thesis by (simp add: array_ok_def array_refs_def array_value_def)
next
  case (Some t)
  have a: "sl_arr t < hp_next h" "sl_arr t \<notin> A" using ok disj by (auto simp: Some array_ok_def array_refs_def)
  note g = get_keeps [OF k a]
  have e: "elems get h' t = elems get h t" by (simp add: elems_def g)
  have each: "ok h' x \<and> refs h' x = refs h x \<and> val h' x = val h x" if "x \<in> set (elems get h t)" for x
    using that ok disj by (intro stable [OF _ k]) (auto simp: Some array_ok_def array_refs_def)
  show ?thesis
    using ok each a keepsD(1) [OF k] by (simp add: Some g e array_ok_def array_refs_def array_value_def)
qed

lemma elements_copied:
  assumes "list_all2 (copied_as h h') xs ys"
  shows "length ys = length xs" "map (val h') ys = map (val h) xs"
    and "\<And>y. y \<in> set ys \<Longrightarrow> ok h' y \<and> refs h' y \<subseteq> {hp_next h..<hp_next h'}"
  using assms by (induction rule: list_all2_induct) (auto simp: copied_as_def)

lemma array_copied:
  assumes ok: "array_ok ok get h s" and copy: "copy_array s h = (s', h')"
  shows "fresh_copy (array_value val get) (array_refs refs get) (array_ok ok get) h s h' s'"
proof (cases s)
  case None
  then show ?thesis
    using copy by (auto simp: copy_array fresh_copy_def array_ok_def array_refs_def array_value_def)
next
  case (Some src)
  define a where "a = hp_next h"
  define dst where "dst = \<lparr>sl_arr = a, sl_off = 0, sl_len = sl_len src\<rparr>"
  define xs where "xs = elems get h src"
  obtain h1 where al: "alloc (sl_len src) h = (dst, h1)" and n1: "hp_next h1 = Suc a"
    and k1: "keeps {} h h1" and g1: "length (get h1 a) = sl_len src"
    using alloc_new [of "sl_len src" h] by (auto simp: dst_def a_def)
  have src: "sl_arr src < a" "sl_off src + sl_len src \<le> length (get h (sl_arr src))" "\<And>x. x \<in> set xs \<Longrightarrow> ok h x"
    using ok by (simp_all add: Some array_ok_def xs_def a_def)
  have g: "get h1 (sl_arr src) = get h (sl_arr src)" using get_keeps [OF k1] src(1) by (simp add: a_def)
  then have e: "elems get h1 src = xs" by (simp add: elems_def xs_def)
  have len: "length xs = sl_len src" using src(2) by (simp add: xs_def elems_def)
  have s': "s' = Some dst" and h': "h' = loop [0..<sl_len src] dst src h1"
    using copy by (simp_all add: Some copy_array al)
  have each: "ok h1 x \<and> a \<notin> refs h1 x \<and> val h1 x = val h x" if "x \<in> set xs" for x
    using stable [OF src(3) [OF that] k1] ok_refs [OF src(3) [OF that]] by (auto simp: a_def)
  have "keeps {a} h1 h' \<and> (\<exists>ys. get h' a = take (length ([] :: 'x list)) (get h1 a) @ ys \<and> list_all2 (copied_as h1 h') xs ys)"
  proof (rule loop_copies [OF dst_def])
    show "a < hp_next h1" "sl_arr src < hp_next h1" "sl_arr src \<noteq> a" using src(1) n1 by simp_all
    show "sl_off src + sl_len src \<le> length (get h1 (sl_arr src))" using src(2) g by simp
    show "sl_len src = length ([] :: 'x list) + length xs" "elems get h1 src = [] @ xs" "length (get h1 a) = length ([] :: 'x list) + length xs"
      using len e g1 by simp_all
    show "\<And>x. x \<in> set xs \<Longrightarrow> ok h1 x \<and> a \<notin> refs h1 x" using each by blast
    show "h' = loop [length ([] :: 'x list)..<sl_len src] dst src h1" using h' by simp
  qed
  then obtain ys where k2: "keeps {a} h1 h'" and ys: "get h' a = ys" and all: "list_all2 (copied_as h1 h') xs ys"
    by auto
  note copies = elements_copied [OF all]
  have k: "keeps {} h h'" unfolding a_def [symmetric]
    by (rule keeps_fresh, rule keeps_trans [OF keeps_mono [OF k1] k2 [unfolded a_def]]) simp
  have vals: "map (val h1) xs = map (val h) xs" using each by simp
  have n: "a < hp_next h'" using n1 keepsD(1) [OF k2] by simp
  have dst: "elems get h' dst = ys" using copies(1) len by (simp add: elems_def dst_def ys)
  have "array_ok ok get h' s'"
    using copies(1,3) n len by (simp add: array_ok_def s' dst) (simp add: dst_def ys)
  moreover have "array_refs refs get h' s' \<subseteq> {hp_next h..<hp_next h'}"
  proof -
    have "sl_arr dst = a" by (simp add: dst_def)
    then show ?thesis using copies(3) n n1 by (fastforce simp: array_refs_def s' dst a_def)
  qed
  moreover have "array_value val get h' s' = array_value val get h s"
    using copies(2) vals by (simp add: array_value_def s' dst Some flip: xs_def)
  ultimately show ?thesis using k by (simp add: fresh_copy_def)
qed

end

sublocale stored_array \<subseteq> whole: stored_copy "array_value val get" "array_refs refs get" "array_ok ok get" copy_array
proof unfold_locales
  fix h s h' and A :: "nat set"
  assume ok: "array_ok ok get h s"
  show "array_refs refs get h s \<subseteq> {..<hp_next h}" by (rule array_in_store [OF ok])
  show "array_ok ok get h' s \<and> array_refs refs get h' s = array_refs refs get h s
      \<and> array_value val get h' s = array_value val get h s"
    if "keeps A h h'" "array_refs refs get h s \<inter> A = {}"
    by (rule array_stable [OF ok that])
  show "fresh_copy (array_value val get) (array_refs refs get) (array_ok ok get) h s h' s'"
    if "copy_array s h = (s', h')" for s'
    by (rule array_copied [OF ok that])
qed

end
