(* ===== verification/Deep_Copy.thy ===== *)
theory Deep_Copy
  imports Deep_Copy_Store
begin

text \<open>
  \<open>api/v1alpha1/zz_generated.deepcopy.go\<close> on the store of \<open>Deep_Copy_Store\<close>: every function, from the
  slices of a \<open>Profile\<close> to lists of profiles. The reconciler takes a deep copy of a profile before it changes
  the profile in place, the client library hands out copies of its cache, and everywhere else the models
  use plain values; this theory shows that a deep copy has the value of the original, and that no later
  write through one of the two is seen through the other. The metadata of a profile and of a list and the
  conditions belong to another package: they are parameters (\<open>metav1\<close>), values with references into the store,
  whose copies are documented to be deep (\<open>metav1_laws\<close>).
\<close>

section \<open>Parameters\<close>

text \<open>A type of another package: the value that an object of it stands for in a store, the addresses it refers
  to (of its labels and finalizers, for the metadata), when these are allocated, its generated
  \<open>DeepCopyInto\<close>, and its zero value.\<close>

record ('x, 'v, 'h) part =
  pt_value :: "'h \<Rightarrow> 'x \<Rightarrow> 'v"
  pt_refs :: "'h \<Rightarrow> 'x \<Rightarrow> nat set"
  pt_ok :: "'h \<Rightarrow> 'x \<Rightarrow> bool"
  pt_DeepCopyInto :: "'x \<Rightarrow> 'h \<Rightarrow> 'x \<times> 'h"
  pt_zero :: 'x

record ('m, 'c, 'o, 'l, 'v) metav1 =
  v1_ObjectMeta :: "('m, 'v, ('m, 'c, 'o) heap) part"
  v1_Condition :: "('c, 'v, ('m, 'c, 'o) heap) part"
  v1_ListMeta :: "('l, 'v, ('m, 'c, 'o) heap) part"

text \<open>Their documented behaviour: the copy has the value of the original and shares nothing with it.\<close>

definition part_laws :: "('x, 'v, ('m, 'c, 'o) heap) part \<Rightarrow> bool" where
  "part_laws pt \<longleftrightarrow> stored_copy (pt_value pt) (pt_refs pt) (pt_ok pt) (pt_DeepCopyInto pt)"

definition metav1_laws :: "('m, 'c, 'o, 'l, 'v) metav1 \<Rightarrow> bool" where
  "metav1_laws mv \<longleftrightarrow>
     part_laws (v1_ObjectMeta mv) \<and> part_laws (v1_Condition mv) \<and> part_laws (v1_ListMeta mv)"

lemma metav1_lawsD:
  assumes "metav1_laws mv"
  shows "part_laws (v1_ObjectMeta mv)" "part_laws (v1_Condition mv)" "part_laws (v1_ListMeta mv)"
  using assms by (simp_all add: metav1_laws_def)

section \<open>Allocation\<close>

text \<open>\<open>make([]string, n)\<close> and \<open>copy(dst, src)\<close>.\<close>

definition make_slice :: "nat \<Rightarrow> ('m, 'c, 'o) heap \<Rightarrow> slice \<times> ('m, 'c, 'o) heap" where
  "make_slice n h =
     (\<lparr>sl_arr = hp_next h, sl_off = 0, sl_len = n\<rparr>,
      h\<lparr>hp_next := Suc (hp_next h), hp_arrays := (hp_arrays h)(hp_next h := replicate n [])\<rparr>)"

definition copy_elems :: "slice \<Rightarrow> slice \<Rightarrow> ('m, 'c, 'o) heap \<Rightarrow> ('m, 'c, 'o) heap" where
  "copy_elems dst src h =
     (let xs = take (sl_len dst) (elems hp_arrays h src); a = hp_arrays h (sl_arr dst) in
      h\<lparr>hp_arrays := (hp_arrays h)(sl_arr dst :=
          take (sl_off dst) a @ xs @ drop (sl_off dst + length xs) a)\<rparr>)"

text \<open>\<open>make(map...)\<close> of either kind.\<close>

definition make_bins :: "('m, 'c, 'o) heap \<Rightarrow> nat \<times> ('m, 'c, 'o) heap" where
  "make_bins h = (hp_next h, h\<lparr>hp_next := Suc (hp_next h), hp_bins := (hp_bins h)(hp_next h := [])\<rparr>)"

definition make_ctrs :: "('m, 'c, 'o) heap \<Rightarrow> nat \<times> ('m, 'c, 'o) heap" where
  "make_ctrs h = (hp_next h, h\<lparr>hp_next := Suc (hp_next h), hp_ctrs := (hp_ctrs h)(hp_next h := [])\<rparr>)"

text \<open>\<open>make([]v1.Condition, n)\<close> and \<open>make([]LandlockProfile, n)\<close>, of zero values.\<close>

definition make_conds :: "('m, 'c, 'o, 'l, 'v) metav1 \<Rightarrow> nat \<Rightarrow> ('m, 'c, 'o) heap \<Rightarrow> slice \<times> ('m, 'c, 'o) heap" where
  "make_conds mv n h =
     (\<lparr>sl_arr = hp_next h, sl_off = 0, sl_len = n\<rparr>,
      h\<lparr>hp_next := Suc (hp_next h), hp_conds := (hp_conds h)(hp_next h := replicate n (pt_zero (v1_Condition mv)))\<rparr>)"

definition zero_object :: "('m, 'c, 'o, 'l, 'v) metav1 \<Rightarrow> 'm object_struct" where
  "zero_object mv = \<lparr>ob_type = ([], []), ob_meta = pt_zero (v1_ObjectMeta mv), ob_spec = None, ob_status = None\<rparr>"

definition make_objs :: "('m, 'c, 'o, 'l, 'v) metav1 \<Rightarrow> nat \<Rightarrow> ('m, 'c, 'o) heap \<Rightarrow> slice \<times> ('m, 'c, 'o) heap" where
  "make_objs mv n h =
     (\<lparr>sl_arr = hp_next h, sl_off = 0, sl_len = n\<rparr>,
      h\<lparr>hp_next := Suc (hp_next h), hp_objs := (hp_objs h)(hp_next h := replicate n (zero_object mv))\<rparr>)"

section \<open>zz_generated.deepcopy.go\<close>

text \<open>The four equal blocks: \<open>if in.F != nil { *out = make(...); copy(*out, *in) }\<close>.\<close>

definition copy_slice :: "slice option \<Rightarrow> ('m, 'c, 'o) heap \<Rightarrow> slice option \<times> ('m, 'c, 'o) heap" where
  "copy_slice s h =
     (case s of
        None \<Rightarrow> (None, h)
      | Some src \<Rightarrow> (let (dst, h1) = make_slice (sl_len src) h in (Some dst, copy_elems dst src h1)))"

definition Profile_DeepCopyInto :: "profile_struct \<Rightarrow> ('m, 'c, 'o) heap \<Rightarrow> profile_struct \<times> ('m, 'c, 'o) heap" where
  "Profile_DeepCopyInto p h =
     (let out = p;
          (ro, h1) = copy_slice (ps_ReadOnly p) h; out = out\<lparr>ps_ReadOnly := ro\<rparr>;
          (rw, h2) = copy_slice (ps_ReadWrite p) h1; out = out\<lparr>ps_ReadWrite := rw\<rparr>;
          (rx, h3) = copy_slice (ps_ReadExec p) h2; out = out\<lparr>ps_ReadExec := rx\<rparr>;
          (rwx, h4) = copy_slice (ps_ReadWriteExec p) h3; out = out\<lparr>ps_ReadWriteExec := rwx\<rparr>
      in (out, h4))"

text \<open>\<open>DeepCopy\<close> of a pointer: \<open>new\<close>, then \<open>DeepCopyInto\<close>; a nil pointer is copied to nil.\<close>

definition Profile_DeepCopy :: "profile_struct option \<Rightarrow> ('m, 'c, 'o) heap \<Rightarrow> profile_struct option \<times> ('m, 'c, 'o) heap" where
  "Profile_DeepCopy p h =
     (case p of None \<Rightarrow> (None, h) | Some p \<Rightarrow> (let (out, h1) = Profile_DeepCopyInto p h in (Some out, h1)))"

text \<open>The loop over a map of profiles, into the map at \<open>a\<close>.\<close>

fun copy_bins :: "(string \<times> profile_struct) list \<Rightarrow> nat \<Rightarrow> ('m, 'c, 'o) heap \<Rightarrow> ('m, 'c, 'o) heap" where
  "copy_bins [] a h = h"
| "copy_bins ((key, val) # rest) a h =
     (let (val', h1) = Profile_DeepCopy (Some val) h in
      copy_bins rest a (h1\<lparr>hp_bins := (hp_bins h1)(a := AList.update key (the val') (hp_bins h1 a))\<rparr>))"

definition ProfileByBinary_DeepCopyInto :: "nat option \<Rightarrow> ('m, 'c, 'o) heap \<Rightarrow> nat \<times> ('m, 'c, 'o) heap" where
  "ProfileByBinary_DeepCopyInto m h =
     (let (dst, h1) = make_bins h in
      (dst, copy_bins (case m of None \<Rightarrow> [] | Some src \<Rightarrow> hp_bins h1 src) dst h1))"

definition ProfileByBinary_DeepCopy :: "nat option \<Rightarrow> ('m, 'c, 'o) heap \<Rightarrow> nat option \<times> ('m, 'c, 'o) heap" where
  "ProfileByBinary_DeepCopy m h =
     (if m = None then (None, h) else (let (out, h1) = ProfileByBinary_DeepCopyInto m h in (Some out, h1)))"

text \<open>The specification: the code of \<open>ProfileByBinary.DeepCopy\<close> is written out for every entry.\<close>

fun copy_ctrs :: "(string \<times> nat option) list \<Rightarrow> nat \<Rightarrow> ('m, 'c, 'o) heap \<Rightarrow> ('m, 'c, 'o) heap" where
  "copy_ctrs [] a h = h"
| "copy_ctrs ((key, val) # rest) a h =
     (let (outVal, h1) = ProfileByBinary_DeepCopy val h in
      copy_ctrs rest a (h1\<lparr>hp_ctrs := (hp_ctrs h1)(a := AList.update key outVal (hp_ctrs h1 a))\<rparr>))"

definition LandlockProfileSpec_DeepCopyInto :: "nat option \<Rightarrow> ('m, 'c, 'o) heap \<Rightarrow> nat option \<times> ('m, 'c, 'o) heap" where
  "LandlockProfileSpec_DeepCopyInto m h =
     (case m of
        None \<Rightarrow> (None, h)
      | Some src \<Rightarrow> (let (dst, h1) = make_ctrs h in (Some dst, copy_ctrs (hp_ctrs h1 src) dst h1)))"

definition LandlockProfileSpec_DeepCopy :: "nat option option \<Rightarrow> ('m, 'c, 'o) heap \<Rightarrow> nat option option \<times> ('m, 'c, 'o) heap" where
  "LandlockProfileSpec_DeepCopy s h =
     (case s of
        None \<Rightarrow> (None, h)
      | Some s \<Rightarrow> (let (out, h1) = LandlockProfileSpec_DeepCopyInto s h in (Some out, h1)))"

text \<open>The status: the loop \<open>for i := range *in\<close> over its conditions, run over the list of the indices.\<close>

fun copy_conds :: "('m, 'c, 'o, 'l, 'v) metav1 \<Rightarrow> nat list \<Rightarrow> slice \<Rightarrow> slice \<Rightarrow> ('m, 'c, 'o) heap \<Rightarrow> ('m, 'c, 'o) heap" where
  "copy_conds mv [] dst src h = h"
| "copy_conds mv (i # rest) dst src h =
     (let (out, h1) = pt_DeepCopyInto (v1_Condition mv) (hp_conds h (sl_arr src) ! (sl_off src + i)) h in
      copy_conds mv rest dst src
        (h1\<lparr>hp_conds := (hp_conds h1)(sl_arr dst := (hp_conds h1 (sl_arr dst))[sl_off dst + i := out])\<rparr>))"

definition LandlockProfileStatus_DeepCopyInto ::
  "('m, 'c, 'o, 'l, 'v) metav1 \<Rightarrow> slice option \<Rightarrow> ('m, 'c, 'o) heap \<Rightarrow> slice option \<times> ('m, 'c, 'o) heap" where
  "LandlockProfileStatus_DeepCopyInto mv s h =
     (case s of
        None \<Rightarrow> (None, h)
      | Some src \<Rightarrow>
          (let (dst, h1) = make_conds mv (sl_len src) h in (Some dst, copy_conds mv [0..<sl_len src] dst src h1)))"

definition LandlockProfileStatus_DeepCopy ::
  "('m, 'c, 'o, 'l, 'v) metav1 \<Rightarrow> slice option option \<Rightarrow> ('m, 'c, 'o) heap \<Rightarrow> slice option option \<times> ('m, 'c, 'o) heap" where
  "LandlockProfileStatus_DeepCopy mv s h =
     (case s of
        None \<Rightarrow> (None, h)
      | Some s \<Rightarrow> (let (out, h1) = LandlockProfileStatus_DeepCopyInto mv s h in (Some out, h1)))"

definition LandlockProfile_DeepCopyInto ::
  "('m, 'c, 'o, 'l, 'v) metav1 \<Rightarrow> 'm object_struct \<Rightarrow> ('m, 'c, 'o) heap \<Rightarrow> 'm object_struct \<times> ('m, 'c, 'o) heap" where
  "LandlockProfile_DeepCopyInto mv p h =
     (let out = p;
          out = out\<lparr>ob_type := ob_type p\<rparr>;
          (meta, h1) = pt_DeepCopyInto (v1_ObjectMeta mv) (ob_meta p) h; out = out\<lparr>ob_meta := meta\<rparr>;
          (spec, h2) = LandlockProfileSpec_DeepCopyInto (ob_spec p) h1; out = out\<lparr>ob_spec := spec\<rparr>;
          (status, h3) = LandlockProfileStatus_DeepCopyInto mv (ob_status p) h2; out = out\<lparr>ob_status := status\<rparr>
      in (out, h3))"

definition LandlockProfile_DeepCopy ::
  "('m, 'c, 'o, 'l, 'v) metav1 \<Rightarrow> 'm object_struct option \<Rightarrow> ('m, 'c, 'o) heap \<Rightarrow> 'm object_struct option \<times> ('m, 'c, 'o) heap" where
  "LandlockProfile_DeepCopy mv p h =
     (case p of
        None \<Rightarrow> (None, h)
      | Some p \<Rightarrow> (let (out, h1) = LandlockProfile_DeepCopyInto mv p h in (Some out, h1)))"

text \<open>A list of profiles: kind and version, metadata, items.\<close>

record 'l list_struct =
  li_type :: "string \<times> string"
  li_meta :: 'l
  li_items :: "slice option"

fun copy_items :: "('m, 'c, 'o, 'l, 'v) metav1 \<Rightarrow> nat list \<Rightarrow> slice \<Rightarrow> slice \<Rightarrow> ('m, 'c, 'o) heap \<Rightarrow> ('m, 'c, 'o) heap" where
  "copy_items mv [] dst src h = h"
| "copy_items mv (i # rest) dst src h =
     (let (out, h1) = LandlockProfile_DeepCopyInto mv (hp_objs h (sl_arr src) ! (sl_off src + i)) h in
      copy_items mv rest dst src
        (h1\<lparr>hp_objs := (hp_objs h1)(sl_arr dst := (hp_objs h1 (sl_arr dst))[sl_off dst + i := out])\<rparr>))"

text \<open>The block \<open>if in.Items != nil\<close>.\<close>

definition copy_Items :: "('m, 'c, 'o, 'l, 'v) metav1 \<Rightarrow> slice option \<Rightarrow> ('m, 'c, 'o) heap \<Rightarrow> slice option \<times> ('m, 'c, 'o) heap" where
  "copy_Items mv s h =
     (case s of
        None \<Rightarrow> (None, h)
      | Some src \<Rightarrow>
          (let (dst, h1) = make_objs mv (sl_len src) h in (Some dst, copy_items mv [0..<sl_len src] dst src h1)))"

definition LandlockProfileList_DeepCopyInto ::
  "('m, 'c, 'o, 'l, 'v) metav1 \<Rightarrow> 'l list_struct \<Rightarrow> ('m, 'c, 'o) heap \<Rightarrow> 'l list_struct \<times> ('m, 'c, 'o) heap" where
  "LandlockProfileList_DeepCopyInto mv p h =
     (let out = p;
          out = out\<lparr>li_type := li_type p\<rparr>;
          (meta, h1) = pt_DeepCopyInto (v1_ListMeta mv) (li_meta p) h; out = out\<lparr>li_meta := meta\<rparr>;
          (items, h2) = copy_Items mv (li_items p) h1; out = out\<lparr>li_items := items\<rparr>
      in (out, h2))"

definition LandlockProfileList_DeepCopy ::
  "('m, 'c, 'o, 'l, 'v) metav1 \<Rightarrow> 'l list_struct option \<Rightarrow> ('m, 'c, 'o) heap \<Rightarrow> 'l list_struct option \<times> ('m, 'c, 'o) heap" where
  "LandlockProfileList_DeepCopy mv p h =
     (case p of
        None \<Rightarrow> (None, h)
      | Some p \<Rightarrow> (let (out, h1) = LandlockProfileList_DeepCopyInto mv p h in (Some out, h1)))"

text \<open>\<open>DeepCopyObject\<close> answers an interface; a nil pointer becomes the nil interface, \<open>None\<close>.\<close>

datatype ('m, 'l) runtime_Object = A_LandlockProfile "'m object_struct" | A_LandlockProfileList "'l list_struct"

definition LandlockProfile_DeepCopyObject :: "('m, 'c, 'o, 'l, 'v) metav1 \<Rightarrow> 'm object_struct option \<Rightarrow> ('m, 'c, 'o) heap \<Rightarrow>
    ('m, 'l) runtime_Object option \<times> ('m, 'c, 'o) heap" where
  "LandlockProfile_DeepCopyObject mv p h =
     (let (c, h1) = LandlockProfile_DeepCopy mv p h in
      case c of Some c \<Rightarrow> (Some (A_LandlockProfile c), h1) | None \<Rightarrow> (None, h1))"

definition LandlockProfileList_DeepCopyObject :: "('m, 'c, 'o, 'l, 'v) metav1 \<Rightarrow> 'l list_struct option \<Rightarrow> ('m, 'c, 'o) heap \<Rightarrow>
    ('m, 'l) runtime_Object option \<times> ('m, 'c, 'o) heap" where
  "LandlockProfileList_DeepCopyObject mv p h =
     (let (c, h1) = LandlockProfileList_DeepCopy mv p h in
      case c of Some c \<Rightarrow> (Some (A_LandlockProfileList c), h1) | None \<Rightarrow> (None, h1))"

section \<open>Values, references and well-formedness\<close>

definition slice_value :: "('m, 'c, 'o) heap \<Rightarrow> slice option \<Rightarrow> string list" where
  "slice_value h s = (case s of None \<Rightarrow> [] | Some s \<Rightarrow> elems hp_arrays h s)"

definition slice_refs :: "slice option \<Rightarrow> nat set" where
  "slice_refs s = sl_arr ` set_option s"

definition slice_ok :: "('m, 'c, 'o) heap \<Rightarrow> slice option \<Rightarrow> bool" where
  "slice_ok h s = (case s of None \<Rightarrow> True
     | Some s \<Rightarrow> sl_arr s < hp_next h \<and> sl_off s + sl_len s \<le> length (hp_arrays h (sl_arr s)))"

definition profile_value :: "('m, 'c, 'o) heap \<Rightarrow> profile_struct \<Rightarrow> Profile" where
  "profile_value h p =
     \<lparr>ReadOnly = slice_value h (ps_ReadOnly p), ReadWrite = slice_value h (ps_ReadWrite p),
      ReadExec = slice_value h (ps_ReadExec p), ReadWriteExec = slice_value h (ps_ReadWriteExec p)\<rparr>"

definition profile_refs :: "('m, 'c, 'o) heap \<Rightarrow> profile_struct \<Rightarrow> nat set" where
  "profile_refs h p = slice_refs (ps_ReadOnly p) \<union> slice_refs (ps_ReadWrite p)
     \<union> slice_refs (ps_ReadExec p) \<union> slice_refs (ps_ReadWriteExec p)"

definition struct_ok :: "('m, 'c, 'o) heap \<Rightarrow> profile_struct \<Rightarrow> bool" where
  "struct_ok h p \<longleftrightarrow> slice_ok h (ps_ReadOnly p) \<and> slice_ok h (ps_ReadWrite p)
     \<and> slice_ok h (ps_ReadExec p) \<and> slice_ok h (ps_ReadWriteExec p)"

definition bins_value :: "('m, 'c, 'o) heap \<Rightarrow> nat option \<Rightarrow> ProfileByBinary" where
  "bins_value = map_value profile_value hp_bins"

definition bins_refs :: "('m, 'c, 'o) heap \<Rightarrow> nat option \<Rightarrow> nat set" where
  "bins_refs = map_refs profile_refs hp_bins"

definition bins_ok :: "('m, 'c, 'o) heap \<Rightarrow> nat option \<Rightarrow> bool" where
  "bins_ok = map_ok struct_ok hp_bins"

definition spec_value :: "('m, 'c, 'o) heap \<Rightarrow> nat option \<Rightarrow> LandlockProfileSpec" where
  "spec_value h m = \<lparr>ProfilesByContainer = map_value bins_value hp_ctrs h m\<rparr>"

definition spec_refs :: "('m, 'c, 'o) heap \<Rightarrow> nat option \<Rightarrow> nat set" where
  "spec_refs = map_refs bins_refs hp_ctrs"

definition spec_ok :: "('m, 'c, 'o) heap \<Rightarrow> nat option \<Rightarrow> bool" where
  "spec_ok = map_ok bins_ok hp_ctrs"

text \<open>The conditions, whole profiles, and lists of them.\<close>

definition conds_value :: "('m, 'c, 'o, 'l, 'v) metav1 \<Rightarrow> ('m, 'c, 'o) heap \<Rightarrow> slice option \<Rightarrow> 'v list" where
  "conds_value mv = array_value (pt_value (v1_Condition mv)) hp_conds"

definition conds_refs :: "('m, 'c, 'o, 'l, 'v) metav1 \<Rightarrow> ('m, 'c, 'o) heap \<Rightarrow> slice option \<Rightarrow> nat set" where
  "conds_refs mv = array_refs (pt_refs (v1_Condition mv)) hp_conds"

definition conds_ok :: "('m, 'c, 'o, 'l, 'v) metav1 \<Rightarrow> ('m, 'c, 'o) heap \<Rightarrow> slice option \<Rightarrow> bool" where
  "conds_ok mv = array_ok (pt_ok (v1_Condition mv)) hp_conds"

definition object_value ::
  "('m, 'c, 'o, 'l, 'v) metav1 \<Rightarrow> ('m, 'c, 'o) heap \<Rightarrow> 'm object_struct \<Rightarrow> (string \<times> string) \<times> 'v \<times> LandlockProfileSpec \<times> 'v list" where
  "object_value mv h p =
     (ob_type p, pt_value (v1_ObjectMeta mv) h (ob_meta p), spec_value h (ob_spec p), conds_value mv h (ob_status p))"

definition object_refs :: "('m, 'c, 'o, 'l, 'v) metav1 \<Rightarrow> ('m, 'c, 'o) heap \<Rightarrow> 'm object_struct \<Rightarrow> nat set" where
  "object_refs mv h p =
     pt_refs (v1_ObjectMeta mv) h (ob_meta p) \<union> spec_refs h (ob_spec p) \<union> conds_refs mv h (ob_status p)"

definition object_ok :: "('m, 'c, 'o, 'l, 'v) metav1 \<Rightarrow> ('m, 'c, 'o) heap \<Rightarrow> 'm object_struct \<Rightarrow> bool" where
  "object_ok mv h p \<longleftrightarrow>
     pt_ok (v1_ObjectMeta mv) h (ob_meta p) \<and> spec_ok h (ob_spec p) \<and> conds_ok mv h (ob_status p)"

definition list_value ::
  "('m, 'c, 'o, 'l, 'v) metav1 \<Rightarrow> ('m, 'c, 'o) heap \<Rightarrow> 'l list_struct \<Rightarrow> (string \<times> string) \<times> 'v \<times> ((string \<times> string) \<times> 'v \<times> LandlockProfileSpec \<times> 'v list) list" where
  "list_value mv h p =
     (li_type p, pt_value (v1_ListMeta mv) h (li_meta p), array_value (object_value mv) hp_objs h (li_items p))"

definition list_refs :: "('m, 'c, 'o, 'l, 'v) metav1 \<Rightarrow> ('m, 'c, 'o) heap \<Rightarrow> 'l list_struct \<Rightarrow> nat set" where
  "list_refs mv h p = pt_refs (v1_ListMeta mv) h (li_meta p) \<union> array_refs (object_refs mv) hp_objs h (li_items p)"

definition list_ok :: "('m, 'c, 'o, 'l, 'v) metav1 \<Rightarrow> ('m, 'c, 'o) heap \<Rightarrow> 'l list_struct \<Rightarrow> bool" where
  "list_ok mv h p \<longleftrightarrow> pt_ok (v1_ListMeta mv) h (li_meta p) \<and> array_ok (object_ok mv) hp_objs h (li_items p)"

section \<open>The generated copies\<close>

lemma slice_stable:
  assumes "slice_ok h s" "keeps A h h'" "slice_refs s \<inter> A = {}"
  shows "slice_ok h' s \<and> slice_value h' s = slice_value h s"
  using assms keepsD [OF assms(2)]
  by (fastforce simp: slice_ok_def slice_refs_def slice_value_def elems_def split: option.splits)

lemma slice_in_store: "slice_ok h s \<Longrightarrow> slice_refs s \<subseteq> {..<hp_next h}"
  by (auto simp: slice_ok_def slice_refs_def split: option.splits)

lemma slice_copied:
  assumes "slice_ok h s" "copy_slice s h = (s', h')"
  shows "fresh_copy slice_value (\<lambda>h. slice_refs) slice_ok h s h' s'"
  using assms
  by (auto simp: copy_slice_def make_slice_def copy_elems_def slice_ok_def slice_refs_def slice_value_def
      elems_def fresh_copy_def keeps_def split: option.splits)

lemma copy_slice_keeps: "copy_slice s h = (s', h') \<Longrightarrow> keeps {} h h'"
  by (auto simp: copy_slice_def make_slice_def copy_elems_def keeps_def Let_def split: option.splits)

interpretation slices: stored_copy slice_value "\<lambda>h. slice_refs" slice_ok copy_slice
proof unfold_locales
  fix h s h' and A :: "nat set"
  assume ok: "slice_ok h s"
  show "slice_refs s \<subseteq> {..<hp_next h}" by (rule slice_in_store [OF ok])
  show "slice_ok h' s \<and> slice_refs s = slice_refs s \<and> slice_value h' s = slice_value h s"
    if "keeps A h h'" "slice_refs s \<inter> A = {}"
    using slice_stable [OF ok that] by simp
  show "fresh_copy slice_value (\<lambda>h. slice_refs) slice_ok h s h' s'" if "copy_slice s h = (s', h')" for s'
    by (rule slice_copied [OF ok that])
qed

text \<open>\<open>Profile\<close>: four slices, one after the other.\<close>

lemmas profile_parts = struct_ok_def profile_refs_def profile_value_def

lemma profile_in_store: "struct_ok h p \<Longrightarrow> profile_refs h p \<subseteq> {..<hp_next h}"
  by (simp add: profile_parts slice_in_store)

lemma profile_stable:
  assumes "struct_ok h p" "keeps A h h'" "profile_refs h p \<inter> A = {}"
  shows "struct_ok h' p \<and> profile_refs h' p = profile_refs h p \<and> profile_value h' p = profile_value h p"
  using assms slice_stable [OF _ assms(2)] by (simp add: profile_parts Int_Un_distrib2)

lemma profile_copied:
  assumes ok: "struct_ok h p" and copy: "Profile_DeepCopyInto p h = (p', h4)"
  shows "fresh_copy profile_value profile_refs struct_ok h p h4 p'"
proof -
  obtain s1 h1 where c1: "copy_slice (ps_ReadOnly p) h = (s1, h1)" by fastforce
  obtain s2 h2 where c2: "copy_slice (ps_ReadWrite p) h1 = (s2, h2)" by fastforce
  obtain s3 h3 where c3: "copy_slice (ps_ReadExec p) h2 = (s3, h3)" by fastforce
  obtain s4 where c4: "copy_slice (ps_ReadWriteExec p) h3 = (s4, h4)"
    and p': "p' = \<lparr>ps_ReadOnly = s1, ps_ReadWrite = s2, ps_ReadExec = s3, ps_ReadWriteExec = s4\<rparr>"
    using copy by (auto simp: Profile_DeepCopyInto_def Let_def c1 c2 c3 split: prod.splits)
  let ?fresh = "fresh_copy slice_value (\<lambda>h. slice_refs) slice_ok"
  have from_start: "?fresh h s h2 s'"
    if "slice_ok h s" "keeps {} h h1" "copy_slice s h1 = (s', h2)" for s s' h1 h2
    by (rule slices.fresh_from [OF that(1,2) slices.copied [OF _ that(3)]])
      (use slice_stable [OF that(1,2)] in simp)
  have F1: "?fresh h (ps_ReadOnly p) h1 s1"
    using ok c1 by (intro slices.copied) (simp_all add: struct_ok_def)
  note k1 = fresh_copyD(1) [OF F1]
  have F2: "?fresh h (ps_ReadWrite p) h2 s2"
    using ok by (intro from_start [OF _ k1 c2]) (simp add: struct_ok_def)
  note k2 = fresh_copyD(1) [OF F2]
  have F3: "?fresh h (ps_ReadExec p) h3 s3"
    using ok by (intro from_start [OF _ k2 c3]) (simp add: struct_ok_def)
  note k3 = fresh_copyD(1) [OF F3]
  have F4: "?fresh h (ps_ReadWriteExec p) h4 s4"
    using ok by (intro from_start [OF _ k3 c4]) (simp add: struct_ok_def)
  note k34 = copy_slice_keeps [OF c4] and k23 = copy_slice_keeps [OF c3] and k12 = copy_slice_keeps [OF c2]
  note k24 = keeps_trans [OF k23 k34]
  note k14 = keeps_trans [OF k12 k24]
  have "?fresh h (ps_ReadOnly p) h4 s1" "?fresh h (ps_ReadWrite p) h4 s2" "?fresh h (ps_ReadExec p) h4 s3"
    by (rule slices.fresh_later [OF F1 k14] slices.fresh_later [OF F2 k24] slices.fresh_later [OF F3 k34])+
  then show ?thesis using F4 by (auto simp: fresh_copy_def profile_parts p')
qed

interpretation profiles: stored_copy profile_value profile_refs struct_ok Profile_DeepCopyInto
proof unfold_locales
  fix h p h' and A :: "nat set"
  assume ok: "struct_ok h p"
  show "profile_refs h p \<subseteq> {..<hp_next h}" by (rule profile_in_store [OF ok])
  show "struct_ok h' p \<and> profile_refs h' p = profile_refs h p \<and> profile_value h' p = profile_value h p"
    if "keeps A h h'" "profile_refs h p \<inter> A = {}"
    by (rule profile_stable [OF ok that])
  show "fresh_copy profile_value profile_refs struct_ok h p h' p'" if "Profile_DeepCopyInto p h = (p', h')" for p'
    by (rule profile_copied [OF ok that])
qed

text \<open>The two maps, each an instance of the copy of a map.\<close>

interpretation bins: stored_map profile_value profile_refs struct_ok Profile_DeepCopyInto
  hp_bins "\<lambda>a m h. h\<lparr>hp_bins := (hp_bins h)(a := m)\<rparr>" make_bins copy_bins ProfileByBinary_DeepCopy
  by unfold_locales (simp_all add: make_bins_def ProfileByBinary_DeepCopy_def ProfileByBinary_DeepCopyInto_def
      Profile_DeepCopy_def keeps_def split: option.splits prod.splits)

lemmas bins_parts = bins_value_def bins_refs_def bins_ok_def

lemma bins_stored_copy: "stored_copy bins_value bins_refs bins_ok ProfileByBinary_DeepCopy"
  unfolding bins_parts by (rule bins.whole.stored_copy_axioms)

interpretation ctrs: stored_map bins_value bins_refs bins_ok ProfileByBinary_DeepCopy
  hp_ctrs "\<lambda>a m h. h\<lparr>hp_ctrs := (hp_ctrs h)(a := m)\<rparr>" make_ctrs copy_ctrs LandlockProfileSpec_DeepCopyInto
  by (intro stored_map.intro stored_cells.intro bins_stored_copy, unfold_locales)
    (simp_all add: make_ctrs_def LandlockProfileSpec_DeepCopyInto_def keeps_def)

lemma spec_stored_copy: "stored_copy (map_value bins_value hp_ctrs) spec_refs spec_ok LandlockProfileSpec_DeepCopyInto"
  unfolding spec_refs_def spec_ok_def by (rule ctrs.whole.stored_copy_axioms)

interpretation specs: stored_copy "map_value bins_value hp_ctrs" spec_refs spec_ok LandlockProfileSpec_DeepCopyInto
  by (rule spec_stored_copy)

text \<open>The parts of the other package, where it keeps its laws.\<close>

abbreviation lawful ::
  "('m, 'c, 'o, 'l, 'v) metav1 \<Rightarrow> (('m, 'c, 'o) heap \<Rightarrow> 'x \<Rightarrow> bool) \<Rightarrow> ('m, 'c, 'o) heap \<Rightarrow> 'x \<Rightarrow> bool" where
  "lawful mv ok h x \<equiv> metav1_laws mv \<and> ok h x"

lemma part_when:
  assumes "metav1_laws mv \<Longrightarrow> part_laws pt"
  shows "stored_copy (pt_value pt) (pt_refs pt) (lawful mv (pt_ok pt)) (pt_DeepCopyInto pt)"
  by (rule stored_copy_when) (use assms in \<open>simp add: part_laws_def\<close>)

interpretation metadata: stored_copy "pt_value (v1_ObjectMeta mv)" "pt_refs (v1_ObjectMeta mv)"
  "lawful mv (pt_ok (v1_ObjectMeta mv))" "pt_DeepCopyInto (v1_ObjectMeta mv)" for mv
  by (rule part_when) (rule metav1_lawsD)

interpretation list_metadata: stored_copy "pt_value (v1_ListMeta mv)" "pt_refs (v1_ListMeta mv)"
  "lawful mv (pt_ok (v1_ListMeta mv))" "pt_DeepCopyInto (v1_ListMeta mv)" for mv
  by (rule part_when) (rule metav1_lawsD)

text \<open>The conditions of a status.\<close>

interpretation conditions: stored_array "pt_value (v1_Condition mv)" "pt_refs (v1_Condition mv)"
  "lawful mv (pt_ok (v1_Condition mv))" "pt_DeepCopyInto (v1_Condition mv)"
  hp_conds "\<lambda>a m h. h\<lparr>hp_conds := (hp_conds h)(a := m)\<rparr>"
  "make_conds mv" "copy_conds mv" "LandlockProfileStatus_DeepCopyInto mv" for mv
  by (intro stored_array.intro stored_cells.intro part_when metav1_lawsD(2), assumption, unfold_locales)
    (simp_all add: make_conds_def LandlockProfileStatus_DeepCopyInto_def keeps_def split: option.splits prod.splits)

interpretation statuses: stored_copy "conds_value mv" "conds_refs mv" "lawful mv (conds_ok mv)"
  "LandlockProfileStatus_DeepCopyInto mv" for mv
proof (rule stored_copy_when)
  assume "metav1_laws mv"
  then show "stored_copy (conds_value mv) (conds_refs mv) (conds_ok mv) (LandlockProfileStatus_DeepCopyInto mv)"
    using conditions.whole.stored_copy_axioms [of mv] by (simp add: conds_value_def conds_refs_def conds_ok_def)
qed

text \<open>A profile: its metadata, its specification, then its status.\<close>

lemmas object_parts = object_ok_def object_refs_def object_value_def spec_value_def

lemma object_stable:
  assumes "lawful mv (object_ok mv) h p" "keeps A h h'" "object_refs mv h p \<inter> A = {}"
  shows "lawful mv (object_ok mv) h' p \<and> object_refs mv h' p = object_refs mv h p \<and>
    object_value mv h' p = object_value mv h p"
  using assms metadata.stable [of mv, OF _ assms(2)] specs.stable [OF _ assms(2)]
    statuses.stable [of mv, OF _ assms(2)]
  by (simp add: object_parts Int_Un_distrib2)

lemma object_copied:
  assumes ok: "lawful mv (object_ok mv) h p" and copy: "LandlockProfile_DeepCopyInto mv p h = (p', h3)"
  shows "fresh_copy (object_value mv) (object_refs mv) (lawful mv (object_ok mv)) h p h3 p'"
proof -
  obtain m1 h1 where c1: "pt_DeepCopyInto (v1_ObjectMeta mv) (ob_meta p) h = (m1, h1)" by fastforce
  obtain m2 h2 where c2: "LandlockProfileSpec_DeepCopyInto (ob_spec p) h1 = (m2, h2)" by fastforce
  obtain s3 where c3: "LandlockProfileStatus_DeepCopyInto mv (ob_status p) h2 = (s3, h3)"
    and p': "p' = \<lparr>ob_type = ob_type p, ob_meta = m1, ob_spec = m2, ob_status = s3\<rparr>"
    using copy by (auto simp: LandlockProfile_DeepCopyInto_def Let_def c1 c2 split: prod.splits)
  have parts: "lawful mv (pt_ok (v1_ObjectMeta mv)) h (ob_meta p)" "spec_ok h (ob_spec p)"
    "lawful mv (conds_ok mv) h (ob_status p)"
    using ok by (simp_all add: object_ok_def)
  note F1 = metadata.copied [OF parts(1) c1]
  note k1 = fresh_copyD(1) [OF F1]
  have ok2: "spec_ok h1 (ob_spec p)" using specs.stable [OF parts(2) k1] by simp
  note F2 = specs.fresh_from [OF parts(2) k1 specs.copied [OF ok2 c2]]
  note k2 = fresh_copyD(1) [OF F2]
  have ok3: "lawful mv (conds_ok mv) h2 (ob_status p)" using statuses.stable [OF parts(3) k2] by simp
  note F3 = statuses.fresh_from [OF parts(3) k2 statuses.copied [OF ok3 c3]]
  note k3 = fresh_copyD(1) [OF statuses.copied [OF ok3 c3]]
  note k13 = keeps_trans [OF fresh_copyD(1) [OF specs.copied [OF ok2 c2]] k3]
  show ?thesis
    using metadata.fresh_later [OF F1 k13] specs.fresh_later [OF F2 k3] F3
    by (simp add: fresh_copy_def object_parts p')
qed

interpretation objects: stored_copy "object_value mv" "object_refs mv" "lawful mv (object_ok mv)"
  "LandlockProfile_DeepCopyInto mv" for mv
proof unfold_locales
  fix h :: "('a, 'b, 'c) heap" and p h' and A :: "nat set"
  assume ok: "lawful mv (object_ok mv) h p"
  show "object_refs mv h p \<subseteq> {..<hp_next h}"
    using ok metadata.ok_refs [of mv h] specs.ok_refs [of h] statuses.ok_refs [of mv h]
    by (simp add: object_ok_def object_refs_def)
  show "lawful mv (object_ok mv) h' p \<and> object_refs mv h' p = object_refs mv h p \<and>
      object_value mv h' p = object_value mv h p"
    if "keeps A h h'" "object_refs mv h p \<inter> A = {}"
    by (rule object_stable [OF ok that])
  show "fresh_copy (object_value mv) (object_refs mv) (lawful mv (object_ok mv)) h p h' p'"
    if "LandlockProfile_DeepCopyInto mv p h = (p', h')" for p'
    by (rule object_copied [OF ok that])
qed

text \<open>The items of a list, and the list.\<close>

interpretation items: stored_array "object_value mv" "object_refs mv" "lawful mv (object_ok mv)"
  "LandlockProfile_DeepCopyInto mv" hp_objs "\<lambda>a m h. h\<lparr>hp_objs := (hp_objs h)(a := m)\<rparr>"
  "make_objs mv" "copy_items mv" "copy_Items mv" for mv
  by unfold_locales (simp_all add: make_objs_def copy_Items_def keeps_def split: option.splits prod.splits)

interpretation all_items: stored_copy "array_value (object_value mv) hp_objs" "array_refs (object_refs mv) hp_objs"
  "lawful mv (array_ok (object_ok mv) hp_objs)" "copy_Items mv" for mv
proof (rule stored_copy_when)
  assume "metav1_laws mv"
  then show "stored_copy (array_value (object_value mv) hp_objs) (array_refs (object_refs mv) hp_objs)
      (array_ok (object_ok mv) hp_objs) (copy_Items mv)"
    using items.whole.stored_copy_axioms [of mv] by simp
qed

lemma list_stable:
  assumes "lawful mv (list_ok mv) h p" "keeps A h h'" "list_refs mv h p \<inter> A = {}"
  shows "lawful mv (list_ok mv) h' p \<and> list_refs mv h' p = list_refs mv h p \<and> list_value mv h' p = list_value mv h p"
  using assms list_metadata.stable [of mv, OF _ assms(2)] all_items.stable [of mv, OF _ assms(2)]
  by (simp add: list_ok_def list_refs_def list_value_def Int_Un_distrib2)

lemma list_copied:
  assumes ok: "lawful mv (list_ok mv) h p" and copy: "LandlockProfileList_DeepCopyInto mv p h = (p', h')"
  shows "fresh_copy (list_value mv) (list_refs mv) (lawful mv (list_ok mv)) h p h' p'"
proof -
  obtain m1 h1 where c1: "pt_DeepCopyInto (v1_ListMeta mv) (li_meta p) h = (m1, h1)" by fastforce
  obtain s where c2: "copy_Items mv (li_items p) h1 = (s, h')"
    and p': "p' = \<lparr>li_type = li_type p, li_meta = m1, li_items = s\<rparr>"
    using copy by (auto simp: LandlockProfileList_DeepCopyInto_def Let_def c1 split: prod.splits)
  have parts: "lawful mv (pt_ok (v1_ListMeta mv)) h (li_meta p)"
    "lawful mv (array_ok (object_ok mv) hp_objs) h (li_items p)"
    using ok by (simp_all add: list_ok_def)
  note F1 = list_metadata.copied [OF parts(1) c1]
  note k1 = fresh_copyD(1) [OF F1]
  have ok2: "lawful mv (array_ok (object_ok mv) hp_objs) h1 (li_items p)"
    using all_items.stable [OF parts(2) k1] by simp
  note C2 = all_items.copied [OF ok2 c2]
  show ?thesis
    using list_metadata.fresh_later [OF F1 fresh_copyD(1) [OF C2]] all_items.fresh_from [OF parts(2) k1 C2]
    by (simp add: fresh_copy_def list_ok_def list_refs_def list_value_def p')
qed

interpretation lists: stored_copy "list_value mv" "list_refs mv" "lawful mv (list_ok mv)"
  "LandlockProfileList_DeepCopyInto mv" for mv
proof unfold_locales
  fix h :: "('a, 'b, 'c) heap" and p h' and A :: "nat set"
  assume ok: "lawful mv (list_ok mv) h p"
  show "list_refs mv h p \<subseteq> {..<hp_next h}"
    using ok list_metadata.ok_refs [of mv h] all_items.ok_refs [of mv h] by (simp add: list_ok_def list_refs_def)
  show "lawful mv (list_ok mv) h' p \<and> list_refs mv h' p = list_refs mv h p \<and> list_value mv h' p = list_value mv h p"
    if "keeps A h h'" "list_refs mv h p \<inter> A = {}"
    by (rule list_stable [OF ok that])
  show "fresh_copy (list_value mv) (list_refs mv) (lawful mv (list_ok mv)) h p h' p'"
    if "LandlockProfileList_DeepCopyInto mv p h = (p', h')" for p'
    by (rule list_copied [OF ok that])
qed

section \<open>Copies of profiles and of lists\<close>

text \<open>C34: A deep copy of a profile whose slices and maps are allocated and in bounds has the value of the
  original, metadata, specification and conditions, changes nothing the program had allocated, and
  shares no slice, no map and nothing the metadata refers to, finalizers and labels for instance, with
  it. So whatever the program writes later through the original is not seen through the copy, and the other
  way round. A nil pointer is copied to the nil interface. That the copies of the metadata and of a
  condition, which the API machinery generates, are deep themselves is documented (\<open>metav1_laws\<close>).\<close>

theorem deep_copy_independent:
  assumes "metav1_laws mv" "object_ok mv h p" "LandlockProfile_DeepCopyObject mv (Some p) h = (ob, h')"
  shows "\<exists>q. ob = Some (A_LandlockProfile q) \<and> object_value mv h' q = object_value mv h p \<and> keeps {} h h' \<and>
     object_refs mv h' p \<inter> object_refs mv h' q = {} \<and>
     (\<forall>h''. (keeps (object_refs mv h' p) h' h'' \<longrightarrow> object_value mv h'' q = object_value mv h p) \<and>
       (keeps (object_refs mv h' q) h' h'' \<longrightarrow> object_value mv h'' p = object_value mv h p))"
proof -
  obtain q where q: "LandlockProfile_DeepCopyInto mv p h = (q, h')" "ob = Some (A_LandlockProfile q)"
    using assms(3) by (auto simp: LandlockProfile_DeepCopyObject_def LandlockProfile_DeepCopy_def split: prod.splits)
  note ok = conjI [OF assms(1,2)]
  note fresh = object_copied [OF ok q(1)]
  show ?thesis
    using q(2) fresh_copyD(1,4) [OF fresh] objects.copy_disjoint [OF ok fresh]
      objects.copy_independent [OF ok fresh] by blast
qed

text \<open>The same for a list of profiles, which the client library copies out of its cache: the copy has
  as many items, each with the value of the original's, and no item, map or slice of one is reached
  from the other.\<close>

lemma list_copy_independent:
  assumes "metav1_laws mv" "list_ok mv h p" "LandlockProfileList_DeepCopyObject mv (Some p) h = (ob, h')"
  shows "\<exists>q. ob = Some (A_LandlockProfileList q) \<and> list_value mv h' q = list_value mv h p \<and> keeps {} h h' \<and>
     list_refs mv h' p \<inter> list_refs mv h' q = {} \<and>
     (\<forall>h''. (keeps (list_refs mv h' p) h' h'' \<longrightarrow> list_value mv h'' q = list_value mv h p) \<and>
       (keeps (list_refs mv h' q) h' h'' \<longrightarrow> list_value mv h'' p = list_value mv h p))"
proof -
  obtain q where q: "LandlockProfileList_DeepCopyInto mv p h = (q, h')" "ob = Some (A_LandlockProfileList q)"
    using assms(3) by (auto simp: LandlockProfileList_DeepCopyObject_def LandlockProfileList_DeepCopy_def split: prod.splits)
  note ok = conjI [OF assms(1,2)]
  note fresh = list_copied [OF ok q(1)]
  show ?thesis
    using q(2) fresh_copyD(1,4) [OF fresh] lists.copy_disjoint [OF ok fresh]
      lists.copy_independent [OF ok fresh] by blast
qed

text \<open>
  A container with one binary whose read-only list is the tail of a longer array, in a profile with two
  finalizers, the slice of its metadata, and one condition; it is the only item of a list.
\<close>

definition plain_part :: "(string, string list, 'h) part" where
  "plain_part = \<lparr>pt_value = (\<lambda>h x. [x]), pt_refs = (\<lambda>h x. {}), pt_ok = (\<lambda>h x. True),
     pt_DeepCopyInto = (\<lambda>x h. (x, h)), pt_zero = []\<rparr>"

definition example_metav1 :: "(slice option, string, unit, string, string list) metav1" where
  "example_metav1 =
     \<lparr>v1_ObjectMeta = \<lparr>pt_value = slice_value, pt_refs = (\<lambda>h. slice_refs), pt_ok = slice_ok,
        pt_DeepCopyInto = copy_slice, pt_zero = None\<rparr>,
      v1_Condition = plain_part, v1_ListMeta = plain_part\<rparr>"

definition example_struct :: "slice option object_struct" where
  "example_struct = \<lparr>ob_type = (''LandlockProfile'', ''v1alpha1''),
     ob_meta = Some \<lparr>sl_arr = 5, sl_off = 0, sl_len = 2\<rparr>, ob_spec = Some 2,
     ob_status = Some \<lparr>sl_arr = 3, sl_off = 0, sl_len = 1\<rparr>\<rparr>"

definition example_list :: "string list_struct" where
  "example_list = \<lparr>li_type = (''LandlockProfileList'', ''v1alpha1''), li_meta = ''9'',
     li_items = Some \<lparr>sl_arr = 4, sl_off = 0, sl_len = 1\<rparr>\<rparr>"

definition example_heap :: "(slice option, string, unit) heap" where
  "example_heap = \<lparr>hp_next = 6,
     hp_arrays = (\<lambda>a. if a = 0 then [''/bin'', ''/etc'', ''/usr''] else if a = 5 then [''podlock'', ''other''] else []),
     hp_conds = (\<lambda>a. if a = 3 then [''Ready''] else []),
     hp_objs = (\<lambda>a. if a = 4 then [example_struct] else []),
     hp_bins = (\<lambda>a. if a = 1 then [(''/bin/sh'', \<lparr>ps_ReadOnly = Some \<lparr>sl_arr = 0, sl_off = 1, sl_len = 2\<rparr>,
        ps_ReadWrite = None, ps_ReadExec = None, ps_ReadWriteExec = None\<rparr>)] else []),
     hp_ctrs = (\<lambda>a. if a = 2 then [(''main'', Some 1), (''none'', None)] else []),
     hp_other = (\<lambda>a. ())\<rparr>"

lemmas examples = example_metav1_def plain_part_def example_struct_def example_list_def example_heap_def

lemma example_laws: "metav1_laws example_metav1"
proof -
  have "part_laws plain_part"
    unfolding part_laws_def by unfold_locales (simp_all add: plain_part_def fresh_copy_def)
  then show ?thesis
    using slices.stored_copy_axioms by (simp add: metav1_laws_def part_laws_def example_metav1_def)
qed

lemma example_ok: "object_ok example_metav1 example_heap example_struct"
  "list_ok example_metav1 example_heap example_list"
  by (simp_all add: object_ok_def list_ok_def array_ok_def elems_def conds_ok_def spec_ok_def map_ok_def bins_ok_def
      struct_ok_def slice_ok_def examples)

text \<open>
  The read-only list of the original is overwritten, and the first of its finalizers is removed in place,
  as \<open>controllerutil.RemoveFinalizer\<close> does it when the reconciler releases a profile: the others move up.
\<close>

definition overwritten :: "(slice option, string, unit) heap \<Rightarrow> (slice option, string, unit) heap" where
  "overwritten h = h\<lparr>hp_arrays := (hp_arrays h)(0 := [''/bin'', ''/root'', ''/root''], 5 := [''other'', ''other''])\<rparr>"

text \<open>The finalizers of a profile in the example.\<close>

definition finalizers_in :: "(slice option, string, unit) heap \<Rightarrow> slice option object_struct \<Rightarrow> string list" where
  "finalizers_in h p = fst (snd (object_value example_metav1 h p))"

lemma overwritten:
  assumes "keeps {} example_heap h"
  shows "keeps (object_refs example_metav1 h example_struct) h (overwritten h)"
    and "keeps (list_refs example_metav1 h example_list) h (overwritten h)"
    and "finalizers_in (overwritten h) example_struct = [''other'', ''other'']"
    and "list_value example_metav1 (overwritten h) example_list \<noteq> list_value example_metav1 example_heap example_list"
proof -
  have same: "hp_ctrs h 2 = hp_ctrs example_heap 2" "hp_bins h 1 = hp_bins example_heap 1"
    "hp_objs h 4 = hp_objs example_heap 4"
    using keepsD [OF assms] by (simp_all add: example_heap_def)
  have "{0, 5} \<subseteq> object_refs example_metav1 h example_struct" "{0, 5} \<subseteq> list_refs example_metav1 h example_list"
    using same by (simp_all add: object_refs_def list_refs_def array_refs_def elems_def spec_refs_def map_refs_def
        bins_refs_def profile_refs_def slice_refs_def examples)
  then show "keeps (object_refs example_metav1 h example_struct) h (overwritten h)"
    "keeps (list_refs example_metav1 h example_list) h (overwritten h)"
    by (auto simp: keeps_def overwritten_def)
  show "finalizers_in (overwritten h) example_struct = [''other'', ''other'']"
    by (simp add: finalizers_in_def overwritten_def object_value_def slice_value_def elems_def examples)
  show "list_value example_metav1 (overwritten h) example_list \<noteq> list_value example_metav1 example_heap example_list"
    using same by (simp add: overwritten_def object_value_def list_value_def array_value_def elems_def spec_value_def
        map_value_def bins_value_def profile_value_def slice_value_def examples)
qed

theorem deep_copy_independent_witness:
  "\<exists>q h'. LandlockProfile_DeepCopyObject example_metav1 (Some example_struct) example_heap = (Some (A_LandlockProfile q), h') \<and>
     finalizers_in (overwritten h') example_struct = [''other'', ''other''] \<and>
     finalizers_in (overwritten h') q = [''podlock'', ''other''] \<and>
     object_value example_metav1 (overwritten h') q = object_value example_metav1 example_heap example_struct"
proof -
  obtain ob h' where c: "LandlockProfile_DeepCopyObject example_metav1 (Some example_struct) example_heap = (ob, h')"
    by fastforce
  have "finalizers_in example_heap example_struct = [''podlock'', ''other'']"
    by (simp add: finalizers_in_def object_value_def slice_value_def elems_def examples)
  with deep_copy_independent [OF example_laws example_ok(1) c] show ?thesis
    using c overwritten(1,3) unfolding finalizers_in_def by metis
qed

lemma list_copy_independent_witness:
  "\<exists>q h'. LandlockProfileList_DeepCopyObject example_metav1 (Some example_list) example_heap = (Some (A_LandlockProfileList q), h') \<and>
     list_value example_metav1 (overwritten h') example_list \<noteq> list_value example_metav1 example_heap example_list \<and>
     list_value example_metav1 (overwritten h') q = list_value example_metav1 example_heap example_list"
proof -
  obtain ob h' where c: "LandlockProfileList_DeepCopyObject example_metav1 (Some example_list) example_heap = (ob, h')"
    by fastforce
  from list_copy_independent [OF example_laws example_ok(2) c] show ?thesis using c overwritten(2,4) by blast
qed

end
