(* ===== verification/Confinement.thy ===== *)
theory Confinement
  imports Seal_Main Webhook
begin

text \<open>
  What the restriction of \<open>seal_main\<close> means for the program it executes. The kernel's decision is the
  parameter \<open>allowed\<close>: may a process restricted to some rules use a right on the file it reaches by a
  path? \<open>landlock_law\<close> is the documented answer for one layer of rules that handles all rights, as
  \<open>landlock.V3\<close> does: a rule is tied to the file or directory its path names, it counts when that file or
  directory is met on the way from the root to the file, and the rules met on the way add up. A file can
  have several names, by bind mounts for instance (of which a container has many): the parameter \<open>ino\<close> says
  which file a path names, and a rule made by one name counts when the file is met by another.
\<close>

section \<open>The kernel's decision\<close>

text \<open>Files are reached by the components below the root, rights are named by their place in \<open>right_fields\<close>.\<close>

type_synonym 'i file_names = "string list \<Rightarrow> 'i"

type_synonym landlock_decision = "Rule list \<Rightarrow> string list \<Rightarrow> nat \<Rightarrow> bool"

text \<open>On the way to \<open>q\<close> the file of a path is met: at \<open>q\<close> or above it, by any name.\<close>

definition meets :: "'i file_names \<Rightarrow> string \<Rightarrow> string list \<Rightarrow> bool" where
  "meets ino path q \<longleftrightarrow> list_ex (\<lambda>q'. ino q' = ino (comps path)) (prefixes q)"

lemma meets_iff: "meets ino path q \<longleftrightarrow> (\<exists>q'. prefix q' q \<and> ino q' = ino (comps path))"
  by (simp add: meets_def list_ex_iff in_set_prefixes Bex_def)

lemma meets_below: "prefix (comps path) q \<Longrightarrow> meets ino path q"
  by (auto simp: meets_iff)

lemma meets_id: "meets (\<lambda>p. p) path q \<longleftrightarrow> prefix (comps path) q"
  by (simp add: meets_iff)

definition landlock_law :: "access_rights \<Rightarrow> 'i file_names \<Rightarrow> landlock_decision \<Rightarrow> bool" where
  "landlock_law ll ino allowed \<longleftrightarrow>
     (\<forall>rules q j. j < 15 \<longrightarrow> (\<forall>path a. grants rules path a \<longrightarrow> IsAbs path) \<longrightarrow>
        allowed rules q j = (\<exists>path a. grants rules path a \<and> meets ino path q \<and> has_right ll j a))"

fun rule_covers :: "access_rights \<Rightarrow> 'i file_names \<Rightarrow> string list \<Rightarrow> nat \<Rightarrow> Rule \<Rightarrow> bool" where
  "rule_covers ll ino q j (PathAccess a paths) = (has_right ll j a \<and> list_ex (\<lambda>p. meets ino p q) paths)"

definition landlock_check :: "access_rights \<Rightarrow> 'i file_names \<Rightarrow> landlock_decision" where
  "landlock_check ll ino rules q j = list_ex (rule_covers ll ino q j) rules"

lemma landlock_check_grants:
  "landlock_check ll ino rules q j \<longleftrightarrow> (\<exists>path a. grants rules path a \<and> meets ino path q \<and> has_right ll j a)"
proof -
  have "rule_covers ll ino q j r \<longleftrightarrow>
      (\<exists>path a ps. r = PathAccess a ps \<and> path \<in> set ps \<and> meets ino path q \<and> has_right ll j a)" for r
    by (cases r) (auto simp: list_ex_iff)
  then show ?thesis by (fastforce simp: landlock_check_def list_ex_iff grants_def Bex_def)
qed

lemma landlock_check_law: "landlock_law ll ino (landlock_check ll ino)"
  by (simp add: landlock_law_def landlock_check_grants)

text \<open>A file at or below one of some paths, or at or below another name of one.\<close>

definition under :: "'i file_names \<Rightarrow> string list \<Rightarrow> string list \<Rightarrow> bool" where
  "under ino ps q \<longleftrightarrow> list_ex (\<lambda>p. meets ino p q) ps"

lemma under_iff: "under ino ps q \<longleftrightarrow> (\<exists>p \<in> set ps. meets ino p q)"
  by (simp add: under_def list_ex_iff)

lemma under_append [simp]: "under ino (xs @ ys) q \<longleftrightarrow> under ino xs q \<or> under ino ys q"
  by (simp add: under_def)

text \<open>
  What a profile promises for a program that is kept in \<open>binaries\<close>: changes of the file system are
  confined to its read-write lists, execution to its exec lists and these files, and everything, reading
  included, to what the profile lists and these files.
\<close>

definition confined :: "'i file_names \<Rightarrow> Profile \<Rightarrow> string list \<Rightarrow> string list \<Rightarrow> nat \<Rightarrow> bool" where
  "confined ino p binaries q j \<longleftrightarrow>
     (j \<in> set (1 # [4..<15]) \<longrightarrow> under ino (ReadWrite p @ ReadWriteExec p) q) \<and>
     (j = 0 \<longrightarrow> under ino (ReadExec p @ ReadWriteExec p @ binaries) q) \<and>
     under ino (profile_paths p @ binaries) q"

section \<open>What the rules of a run allow\<close>

lemma grants_of_run:
  assumes "grants (ProfileToLandlockRules ll h profile @
      processPaths h binaries (accessDirRX ll) (accessFileRX ll)) path a"
  shows "path \<in> set (profile_paths profile @ binaries)"
  using assms by (auto simp: grants_profile grants_entry profile_paths_def)

lemma libraries_absolute:
  "DiscoverLinkedLibraries w h binary = Inr libs \<Longrightarrow> l \<in> set libs \<Longrightarrow> IsAbs l"
  using loader_output_absolute
  by (auto simp: DiscoverLinkedLibraries_def Let_def list_all_iff split: sum.splits if_splits prod.splits option.splits)

lemma rules_confined:
  assumes law: "landlock_law ll ino allowed" and rd: "rights_distinct ll"
    and abs: "\<forall>p \<in> set (profile_paths profile @ binaries). IsAbs p"
    and j: "j < 15"
    and allowed: "allowed (ProfileToLandlockRules ll h profile @
      processPaths h binaries (accessDirRX ll) (accessFileRX ll)) q j"
  shows "confined ino profile binaries q j"
proof -
  let ?rules = "ProfileToLandlockRules ll h profile @ processPaths h binaries (accessDirRX ll) (accessFileRX ll)"
  have "\<forall>path a. grants ?rules path a \<longrightarrow> IsAbs path" using grants_of_run abs by blast
  with law j allowed obtain path a where g: "grants ?rules path a" "meets ino path q" "has_right ll j a"
    unfolding landlock_law_def by blast
  have "j \<in> set (1 # [4..<15]) \<longrightarrow> path \<in> set (ReadWrite profile @ ReadWriteExec profile)"
    using run_rules_write [OF rd g(1)] g(3) by (auto simp: may_write_def)
  moreover have "j = 0 \<longrightarrow> path \<in> set (ReadExec profile @ ReadWriteExec profile @ binaries)"
    using run_rules_execute [OF rd g(1)] g(3) by (auto simp: may_execute_def)
  ultimately show ?thesis
    using g(2) grants_of_run [OF g(1)] unfolding confined_def under_iff by blast
qed

text \<open>The program that \<open>seal\<close> executes under the path of a binary, with the profile file of the plugin.\<close>

lemma sealed_program_confined:
  assumes stored: "fs_open (comps ContainerProfilePathInsideContainer) h = Inr f"
      "fs_read f h = Inr (encode_profiles m)" "map_wf m" "utf8_profiles m" "os_Getenv env ProfileEnvVar = []"
    and profile: "lookup m b = Some profile" "binary_ok b profile" and base: "Base b \<noteq> ''seal''"
    and law: "landlock_law (sw_rights w) ino allowed" and rd: "rights_distinct (sw_rights w)"
    and exec: "Exec path as env' \<in> set (fst (seal_main w h env b args))"
  shows "\<exists>rules libs. fst (seal_main w h env b args) = [RestrictPaths rules, Exec path as env'] \<and>
    sw_restrict w rules = None \<and> path = SwappedBinaryPathInsideContainer b \<and>
    (libs = [] \<or> os_Getenv env AddLinkedLibrariesEnvVar \<noteq> [] \<and> DiscoverLinkedLibraries (sw_dl w) h path = Inr libs) \<and>
    (\<forall>q j. j < 15 \<longrightarrow> allowed rules q j \<longrightarrow> confined ino profile (path # libs) q j)"
proof -
  have b: "clean_abs b" using profile(2) by (simp add: binary_ok_def)
  obtain cfg prof binaryRules where cfg: "parseFlags (sw_unsorted w) h env b args = Inr cfg"
    and prof: "buildProfile h cfg = Inr prof"
    and rules: "RulesForBinaryToRun (sw_rights w) h (cfg_binaryToRun cfg) (cfg_addLinkedLibraries cfg)
       (DiscoverLinkedLibraries (sw_dl w) h) = Inr binaryRules"
    and restrict: "sw_restrict w (ProfileToLandlockRules (sw_rights w) h prof @ binaryRules) = None"
    and calls: "fst (seal_main w h env b args) =
       [RestrictPaths (ProfileToLandlockRules (sw_rights w) h prof @ binaryRules), Exec path as env']"
    and path: "path = cfg_binaryToRun cfg"
    using seal_main_Exec [OF exec] .
  note fields = parseFlags_wrapper [OF b base cfg]
  have "prof = profile" using seal_reads_profile [OF stored(1-4) b base stored(5) cfg] prof profile(1) by simp
  moreover obtain libs where libs: "binaryRules = processPaths h (path # libs) (accessDirRX (sw_rights w)) (accessFileRX (sw_rights w))"
    "libs = [] \<or> cfg_addLinkedLibraries cfg \<and> DiscoverLinkedLibraries (sw_dl w) h path = Inr libs"
    using RulesForBinaryToRun_Inr [OF rules] path by blast
  moreover have "\<forall>p \<in> set (profile_paths profile @ path # libs). IsAbs p"
    using profile(2) libs(2) libraries_absolute path fields(2) by (auto simp: binary_ok_def b)
  ultimately show ?thesis
    using calls restrict path fields(2,5) rules_confined [OF law rd] by metis
qed

text \<open>All that the rules of the binary to run name is absolute, and so is all of an admitted profile.\<close>

lemma run_absolute:
  assumes "binary_ok b profile" "IsAbs binary"
    and "RulesForBinaryToRun ll h binary ldd (DiscoverLinkedLibraries dl h) = Inr binaryRules"
    and "grants (ProfileToLandlockRules ll h profile @ binaryRules) path a"
  shows "IsAbs path"
proof -
  obtain libs where libs: "binaryRules = processPaths h (binary # libs) (accessDirRX ll) (accessFileRX ll)"
    "libs = [] \<or> ldd \<and> DiscoverLinkedLibraries dl h binary = Inr libs"
    using RulesForBinaryToRun_Inr [OF assms(3)] by blast
  have "path \<in> set (profile_paths profile @ binary # libs)" using grants_of_run assms(4) libs(1) by blast
  then show ?thesis using assms(1,2) libs(2) libraries_absolute by (auto simp: binary_ok_def)
qed

section \<open>Lists below one another\<close>

text \<open>
  The webhook compares paths for equality only. A read-write directory covers everything below it, so
  that a path below it in the read-only or read-exec list, which the webhook admits, restricts nothing.
\<close>

lemma has_own_right:
  assumes "rights_distinct ll" "j < 15"
  shows "has_right ll j ((right_fields ! j) ll)"
proof -
  obtain ns where ns: "map (\<lambda>f. f ll) right_fields = map (\<lambda>n. push_bit n 1) ns" "\<forall>n \<in> set ns. n < 64"
    using assms(1) unfolding rights_distinct_def by blast
  have len: "length ns = 15" using arg_cong [OF ns(1), of length] by (simp add: length_right_fields)
  have "(right_fields ! j) ll = map (\<lambda>f. f ll) right_fields ! j" using assms(2) by (simp add: length_right_fields)
  also have "\<dots> = push_bit (ns ! j) 1" unfolding ns(1) using assms(2) len by simp
  finally have "bit ((right_fields ! j) ll) (ns ! j)"
    using ns(2) assms(2) len by (simp add: bit_simps)
  then show ?thesis by (auto simp: has_right_def)
qed

lemma accessDirRW_rights:
  assumes "rights_distinct ll" "0 < j" "j < 15"
  shows "has_right ll j (accessDirRW ll)"
proof -
  have "[1..<15] = [1, 2, 3, 4, 5, 6, 7, 8, 9, 10, 11, 12, 13, 14 :: nat]" by code_simp
  then have "has_right ll j (accessDirRW ll) \<longleftrightarrow> (\<exists>i \<in> set [1..<15]. has_right ll j ((right_fields ! i) ll))"
    by (auto simp: accessDirRW_def accessDirR_def accessFileRW_def accessFileR_def has_right_OR field_nth)
  then show ?thesis using has_own_right [OF assms(1,3)] assms(2,3) by auto
qed

text \<open>For the witness: a file of the read-only list below a directory of the read-write list.\<close>

definition nested_profile :: Profile where
  "nested_profile = \<lparr>ReadOnly = [''/tmp/keep''], ReadWrite = [''/tmp''], ReadExec = [], ReadWriteExec = []\<rparr>"

text \<open>C35: A read-write directory of a profile covers everything below it, by whatever name the directory is
  met on the way there. Whatever list of the profile names a path below such a directory, the rules of
  a run allow every right there but execution. The
  webhook admits such profiles: in the witness, one whose read-only path can be written.\<close>

theorem nested_list_ineffective:
  assumes law: "landlock_law ll ino allowed" and rd: "rights_distinct ll"
    and abs: "\<forall>p \<in> set (profile_paths profile @ binaries). IsAbs p"
    and d: "d \<in> set (ReadWrite profile)" "is_dir h d" "meets ino d q" and j: "0 < j" "j < 15"
  shows "allowed (ProfileToLandlockRules ll h profile @
    processPaths h binaries (accessDirRX ll) (accessFileRX ll)) q j"
proof -
  let ?rules = "ProfileToLandlockRules ll h profile @ processPaths h binaries (accessDirRX ll) (accessFileRX ll)"
  have "\<forall>path a. grants ?rules path a \<longrightarrow> IsAbs path" using grants_of_run abs by blast
  moreover have "grants ?rules d (accessDirRW ll)" using d(1,2) by (simp add: grants_profile entry_access_def)
  ultimately show ?thesis using law j d(3) accessDirRW_rights [OF rd j] unfolding landlock_law_def by blast
qed

theorem nested_list_ineffective_witness:
  "ValidateCreate list_of_set (spec_of (Some [(''a'', Some [(''/ls'', nested_profile)])])) = None \<and>
   landlock_check linux_rights (\<lambda>p. p) (ProfileToLandlockRules linux_rights rules_host nested_profile @
     processPaths rules_host [''/ls''] (accessDirRX linux_rights) (accessFileRX linux_rights)) (comps ''/tmp/keep'') 1"
proof
  have clean: "clean_abs ''/ls''" "clean_abs ''/tmp''" "clean_abs ''/tmp/keep''" by code_simp+
  then show "ValidateCreate list_of_set (spec_of (Some [(''a'', Some [(''/ls'', nested_profile)])])) = None"
    by (simp add: profile_ok_def binary_ok_def binary_profiles_def spec_of_def profile_paths_def
        disjoint_access_def nested_profile_def)
  have path: "comps ''/tmp'' = [''tmp'']" "comps ''/tmp/keep'' = [''tmp'', ''keep'']" by code_simp+
  have dir: "is_dir rules_host ''/tmp''"
    using path clean by (simp add: is_dir_def os_Stat_def fs_stat_def rules_host_def)
  have abs: "\<forall>p \<in> set (profile_paths nested_profile @ [''/ls'']). IsAbs p"
    using clean by (simp add: profile_paths_def nested_profile_def)
  show "landlock_check linux_rights (\<lambda>p. p) (ProfileToLandlockRules linux_rights rules_host nested_profile @
     processPaths rules_host [''/ls''] (accessDirRX linux_rights) (accessFileRX linux_rights)) (comps ''/tmp/keep'') 1"
    by (rule nested_list_ineffective [OF landlock_check_law linux_rights_distinct abs _ dir])
      (simp_all add: nested_profile_def path meets_id)
qed

text \<open>C21: Taking paths away from a profile only takes rights away. A profile whose four lists are part of those
  of a profile the webhook admits for a binary is admitted for it too, and whatever the kernel allows a
  program under its rules it allows under those of the larger profile. So neither the order of the
  paths, which differs from run to run where they are kept in a set, nor their repetition decides
  about anything.\<close>

theorem smaller_profile_allows_less:
  assumes "p \<le> q" "validate_binary sets_List f (b, q) = []" "landlock_law ll ino allowed" "IsAbs binary"
    and "RulesForBinaryToRun ll h binary ldd (DiscoverLinkedLibraries dl h) = Inr binaryRules"
    and "j < 15" "allowed (ProfileToLandlockRules ll h p @ binaryRules) path j"
  shows "validate_binary sets_List f (b, p) = [] \<and> allowed (ProfileToLandlockRules ll h q @ binaryRules) path j"
proof -
  have q: "binary_ok b q" using assms(2) by simp
  then have p: "binary_ok b p" by (rule binary_ok_antimono [OF assms(1)])
  from assms(3,6,7) obtain d a where g: "grants (ProfileToLandlockRules ll h p @ binaryRules) d a"
    "meets ino d path" "has_right ll j a"
    unfolding landlock_law_def using run_absolute [OF p assms(4,5)] by blast
  moreover have "grants (ProfileToLandlockRules ll h q @ binaryRules) d a"
    using g(1) grants_mono [OF assms(1)] by (auto simp: grants_append)
  ultimately have "allowed (ProfileToLandlockRules ll h q @ binaryRules) path j"
    using assms(3,6) run_absolute [OF q assms(4,5)] unfolding landlock_law_def by blast
  then show ?thesis using p by simp
qed

text \<open>Only the read-write list of \<open>nested_profile\<close>, with its path twice.\<close>

definition smaller_profile :: Profile where
  "smaller_profile = \<lparr>ReadOnly = [], ReadWrite = [''/tmp'', ''/tmp''], ReadExec = [], ReadWriteExec = []\<rparr>"

theorem smaller_profile_allows_less_witness:
  "validate_binary list_of_set (NewPath [''spec'']) (''/ls'', smaller_profile) = [] \<and>
   landlock_check linux_rights (\<lambda>p. p) (ProfileToLandlockRules linux_rights rules_host nested_profile @
     processPaths rules_host [''/ls''] (accessDirRX linux_rights) (accessFileRX linux_rights)) [''tmp'', ''x''] 1"
proof -
  have smaller: "smaller_profile \<le> nested_profile"
    by (simp add: smaller_profile_def nested_profile_def less_eq_Profile_ext_def)
  have clean: "clean_abs ''/ls''" "clean_abs ''/tmp''" "clean_abs ''/tmp/keep''" by code_simp+
  then have admitted: "validate_binary list_of_set (NewPath [''spec'']) (''/ls'', nested_profile) = []"
    by (simp add: binary_ok_def profile_paths_def disjoint_access_def nested_profile_def)
  have rules: "RulesForBinaryToRun linux_rights rules_host ''/ls'' False (DiscoverLinkedLibraries musl_world rules_host) =
      Inr (processPaths rules_host [''/ls''] (accessDirRX linux_rights) (accessFileRX linux_rights))"
    by (simp add: RulesForBinaryToRun_def)
  have path: "comps ''/tmp'' = [''tmp'']" by code_simp
  then have "is_dir rules_host ''/tmp''"
    using clean(2) by (simp add: is_dir_def os_Stat_def fs_stat_def rules_host_def)
  then have "grants (ProfileToLandlockRules linux_rights rules_host smaller_profile) ''/tmp'' (accessDirRW linux_rights)"
    by (simp add: grants_profile entry_access_def smaller_profile_def)
  moreover have "has_right linux_rights 1 (accessDirRW linux_rights)"
    by (rule accessDirRW_rights [OF linux_rights_distinct]) simp_all
  ultimately have "landlock_check linux_rights (\<lambda>p. p) (ProfileToLandlockRules linux_rights rules_host smaller_profile @
      processPaths rules_host [''/ls''] (accessDirRX linux_rights) (accessFileRX linux_rights)) [''tmp'', ''x''] 1"
    unfolding landlock_check_grants grants_append using path by (fastforce simp: meets_id)
  from smaller_profile_allows_less [OF smaller admitted landlock_check_law _ rules _ this] clean(1)
  show ?thesis by simp
qed

end
