(* ===== verification/Spec2Isabelle.thy ===== *)
theory Spec2Isabelle
  imports Container_Setup Seal_Main Work_Queue Reconcile_Race Nri_Main Nri_Recovery Controller_Main Deep_Copy Confinement
begin

text \<open>
  A verification development for PodLock, which runs programs of Kubernetes containers under
  Landlock profiles. This theory imports all others, and holds the properties that span parts.

  \<^bold>\<open>The program.\<close> A user stores a \<open>LandlockProfile\<close>: for each container name a map from the
  path of a binary to four lists of paths (read-only, read-write, read-exec, read-write-exec). The
  admission webhook adds a finalizer and checks the paths; the controller keeps a deleted profile until
  no pod is labelled with it. On every node the NRI plugin is called when a container is created: for a
  labelled pod it fetches the profile, reserves one empty file per binary and writes the container's
  profiles as JSON under \<open>/var/run/podlock\<close>, and answers an adjustment of the container: bind mounts of
  these files and of the program \<open>seal\<close>, one OCI hook per binary, and the log level. The hook
  \<open>swap-oci-hook\<close> mounts the binary at its backup path and \<open>seal\<close> over the binary. So when the container
  runs a binary it runs \<open>seal\<close>, which reads the profile of that binary, turns it into Landlock rules,
  restricts itself and executes the binary from the backup path.

  \<^bold>\<open>Conventions.\<close> A Go function is a HOL function of the same name. \<open>(T, error)\<close> is
  \<open>go_error + T\<close>; effects pass a state, kept also by an error return (\<open>attempt\<close>, \<open>return_ok\<close> in
  \<open>Podlock_Prelude\<close>). A Go string is the list of its bytes. A Go map is nil or a list of entries in the
  order a \<open>range\<close> visits them (\<open>go_map\<close>), so that what holds for all maps holds for all orders. Log
  lines are not kept. What is not code of the repository or of Go's standard library is a parameter, with
  its documented behaviour as a named law and an instance on which the law holds.

  \<^bold>\<open>Libraries of Go.\<close>
  \<^item> \<open>Go_Strings\<close>: \<open>strings\<close>; \<open>Go_Filepath\<close>: \<open>path/filepath\<close>, with cleaned absolute paths as lists of
    components and the contract \<open>path_join\<close>; \<open>Go_Process\<close>: environment and \<open>strconv\<close>; \<open>Go_Flag\<close>:
    \<open>flag\<close>; \<open>Go_Sha256\<close>: \<open>crypto/sha256\<close> on 32-bit words and \<open>encoding/hex\<close>.
  \<^item> \<open>Go_Json\<close>: the encoder's text and the decoder's parser of \<open>encoding/json\<close>. The parser takes fuel;
    \<open>2 * length s + 1\<close> is what \<open>decode_profiles\<close> gives it, and \<open>parse_value_fuel\<close> shows that more fuel never
    changes the answer.
    \<open>Go_Json_Cut\<close>: a text the encoder wrote that was cut short is not parsed.
  \<^item> \<open>Go_Os\<close>: the calls of \<open>os\<close> on a host, a map from paths to directories and files, in which any call
    can fail with any error; a failing write or transfer leaves any prefix of what it was to write, a
    failing removal any part of what it was to remove. Invariant \<open>tree_wf\<close>, frames, and when calls
    succeed; contracts \<open>file_store\<close> and \<open>failing_store\<close>.

  \<^bold>\<open>Parts of the program.\<close>
  \<^item> \<open>Api_Types\<close>, \<open>Profile_Codec\<close> (\<open>api/v1alpha1\<close>, \<open>pkg/constants\<close>): the data, and their JSON form with
    the contract \<open>profile_codec\<close> between the plugin, which writes it, and \<open>seal\<close>, which reads it, also
    after a write that failed.
    \<open>Deep_Copy\<close> (\<open>zz_generated.deepcopy.go\<close>): the generated copies of profiles and of lists of them, on the
    store of arrays and maps of \<open>Deep_Copy_Store\<close> with its contracts \<open>stored_copy\<close>, \<open>stored_map\<close> and
    \<open>stored_array\<close>; metadata and conditions, of another package, refer into the store too, and their copies
    are parameters with the law \<open>metav1_laws\<close>. This is why the other theories may use plain values.
  \<^item> \<open>Webhook\<close> (\<open>internal/webhook/v1alpha1\<close>): the validators against the specification \<open>profile_ok\<close>, and
    the defaulter.
  \<^item> \<open>Controller\<close> (\<open>internal/controller\<close>): one run of the reconciler. \<open>Cached_Client\<close>: its client is the
    manager's, which reads from caches; \<open>moving_laws\<close> says so, with a relation \<open>past\<close> between the states the client
    takes for the present one and the present one, and \<open>Reconcile_moments\<close> what a run does then. \<open>Lifecycle\<close>: the
    interleaving of users, pods and whole runs with such a client as a step relation with its invariant.
    \<open>Reconcile_Race\<close>: a run between whose calls others act; it keeps the invariant, and what it drops was
    unused at one moment as far as the client could tell, not up to the end of the run. \<open>Work_Queue\<close>: the
    queue of profiles to reconcile as controller-runtime documents it, fed by the watches the registration
    asks for, by retries of failed runs and by delays; no deletion is forgotten, and the queue empties
    within the bound \<open>work_left\<close> once the cluster is quiet. The cluster there is the one the caches show, since
    watches report what the caches get to know: a run that works on a key reads what is so in it. \<open>Controller_Main\<close>
    (\<open>cmd/controller\<close>): flags, server options and the start of the manager.
  \<^item> \<open>Nri_Paths\<close>, \<open>Nri_Filesystem\<close>, \<open>Nri_Plugin\<close> (\<open>internal/nri\<close>): the paths and why they never
    collide; the operations on the host's files on every branch; the two handlers, the step relation of
    a node, between whose steps the profiles may change, with its invariant, and the abstract store of
    profiles that a node refines. \<open>Nri_Recovery\<close>:
    failed attempts to create a container or to install a helper, torn files included, never stand in
    the way of a later one.
    \<open>Node_Label\<close>, \<open>Nri_Main\<close> (\<open>internal/nri\<close>, \<open>cmd/nri\<close>): the node's label and the command's two modes.
  \<^item> \<open>Swap_Hook\<close> (\<open>cmd/swap-oci-hook\<close>): the hook and one swap. \<open>Container_Setup\<close>: the runtime makes the mounts
    of an adjustment and runs its hooks, each a process that has to enter the container; what the
    container's paths show then, and why the profile written on the host is the one \<open>seal\<close> reads.
  \<^item> \<open>Seal_Constants\<close>, \<open>Cmdutil_Log\<close>, \<open>Seal_Cli\<close>, \<open>Seal_Rules\<close>, \<open>Seal_Ldd\<close>, \<open>Seal_Main\<close> (\<open>cmd/seal\<close>,
    \<open>internal/seal\<close>, \<open>internal/cmdutil\<close>): command line, rules on 64-bit words, linked libraries, the run.
    The profile file is the one \<open>SEAL_PROFILE_PATH\<close> names, if the caller sets it; what is delivered counts only
    without it, and the properties say where they need that.
    \<open>Confinement\<close>: what the rules of a run allow under the kernel's documented decision, in which a rule counts
    by whatever name its file is met, bind mounts for instance (\<open>ino\<close>), and why a path
    below another one of a more permissive list is not restricted; profiles are ordered by what they list
    (an instance of \<open>preorder\<close> in \<open>Api_Types\<close>), and a smaller profile allows less.

  \<^bold>\<open>Across the parts\<close>, in this theory: what the webhook admits is what the plugin assumes; what the
  plugin delivers is, after the mounts and hooks it asked for, what \<open>seal\<close> enforces, so that the program is
  confined to its profile, unless its caller names it \<open>seal\<close> or sets \<open>SEAL_PROFILE_PATH\<close> and so chooses the rules; in whatever state failed calls leave a node, \<open>seal\<close>
  enforces a profile selected for that container or runs nothing; and with profiles
  from any states the cluster has reached the plugin never touches a file outside the directory of the
  container it is called for.

  \<^bold>\<open>Not modelled.\<close> What only logs or prints (\<open>DebugRules\<close>, usage texts, the \<open>String\<close> methods of
  flags; the model keeps \<open>LogValue\<close> but no log); what registering a type in a scheme does, which is the
  library's; the goroutine that runs the client's cache; the fields of \<open>Plugin\<close>, which are parameters of
  its methods. Of the file system: symbolic links and permissions (all of this code runs as root). What
  the container runtime does with an adjustment is given by \<open>runtime_laws\<close> and \<open>container_set_up\<close>.
  \<open>test/utils\<close> is not part of the program.
\<close>

section \<open>Profiles across the parts\<close>

text \<open>What the webhook admits is what the plugin relies on.\<close>

lemma profile_ok_binaries:
  assumes "profile_ok profile" "lookup (ProfilesByContainer (Spec profile)) ctr = Some m"
  shows "binaries_ok m"
  unfolding binaries_ok_def
proof
  fix b assume "b \<in> set (keys m)"
  then obtain p where "(b, p) \<in> set (entries m)" by (auto simp: keys_def)
  then have "binary_ok b p" by (rule profile_okD [OF assms(1) lookup_Some_in [OF assms(2)]])
  then show "clean_abs b" by (simp add: binary_ok_def)
qed

lemma profile_ok_lookup:
  assumes "profile_ok profile" "lookup (ProfilesByContainer (Spec profile)) ctr = Some m" "lookup m b = Some p"
  shows "binary_ok b p"
  using assms(2,3) by (intro profile_okD [OF assms(1)] lookup_Some_in)

text \<open>From the delivered profile to the run of \<open>seal\<close>.\<close>

lemma delivered_run:
  assumes "CreateContainer get logLevel (Some p) (Some c) h = (Inr (Some a), h')" "names_ok p c"
    and "selected get p c m" "map_wf m" "tree_wf (tree h)" "\<forall>b \<in> set (keys m). outside_data_dir b"
    and "runtime_laws api start inside view sees held run" "container_set_up text_of view run a h' s ctr"
    and "utf8_profiles m" "lookup m b = Some profile" "Base b \<noteq> ''seal''" "os_Getenv env ProfileEnvVar = []"
    and "ParseLogLevel (if os_Getenv env LogLevelEnvVar = [] then ''INFO'' else os_Getenv env LogLevelEnvVar) = Inr l"
    and "RulesForBinaryToRun (sw_rights w) ctr (SwappedBinaryPathInsideContainer b)
      (os_Getenv env AddLinkedLibrariesEnvVar \<noteq> []) (DiscoverLinkedLibraries (sw_dl w) ctr) = Inr binaryRules"
  shows "seal_main w ctr env b args =
    (let rules = ProfileToLandlockRules (sw_rights w) ctr profile @ binaryRules;
         path = SwappedBinaryPathInsideContainer b;
         sealed = sealedProcessEnv env
     in case sw_restrict w rules of
          Some e \<Rightarrow> ([RestrictPaths rules], Exit 1)
        | None \<Rightarrow>
            ([RestrictPaths rules, Exec path (b # args) sealed],
             if sw_exec w path (b # args) sealed = None then Replaced else Exit 1))"
proof -
  have "b \<in> set (keys m)" using assms(10) lookup_None_iff [of m b] by simp
  then have b: "clean_abs b" using assms(6) by (simp add: outside_data_dir_def)
  obtain f where f: "fs_open (comps ContainerProfilePathInsideContainer) ctr = Inr f"
    "fs_read f ctr = Inr (encode_profiles m)" using delivered_profile [OF assms(1-8)] by blast
  obtain cfg where cfg: "parseFlags (sw_unsorted w) ctr env b args = Inr cfg"
    and level: "cfg_logLevel cfg = (if os_Getenv env LogLevelEnvVar = [] then ''INFO'' else os_Getenv env LogLevelEnvVar)"
    using parseFlags_wrapper_Inr [OF b assms(11)] by blast
  note fields = parseFlags_wrapper [OF b assms(11) cfg]
  have "buildProfile ctr cfg = Inr profile"
    using seal_reads_profile [OF f assms(4,9) b assms(11,12) cfg] assms(10) by simp
  moreover have "\<exists>lg. setupLogger (cfg_logLevel cfg) (cfg_logFormat cfg) = Inr lg"
    using assms(13) by (simp add: setupLogger_def level)
  ultimately show ?thesis
    using cfg fields(1-3,5) assms(14) by (auto simp: seal_main_def Let_def split: option.splits)
qed

text \<open>
  A profile the webhook admits can stop its container: with PodLock's own profile file as a binary, the hooks
  leave \<open>seal\<close>, a program, where \<open>seal\<close> looks for the profiles, and no other binary runs any more.
\<close>

lemma data_dir_binary_stops_container:
  assumes "runtime_laws api start inside view sees held run"
    and "run_hooks run (hooks_of (createContainerAdjustment podID containerName
      (Some [(ContainerProfilePathInsideContainer, profile)]) logLevel)) s = (True, s')"
    and "reads_as text_of (view s') ctr" "text_of (view s SealBinaryPathContainer) = Some (CHR 0x7F # program)"
    and "os_Getenv env ProfileEnvVar = []" "Base arg0 \<noteq> ''seal''"
  shows "seal_main w ctr env arg0 args = ([], Exit 1)"
proof -
  have "text_of (view s' ContainerProfilePathInsideContainer) = Some (CHR 0x7F # program)"
    using data_dir_binary_hides_profile [OF assms(1,2)] assms(4) by simp
  moreover have "clean_abs ContainerProfilePathInsideContainer" by code_simp
  ultimately obtain f where "fs_open (comps ContainerProfilePathInsideContainer) ctr = Inr f"
    "fs_read f ctr = Inr (CHR 0x7F # program)" using assms(3) unfolding reads_as_def by blast
  then show ?thesis using seal_main_undecodable assms(5,6) decode_program by blast
qed

section \<open>Properties\<close>

text \<open>C1: A delivered profile confines the program. Let \<open>CreateContainer\<close> have answered an adjustment for
  the container's part of a profile the webhook admitted, none of whose binaries lies at or below \<open>/.podlock\<close>,
  and the runtime have made its mounts and run its hooks. Let \<open>seal\<close>, which a binary of the profile then
  shows, be called under the path of that binary, whose name is not \<open>seal\<close>, in an environment that does not set
  \<open>SEAL_PROFILE_PATH\<close> (a caller who sets it has another file read). Whenever it executes a program at
  all, it is the swapped binary, after one successful restriction; and under the kernel's documented
  decision, bind mounts included, the rules of that restriction allow changes of the file system only at
  or below paths of the binary's two read-write lists, execution only at or below those of its two exec
  lists, the binary itself and (when asked for) its linked libraries, and any access at all only there
  or at or below the listed paths; a path stands for all names of the file or directory it names.\<close>

theorem delivered_program_confined:
  assumes "CreateContainer get logLevel (Some p) (Some c) h = (Inr (Some a), h')" "names_ok p c"
    and "selected get p c m" "map_wf m" "tree_wf (tree h)" "\<forall>b \<in> set (keys m). outside_data_dir b"
    and "runtime_laws api start inside view sees held run" "container_set_up text_of view run a h' s ctr"
    and "ValidateCreate sets_List prof = None" "lookup (ProfilesByContainer (Spec prof)) (ctr_Name c) = Some m"
    and "utf8_profiles m" "lookup m b = Some profile" "Base b \<noteq> ''seal''" "os_Getenv env ProfileEnvVar = []"
    and "rights_distinct (sw_rights w)" "landlock_law (sw_rights w) ino allowed"
    and "Exec path as env' \<in> set (fst (seal_main w ctr env b args))"
  shows "\<exists>rules libs. fst (seal_main w ctr env b args) = [RestrictPaths rules, Exec path as env'] \<and>
    sw_restrict w rules = None \<and> path = SwappedBinaryPathInsideContainer b \<and>
    (libs = [] \<or> os_Getenv env AddLinkedLibrariesEnvVar \<noteq> [] \<and>
       DiscoverLinkedLibraries (sw_dl w) ctr path = Inr libs) \<and>
    (\<forall>q j. j < 15 \<longrightarrow> allowed rules q j \<longrightarrow> confined ino profile (path # libs) q j)"
proof -
  obtain f where f: "fs_open (comps ContainerProfilePathInsideContainer) ctr = Inr f"
    "fs_read f ctr = Inr (encode_profiles m)" using delivered_profile [OF assms(1-8)] by blast
  have "binary_ok b profile" using assms(9) profile_ok_lookup [OF _ assms(10,12)] by simp
  from sealed_program_confined [OF f assms(4,11,14,12) this assms(13,16,15,17)] show ?thesis .
qed

text \<open>C2: A container gets exactly the profile that was written for it. When \<open>CreateContainer\<close> has
  answered an adjustment, for a profile with no binary at or below \<open>/.podlock\<close>, and the runtime has made its
  mounts and run its hooks, then \<open>seal\<close>, called under the path of a binary of the profile, whose name is not \<open>seal\<close>,
  and not configured otherwise (\<open>SEAL_PROFILE_PATH\<close> is unset), restricts itself to the rules
  of that binary's profile and of the swapped binary, and then, and only if that succeeded, executes
  the swapped binary with the arguments given. \<open>binaryRules\<close> are the rules of the binary to run, and
  the log level is one that parses.\<close>

theorem delivered_profile_enforced:
  assumes "CreateContainer get logLevel (Some p) (Some c) h = (Inr (Some a), h')" "names_ok p c"
    and "selected get p c m" "map_wf m" "tree_wf (tree h)" "\<forall>b \<in> set (keys m). outside_data_dir b"
    and "runtime_laws api start inside view sees held run" "container_set_up text_of view run a h' s ctr"
    and "utf8_profiles m" "lookup m b = Some profile" "Base b \<noteq> ''seal''" "os_Getenv env ProfileEnvVar = []"
    and "ParseLogLevel (if os_Getenv env LogLevelEnvVar = [] then ''INFO'' else os_Getenv env LogLevelEnvVar) = Inr l"
    and "RulesForBinaryToRun (sw_rights w) ctr (SwappedBinaryPathInsideContainer b)
      (os_Getenv env AddLinkedLibrariesEnvVar \<noteq> []) (DiscoverLinkedLibraries (sw_dl w) ctr) = Inr binaryRules"
  shows "seal_main w ctr env b args =
    (let rules = ProfileToLandlockRules (sw_rights w) ctr profile @ binaryRules;
         path = SwappedBinaryPathInsideContainer b;
         sealed = sealedProcessEnv env
     in case sw_restrict w rules of
          Some e \<Rightarrow> ([RestrictPaths rules], Exit 1)
        | None \<Rightarrow>
            ([RestrictPaths rules, Exec path (b # args) sealed],
             if sw_exec w path (b # args) sealed = None then Replaced else Exit 1))"
  by (rule delivered_run [OF assms])


text \<open>C26: Admission is enough for the plugin. Of a profile the webhook admitted, every binary has clean
  absolute path, is kept on the host in its own place below the directory of its container, apart from
  the places of all other binaries, containers and pods, and has its own backup path inside the
  container.\<close>

theorem admission_suffices:
  assumes "ValidateCreate sets_List profile = None"
    and "lookup (ProfilesByContainer (Spec profile)) ctr = Some m" "b \<in> set (keys m)"
    and "proper podID" "proper ctr" "proper podID'" "proper ctr'" "clean_abs b'"
  shows "clean_abs b \<and>
    prefix (swapped_dir podID ctr) (comps (swappedBinaryPathOnHost podID ctr b)) \<and>
    (swappedBinaryPathOnHost podID ctr b = swappedBinaryPathOnHost podID' ctr' b' \<longrightarrow>
       podID = podID' \<and> ctr = ctr' \<and> b = b') \<and>
    (SwappedBinaryPathInsideContainer b = SwappedBinaryPathInsideContainer b' \<longrightarrow> b = b')"
proof -
  have "binaries_ok m" using assms(1) profile_ok_binaries [OF _ assms(2)] by simp
  then have b: "clean_abs b" using assms(3) by (simp add: binaries_ok_def)
  then show ?thesis
    using swappedBinaryPathOnHost_separate [OF assms(4-7) b assms(8)]
      swappedBinaryPathInsideContainer_inject [OF b assms(8)]
      comps_swappedBinaryPathOnHost [OF assms(4,5) b]
    by simp
qed

text \<open>An admitted profile is unambiguous: the rules it turns into grant every path at most one
  access, whatever the container's files are.\<close>

lemma admitted_one_access:
  assumes "ValidateCreate sets_List profile = None"
    and "lookup (ProfilesByContainer (Spec profile)) ctr = Some m" "lookup m b = Some p"
    and "grants (ProfileToLandlockRules ll h p) path a" "grants (ProfileToLandlockRules ll h p) path a'"
  shows "a = a'"
proof -
  have "binary_ok b p" using assms(1) profile_ok_lookup [OF _ assms(2,3)] by simp
  then show ?thesis
    using disjoint_one_access [OF _ _ _ _ _ _ assms(4,5)] by (simp add: binary_ok_def disjoint_access_def)
qed

text \<open>C7: The whole system keeps containers apart. Let the client answer each request for a profile as it
  was in some state the cluster has reached from a sound one, by users, pods and the reconciler, which itself
  may read from caches (\<open>past\<close> says how old); the answers may be old, as those of a cache are, and of different states. Then a call of
  \<open>CreateContainer\<close> for any pod and container, successful or not, changes no file outside of the
  directory of that container.\<close>

theorem system_isolation:
  assumes "finalizer_laws cu" "cluster_inv k0"
    and "\<And>nn prof. get nn = Inr prof \<Longrightarrow> \<exists>k. (cluster_step cu sets_List past)\<^sup>*\<^sup>* k0 k \<and> cl_profiles k nn = Some prof"
    and "CreateContainer get logLevel (Some p) (Some c) h = (r, h')" "names_ok p c"
    and "\<not> strict_prefix (ctr_dir (pod_Id p) (ctr_Name c)) q"
  shows "file_at h' q = file_at h q"
proof (rule CreateContainer_frame [OF assms(4,5) _ assms(6)])
  fix m assume "selected get p c m"
  then obtain nn prof where prof: "get nn = Inr prof"
    "lookup (ProfilesByContainer (Spec prof)) (ctr_Name c) = Some m" by (auto simp: selected_def)
  obtain k where k: "(cluster_step cu sets_List past)\<^sup>*\<^sup>* k0 k" "cl_profiles k nn = Some prof"
    using assms(3) [OF prof(1)] by blast
  have "profile_inv nn prof"
    by (rule cluster_invD [OF cluster_reachable_inv [OF k(1) assms(1,2)] k(2)])
  then show "binaries_ok m" using profile_ok_binaries [OF _ prof(2)] by (simp add: profile_inv_def)
qed

text \<open>C6: In whatever state a node gets into, no program runs under a profile that was not selected for its
  container. Let a node create and remove containers in any order, with profiles that change in
  between and with calls that fail anywhere, and let a container, at any moment, read the file the host
  then has for it, whole or torn. Then \<open>seal\<close>, called by any name but its own and in an environment that does not
  set \<open>SEAL_PROFILE_PATH\<close>, ends having restricted and executed nothing, or the first thing it does is to
  restrict itself to the profile of the binary it was called as in one of the maps that a client has
  answered for that very pod and container name. A caller who sets \<open>SEAL_PROFILE_PATH\<close> has \<open>seal\<close> read a file
  of his choice instead.\<close>

theorem reachable_profile_enforced:
  assumes "(node_step G logLevel)\<^sup>*\<^sup>* h0 h" "stored_profiles h0 (podID, containerName) = None"
    and "\<And>get p c m. G get \<Longrightarrow> selected get p c m \<Longrightarrow> map_wf m \<and> utf8_profiles m"
    and "stored_profiles h (podID, containerName) = Some s"
    and "fs_open (comps ContainerProfilePathInsideContainer) ctr = Inr f" "fs_read f ctr = Inr s"
    and "os_Getenv env ProfileEnvVar = []" "Base arg0 \<noteq> ''seal''"
  shows "seal_main w ctr env arg0 args = ([], Exit 1) \<or>
    (\<exists>b get p c m profile binaryRules. Abs (os_Getwd ctr) arg0 = Inr b \<and>
       G get \<and> selected get p c m \<and> pod_Id p = podID \<and> ctr_Name c = containerName \<and>
       lookup m b = Some profile \<and>
       RulesForBinaryToRun (sw_rights w) ctr (SwappedBinaryPathInsideContainer b)
         (os_Getenv env AddLinkedLibrariesEnvVar \<noteq> []) (DiscoverLinkedLibraries (sw_dl w) ctr) = Inr binaryRules \<and>
       hd (fst (seal_main w ctr env arg0 args)) =
         RestrictPaths (ProfileToLandlockRules (sw_rights w) ctr profile @ binaryRules))"
proof -
  obtain get p c m where origin: "G get" "selected get p c m" "(podID, containerName) = (pod_Id p, ctr_Name c)"
    "prefix s (encode_profiles m)"
    using store_reachable_origin [OF node_reachable_store [OF assms(1)] assms(4)] assms(2) by auto
  have m: "map_wf m" "utf8_profiles m" using assms(3) [OF origin(1,2)] by simp_all
  from seal_main_cut [OF container_profile_opened [OF assms(7,5)] assms(6) origin(4) m assms(8), of w args] show ?thesis using origin(1-3) by blast
qed

section \<open>Witnesses\<close>

text \<open>The container of \<open>pod0\<close> and \<open>web0\<close>, with the mounts of its adjustment.\<close>

definition ctr0 :: host where
  "ctr0 = \<lparr>tree = [[] \<mapsto> DirNode 0x1ED, [''.podlock''] \<mapsto> DirNode 0x1ED,
     [''.podlock'', ''profile.json''] \<mapsto> FileNode 0x1A4 (encode_profiles bins0),
     [''.podlock'', ''swapped-binaries''] \<mapsto> DirNode 0x1ED,
     [''.podlock'', ''swapped-binaries'', ''bin''] \<mapsto> DirNode 0x1ED,
     [''.podlock'', ''swapped-binaries'', ''bin'', ''sh''] \<mapsto> FileNode 0x1ED [],
     [''.podlock'', ''swapped-binaries'', ''usr''] \<mapsto> DirNode 0x1ED,
     [''.podlock'', ''swapped-binaries'', ''usr'', ''bin''] \<mapsto> DirNode 0x1ED,
     [''.podlock'', ''swapped-binaries'', ''usr'', ''bin'', ''curl''] \<mapsto> FileNode 0x1ED []],
     wd = ''/'', umask = 0, fault = (\<lambda>_ _. None), progress = (\<lambda>_. 0), gone = (\<lambda>_. False)\<rparr>"

lemma ctr0_paths:
  "comps (SwappedBinaryPathInsideContainer ''/usr/bin/curl'') =
     [''.podlock'', ''swapped-binaries'', ''usr'', ''bin'', ''curl'']"
  "comps (SwappedBinaryPathInsideContainer ''/bin/sh'') = [''.podlock'', ''swapped-binaries'', ''bin'', ''sh'']"
  "comps ContainerProfilePathInsideContainer = [''.podlock'', ''profile.json'']"
  "comps SealBinaryPathHost = [''opt'', ''podlock'', ''bin'', ''seal'']"
  by code_simp+

lemma ctr0_reads:
  "fs_open [''.podlock'', ''profile.json''] ctr0 = Inr [''.podlock'', ''profile.json'']"
  "fs_read [''.podlock'', ''profile.json''] ctr0 = Inr (encode_profiles bins0)"
  "fs_open [''.podlock'', ''swapped-binaries'', ''bin'', ''sh''] ctr0 =
     Inr [''.podlock'', ''swapped-binaries'', ''bin'', ''sh'']"
  "fs_read [''.podlock'', ''swapped-binaries'', ''bin'', ''sh''] ctr0 = Inr []"
  "fs_open [''.podlock'', ''swapped-binaries'', ''usr'', ''bin'', ''curl''] ctr0 =
     Inr [''.podlock'', ''swapped-binaries'', ''usr'', ''bin'', ''curl'']"
  "fs_read [''.podlock'', ''swapped-binaries'', ''usr'', ''bin'', ''curl''] ctr0 = Inr []"
  by (simp_all add: fs_open_def fs_read_def ctr0_def)

text \<open>
  Its file objects are named by the path that shows them before the hooks; of them the profile and
  the files that keep the place of the swapped binaries are known.
\<close>

definition text0 :: "string \<Rightarrow> string option" where
  "text0 path =
     (if path = ContainerProfilePathInsideContainer then Some (encode_profiles bins0)
      else if path \<in> SwappedBinaryPathInsideContainer ` set (keys bins0) then Some [] else None)"

definition roots0 :: two_roots where
  "roots0 = \<lparr>tr_host = (\<lambda>p. ''host''), tr_ctr = (\<lambda>p. p), tr_inside = False, tr_trees = []\<rparr>"

lemma text0_values:
  "text0 ContainerProfilePathInsideContainer = Some (encode_profiles bins0)"
  "b \<in> set (keys bins0) \<Longrightarrow> text0 (SwappedBinaryPathInsideContainer b) = Some []"
  "text0 SealBinaryPathContainer = None" "b \<in> set (keys bins0) \<Longrightarrow> text0 b = None"
proof -
  show "text0 ContainerProfilePathInsideContainer = Some (encode_profiles bins0)" by (simp add: text0_def)
  have "\<forall>b \<in> set (keys bins0). SwappedBinaryPathInsideContainer b \<noteq> ContainerProfilePathInsideContainer"
    by code_simp
  then show "b \<in> set (keys bins0) \<Longrightarrow> text0 (SwappedBinaryPathInsideContainer b) = Some []"
    by (simp add: text0_def)
  have "SealBinaryPathContainer \<noteq> ContainerProfilePathInsideContainer"
    "SealBinaryPathContainer \<notin> SwappedBinaryPathInsideContainer ` set (keys bins0)" by code_simp+
  then show "text0 SealBinaryPathContainer = None" by (simp add: text0_def)
  have "\<forall>b \<in> set (keys bins0). b \<noteq> ContainerProfilePathInsideContainer \<and>
      b \<notin> SwappedBinaryPathInsideContainer ` set (keys bins0)" by code_simp
  then show "b \<in> set (keys bins0) \<Longrightarrow> text0 b = None" by (simp add: text0_def)
qed

lemma ctr0_mounts:
  assumes "CreateContainer get0 ''info'' (Some pod0) (Some web0) host0 = (Inr (Some a), h')"
  shows "a = createContainerAdjustment ''pod1'' ''web'' bins0 ''info'' \<and> mounts_made text0 a h' (\<lambda>p. p)"
  using assms
proof (cases rule: CreateContainer_steps)
  case (5 p c m h1)
  then have m: "m = bins0" "p = pod0" "c = web0" using selected_unique [OF fixture0(1)] by auto
  with 5 have a: "a = createContainerAdjustment ''pod1'' ''web'' bins0 ''info''"
    by (simp add: pod0_def web0_def)
  have stored: "file_at h' (comps (landlockProfilePathOnHost ''pod1'' ''web'')) = Some (encode_profiles bins0)"
    using 5 m by (auto simp: pod0_def web0_def intro: write_profile_stored)
  have seal: "file_at h' [''opt'', ''podlock'', ''bin'', ''seal''] = None"
    using CreateContainer_frame [OF assms fixture0(2) binaries0, of "[''opt'', ''podlock'', ''bin'', ''seal'']"]
    by (simp add: ctr_dir_def pod_dir_def host0_def file_at_def)
  have swapped: "s = []"
    if "b \<in> set (keys bins0)" "file_at h' (swapped ''pod1'' ''web'' b) = Some s" for b s
  proof -
    have names: "proper ''pod1''" "proper ''web''" "clean_abs b"
      using fixture0(2,3) that(1) by (simp_all add: names_ok_def binaries_ok_def pod0_def web0_def)
    let ?q = "swapped ''pod1'' ''web'' b"
    have q: "?q = swapped_dir ''pod1'' ''web'' @ comps b" using names by (rule comps_swappedBinaryPathOnHost)
    have "?q \<noteq> comps (landlockProfilePathOnHost ''pod1'' ''web'')"
      using names by (simp add: q comps_landlockProfilePathOnHost swapped_dir_def ContainerProfileName_def)
    then have "file_at h1 ?q = Some s" using write_profile_frame 5 m that(2) by (fastforce simp: pod0_def web0_def)
    then obtain k where "tree h1 ?q = Some (FileNode k s)"
      by (auto simp: file_at_def split: option.splits node.splits)
    moreover have "tree host0 ?q = None" by (simp add: q host0_def swapped_dir_def ctr_dir_def)
    moreover have "reserveSwappedBinaries (pod_Id pod0) (ctr_Name web0) bins0 host0 = (Inr (), h1)"
      using 5 m by simp
    note growsD(3) [OF reserve_grows [OF this fixture0(2,3)]]
    ultimately show ?thesis by blast
  qed
  have "mounts_made text0 a h' (\<lambda>p. p)"
    unfolding mounts_made_def
  proof (intro allI impI, elim conjE)
    fix mt s assume mt: "AddMount mt \<in> set a" "file_at h' (comps (Source mt)) = Some s"
    from mt(1) consider "mt = bind_mount SealBinaryPathContainer SealBinaryPathHost"
      | "mt = bind_mount ContainerProfilePathInsideContainer (landlockProfilePathOnHost ''pod1'' ''web'')"
      | b where "b \<in> set (keys bins0)"
          "mt = bind_mount (SwappedBinaryPathInsideContainer b) (swappedBinaryPathOnHost ''pod1'' ''web'' b)"
      by (auto simp: a createContainerAdjustment_def)
    then show "text0 (Destination mt) = Some s"
    proof cases
      case 1
      then show ?thesis using mt(2) seal by (simp add: bind_mount_def ctr0_paths)
    next
      case 2
      then show ?thesis using mt(2) stored by (simp add: bind_mount_def text0_values)
    next
      case (3 b)
      then have "s = []" using mt(2) swapped by (simp add: bind_mount_def)
      then show ?thesis using 3 by (simp add: bind_mount_def text0_values)
    qed
  qed
  then show ?thesis using a by simp
qed simp_all

text \<open>After the hooks, what is known of the objects is what \<open>ctr0\<close> reads as.\<close>

lemma ctr0_hooks:
  "\<exists>s'. run_hooks tr_run (map swap_hook (keys bins0)) roots0 = (True, s') \<and> reads_as text0 (tr_ctr s') ctr0"
proof -
  have "\<forall>b \<in> set (keys bins0). b \<noteq> []" by code_simp
  from tr_run_hooks [OF this, of roots0] obtain s' where
    run: "run_hooks tr_run (map swap_hook (keys bins0)) roots0 = (True, s')" and
    ctr: "tr_ctr s' = tr_swap (keys bins0) (\<lambda>p. p)" by (auto simp: roots0_def)
  define curl sh where "curl = ''/usr/bin/curl''" and "sh = ''/bin/sh''"
  let ?swapped = SwappedBinaryPathInsideContainer
  have bins: "keys bins0 = [curl, sh]" by (simp add: bins0_def curl_def sh_def)
  have paths: "distinct [curl, sh, ?swapped curl, ?swapped sh, SealBinaryPathContainer]"
    "ContainerProfilePathInsideContainer \<notin> {curl, sh, ?swapped curl, ?swapped sh}"
    unfolding curl_def sh_def by code_simp+
  have after: "tr_ctr s' = (\<lambda>path.
      if path = curl \<or> path = sh then SealBinaryPathContainer
      else if path = ?swapped curl then curl else if path = ?swapped sh then sh else path)"
    unfolding ctr bins by (rule tr_swap_two [OF paths(1)])
  have unknown: "text0 curl = None" "text0 sh = None" using text0_values(4) by (simp_all add: bins)
  have known: "path = ContainerProfilePathInsideContainer" if "text0 (tr_ctr s' path) \<noteq> None" for path
  proof -
    have "path \<notin> {curl, sh, ?swapped curl, ?swapped sh}" and "tr_ctr s' path = path"
      using that text0_values(3) unknown unfolding after by (auto split: if_splits)
    then show ?thesis using that unfolding text0_def bins by (auto split: if_splits)
  qed
  have same: "tr_ctr s' ContainerProfilePathInsideContainer = ContainerProfilePathInsideContainer"
    using paths(2) unfolding after by simp
  have "reads_as text0 (tr_ctr s') ctr0"
    unfolding reads_as_def
  proof (intro allI impI, elim conjE)
    fix path t assume t: "text0 (tr_ctr s' path) = Some t"
    then have path: "path = ContainerProfilePathInsideContainer" using known by simp
    then have "t = encode_profiles bins0" using t same text0_values(1) by simp
    then show "\<exists>f. fs_open (comps path) ctr0 = Inr f \<and> fs_read f ctr0 = Inr t"
      by (simp add: path ctr0_paths ctr0_reads)
  qed
  with run show ?thesis by blast
qed

lemma ctr0_ready:
  assumes "CreateContainer get0 ''info'' (Some pod0) (Some web0) host0 = (Inr (Some a), h')"
  shows "container_set_up text0 tr_ctr tr_run a h' roots0 ctr0"
  using ctr0_mounts [OF assms] ctr0_hooks by (auto simp: container_set_up_def roots0_def)

lemma bins0_ok: "map_wf bins0" "utf8_profiles bins0" "lookup bins0 ''/bin/sh'' = Some zero_profile"
  "\<forall>b \<in> set (keys bins0). outside_data_dir b"
  by code_simp+

text \<open>\<open>profile0\<close> is admitted.\<close>

lemma profile0_ok: "profile_ok profile0"
proof -
  have "clean_abs ''/usr/bin/curl''" "clean_abs ''/bin/sh''" "clean_abs ''/etc''" by code_simp+
  then show ?thesis
    by (simp add: profile_ok_def binary_ok_def binary_profiles_def profile0_def bins0_def profile_paths_def
        disjoint_access_def zero_profile_def)
qed

text \<open>\<open>seal\<close> in that container, under either binary and with an empty environment.\<close>

lemma ctr0_env:
  "os_Getenv [] key = []" "sealedProcessEnv [] = []"
  "ParseLogLevel (if os_Getenv [] LogLevelEnvVar = [] then ''INFO'' else os_Getenv [] LogLevelEnvVar) = Inr 0"
  by (simp_all add: os_Getenv_def sealedProcessEnv_def os_Environ_def)

lemma ctr0_rules:
  "RulesForBinaryToRun (sw_rights willing_world) ctr0 b (os_Getenv [] AddLinkedLibrariesEnvVar \<noteq> [])
     (DiscoverLinkedLibraries (sw_dl willing_world) ctr0) =
   Inr (processPaths ctr0 [b] (accessDirRX linux_rights) (accessFileRX linux_rights))"
  by (simp add: RulesForBinaryToRun_def ctr0_env willing_world_def)

theorem delivered_program_confined_witness:
  "\<exists>rules. fst (seal_main willing_world ctr0 [] ''/usr/bin/curl'' [''-V'']) =
     [RestrictPaths rules,
      Exec (SwappedBinaryPathInsideContainer ''/usr/bin/curl'') [''/usr/bin/curl'', ''-V''] []] \<and>
   \<not> landlock_check linux_rights (\<lambda>p. p) rules [''etc'', ''passwd''] 1 \<and>
   \<not> landlock_check linux_rights (\<lambda>p. p) rules [''etc'', ''passwd''] 0 \<and>
   \<not> landlock_check linux_rights (\<lambda>p. p) rules [''root''] 2"
proof -
  let ?b = "''/usr/bin/curl''" and ?p = "zero_profile\<lparr>ReadOnly := [''/etc'']\<rparr>"
  let ?e = "Exec (SwappedBinaryPathInsideContainer ?b) [?b, ''-V''] []"
  obtain a h' where created: "CreateContainer get0 ''info'' (Some pod0) (Some web0) host0 = (Inr (Some a), h')"
    using create0 by blast
  have base: "Base ?b \<noteq> ''seal''" and curl: "lookup bins0 ?b = Some ?p" by code_simp+
  note ready = bins0_ok(1) host0_wf(1) bins0_ok(4) tr_laws ctr0_ready [OF created]
  have exec: "?e \<in> set (fst (seal_main willing_world ctr0 [] ?b [''-V'']))"
    using delivered_run [OF created fixture0(2,1) ready bins0_ok(2) curl base ctr0_env(1) ctr0_env(3) ctr0_rules,
        of "[''-V'']"]
    by (simp add: willing_world_def Let_def ctr0_env)
  have admitted: "ValidateCreate list_of_set profile0 = None"
    "lookup (ProfilesByContainer (Spec profile0)) (ctr_Name web0) = Some bins0"
    using profile0_ok by (simp_all add: profile0_def web0_def)
  have world: "rights_distinct (sw_rights willing_world)"
    "landlock_law (sw_rights willing_world) (\<lambda>p. p) (landlock_check linux_rights (\<lambda>p. p))"
    by (simp_all add: willing_world_def linux_rights_distinct landlock_check_law)
  from delivered_program_confined [OF created fixture0(2,1) ready admitted bins0_ok(2) curl base ctr0_env(1) world exec]
  obtain rules where run: "fst (seal_main willing_world ctr0 [] ?b [''-V'']) = [RestrictPaths rules, ?e]"
    and confined: "\<And>q j. j < 15 \<Longrightarrow> landlock_check linux_rights (\<lambda>p. p) rules q j \<Longrightarrow>
      confined (\<lambda>p. p) ?p [SwappedBinaryPathInsideContainer ?b] q j"
    by (auto simp: ctr0_env)
  have "comps ''/etc'' = [''etc'']" by code_simp
  then have "\<not> confined (\<lambda>p. p) ?p [SwappedBinaryPathInsideContainer ?b] [''etc'', ''passwd''] 1"
    "\<not> confined (\<lambda>p. p) ?p [SwappedBinaryPathInsideContainer ?b] [''etc'', ''passwd''] 0"
    "\<not> confined (\<lambda>p. p) ?p [SwappedBinaryPathInsideContainer ?b] [''root''] 2"
    by (simp_all add: confined_def under_iff meets_id zero_profile_def profile_paths_def ctr0_paths)
  then show ?thesis using run confined by fastforce
qed

theorem delivered_profile_enforced_witness:
  "seal_main willing_world ctr0 [] ''/bin/sh'' [''-c''] =
     (let swapped = SwappedBinaryPathInsideContainer ''/bin/sh'' in
      ([RestrictPaths (ProfileToLandlockRules linux_rights ctr0 zero_profile @
          processPaths ctr0 [swapped] (accessDirRX linux_rights) (accessFileRX linux_rights)),
        Exec swapped [''/bin/sh'', ''-c''] []], Replaced))"
proof -
  obtain a h' where created: "CreateContainer get0 ''info'' (Some pod0) (Some web0) host0 = (Inr (Some a), h')"
    using create0 by blast
  have base: "Base ''/bin/sh'' \<noteq> ''seal''" by code_simp
  show ?thesis
    using delivered_profile_enforced [OF created fixture0(2,1) bins0_ok(1) host0_wf(1) bins0_ok(4) tr_laws
        ctr0_ready [OF created] bins0_ok(2,3) base ctr0_env(1) ctr0_env(3) ctr0_rules, of "[''-c'']"]
    by (simp add: willing_world_def Let_def ctr0_env)
qed

theorem reachable_profile_enforced_witness:
  "\<exists>h. (node_step (\<lambda>get. get = get0) ''info'')\<^sup>*\<^sup>* host0 h \<and>
     stored_profiles h (''pod1'', ''web'') = Some (encode_profiles bins0) \<and>
     seal_main willing_world ctr0 [] ''/bin/ls'' [''-l''] = ([], Exit 1)"
proof -
  obtain a h where created: "CreateContainer get0 ''info'' (Some pod0) (Some web0) host0 = (Inr (Some a), h)"
    using create0 by blast
  have reach: "(node_step (\<lambda>get. get = get0) ''info'')\<^sup>*\<^sup>* host0 h"
    using step0 created by (simp add: r_into_rtranclp)
  have new: "stored_profiles host0 (''pod1'', ''web'') = None"
    by (simp add: stored_profiles_def file_at_def host0_def ctr_dir_def)
  have only: "m = bins0" if "get = get0" "selected get p c m" for get p c m
    using that by (auto simp: selected_def get0_def profile0_def split: if_splits)
  have wf: "map_wf m \<and> utf8_profiles m" if "get = get0" "selected get p c m" for get p c m
    using only [OF that] bins0_ok(1,2) by simp
  have stored: "stored_profiles h (''pod1'', ''web'') = Some (encode_profiles bins0)"
    using create_store(2) [where G = "\<lambda>get. get = get0", OF created fixture0(2) binaries0 refl refl fixture0(1)]
    by (simp add: pod0_def web0_def)
  have call: "Base ''/bin/ls'' \<noteq> ''seal''" "Abs (Inr ''/'') ''/bin/ls'' = Inr ''/bin/ls''" "lookup bins0 ''/bin/ls'' = None"
    by code_simp+
  have abs: "Abs (os_Getwd ctr0) ''/bin/ls'' = Inr ''/bin/ls''" using call(2) by (simp add: ctr0_def os_Getwd_def)
  have opened: "fs_open (comps ContainerProfilePathInsideContainer) ctr0 = Inr [''.podlock'', ''profile.json'']"
    by (simp add: ctr0_paths ctr0_reads)
  have "seal_main willing_world ctr0 [] ''/bin/ls'' [''-l''] = ([], Exit 1)"
    using reachable_profile_enforced [where w = willing_world and args = "[''-l'']",
        OF reach new wf stored opened ctr0_reads(2) ctr0_env(1) call(1)] abs only call(3) by fastforce
  with reach stored show ?thesis by blast
qed


theorem admission_suffices_witness:
  "swappedBinaryPathOnHost ''pod1'' ''web'' ''/bin/sh'' \<noteq> swappedBinaryPathOnHost ''pod2'' ''web'' ''/usr/bin/curl''"
proof -
  have admitted: "ValidateCreate list_of_set profile0 = None" using profile0_ok by simp
  have m: "lookup (ProfilesByContainer (Spec profile0)) ''web'' = Some bins0" by (simp add: profile0_def)
  have b: "''/bin/sh'' \<in> set (keys bins0)" by (simp add: bins0_def)
  have "proper ''pod1''" "proper ''web''" "proper ''pod2''" "proper ''web''" "clean_abs ''/usr/bin/curl''" by code_simp+
  from admission_suffices [OF admitted m b this] show ?thesis by simp
qed

lemma admitted_one_access_witness:
  "grants (ProfileToLandlockRules linux_rights rules_host rules_profile) ''/tmp'' (accessDirRW linux_rights) \<and>
   \<not> grants (ProfileToLandlockRules linux_rights rules_host rules_profile) ''/tmp'' (accessDirR linux_rights)"
proof -
  let ?p = "spec_of (Some [(''a'', Some [(''/ls'', rules_profile)])])"
  have "clean_abs ''/ls''" "clean_abs ''/etc''" "clean_abs ''/tmp''" by code_simp+
  then have admitted: "ValidateCreate list_of_set ?p = None"
    by (simp add: profile_ok_def binary_ok_def binary_profiles_def spec_of_def profile_paths_def
        disjoint_access_def rules_profile_def)
  have m: "lookup (ProfilesByContainer (Spec ?p)) ''a'' = Some (Some [(''/ls'', rules_profile)])"
    and p: "lookup (Some [(''/ls'', rules_profile)]) ''/ls'' = Some rules_profile"
    by (simp_all add: spec_of_def)
  have "IsAbs ''/tmp''" "comps ''/tmp'' = [''tmp'']" by code_simp+
  then have "is_dir rules_host ''/tmp''" by (simp add: is_dir_def os_Stat_def fs_stat_def rules_host_def)
  then have granted: "grants (ProfileToLandlockRules linux_rights rules_host rules_profile) ''/tmp'' (accessDirRW linux_rights)"
    by (simp add: grants_profile entry_access_def rules_profile_def)
  have "accessDirRW linux_rights \<noteq> accessDirR linux_rights" by code_simp
  then show ?thesis using admitted_one_access [OF admitted m p granted] granted by blast
qed

definition cluster_web :: cluster where
  "cluster_web = \<lparr>cl_profiles = [key_of profile0 \<mapsto> Default list_controllerutil profile0], cl_pods = []\<rparr>"

definition get_web :: "NamespacedName \<Rightarrow> LandlockProfile result" where
  "get_web nn = (case cl_profiles cluster_web nn of None \<Rightarrow> Inl (Remote ''not found'') | Some p \<Rightarrow> Inr p)"

theorem system_isolation_witness:
  "\<exists>a h'. CreateContainer get_web ''info'' (Some pod0) (Some web0) host0 = (Inr (Some a), h') \<and>
     file_at h' (ctr_dir ''pod2'' ''web'' @ [''x'']) = file_at host0 (ctr_dir ''pod2'' ''web'' @ [''x''])"
proof -
  have inv: "cluster_inv cluster_web"
    using profile_inv_Default [OF list_controllerutil_laws, of profile0] profile0_ok
    by (simp add: cluster_inv_def cluster_web_def deleting_def profile0_def)
  have get: "\<exists>k. (cluster_step list_controllerutil list_of_set (=))\<^sup>*\<^sup>* cluster_web k \<and> cl_profiles k nn = Some prof"
    if "get_web nn = Inr prof" for nn prof
    using that by (auto simp: get_web_def split: option.splits)
  have "selected get_web pod0 web0 bins0"
    by (simp add: selected_def pod0_def web0_def get_web_def cluster_web_def key_of_def profile0_def)
  from CreateContainer_succeeds [OF this fixture0(2,3) host0_wf host0_fresh fixture0(4)]
  obtain a h' where created: "CreateContainer get_web ''info'' (Some pod0) (Some web0) host0 = (Inr (Some a), h')"
    by blast
  have "\<not> strict_prefix (ctr_dir (pod_Id pod0) (ctr_Name web0)) (ctr_dir ''pod2'' ''web'' @ [''x''])"
    by (simp add: pod0_def web0_def ctr_dir_def pod_dir_def)
  from system_isolation [OF list_controllerutil_laws inv get created fixture0(2) this] created
  show ?thesis by blast
qed

end
